(* ===== verification/Prelude.thy ===== *)
theory Prelude
  imports Main
begin

text \<open>
  What every theory of the development shares: the theorem collections that carry the
  component proofs, the type abbreviations, and the generic facts on lists and options
  that the tables of the store and the string routines rest on.

  A Rust \<^verbatim>\<open>String\<close> or \<^verbatim>\<open>&str\<close> is modelled by its UTF-8 bytes: a HOL
  \<^typ>\<open>string\<close> is a list of eight-bit characters, so \<^verbatim>\<open>len()\<close> is
  \<^const>\<open>length\<close> and byte offsets are list positions.
\<close>

named_theorems frame_rules "rules that bound the effect of an action by a relation on worlds"
named_theorems calm_rules "rules that an action neither panics nor hangs"
named_theorems step_simps "symbolic execution of the effect combinators"
named_theorems store_defs "the statements of the store, as rewrite rules"

text \<open>A byte-string identifier: Matrix ids, JMAP ids and mail addresses are all text.\<close>

type_synonym mxid = string
type_synonym room_id = string
type_synonym event_id = string
type_synonym email_id = string
type_synonym thread_id = string
type_synonym addr = string

section \<open>Tables: lists of rows\<close>

text \<open>
  A database table is the list of its rows in rowid order. \<open>find_row\<close> is
  \<^verbatim>\<open>SELECT ... LIMIT 1\<close>, \<open>drop_rows\<close> is \<^verbatim>\<open>DELETE\<close>, \<open>upd_rows\<close> is
  \<^verbatim>\<open>UPDATE\<close>, and \<open>put_row\<close> is \<^verbatim>\<open>INSERT OR REPLACE\<close>: the rows in conflict go
  and the new row gets the greatest rowid.
\<close>

definition find_row :: "('r \<Rightarrow> bool) \<Rightarrow> 'r list \<Rightarrow> 'r option" where
  "find_row p t = List.find p t"

definition drop_rows :: "('r \<Rightarrow> bool) \<Rightarrow> 'r list \<Rightarrow> 'r list" where
  "drop_rows p t = filter (\<lambda>r. \<not> p r) t"

definition upd_rows :: "('r \<Rightarrow> bool) \<Rightarrow> ('r \<Rightarrow> 'r) \<Rightarrow> 'r list \<Rightarrow> 'r list" where
  "upd_rows p f t = map (\<lambda>r. if p r then f r else r) t"

definition put_row :: "('r \<Rightarrow> 'k) \<Rightarrow> 'r \<Rightarrow> 'r list \<Rightarrow> 'r list" where
  "put_row key r t = drop_rows (\<lambda>r'. key r' = key r) t @ [r]"

definition has_row :: "('r \<Rightarrow> bool) \<Rightarrow> 'r list \<Rightarrow> bool" where
  "has_row p t = list_ex p t"

definition unique_key :: "('r \<Rightarrow> 'k) \<Rightarrow> 'r list \<Rightarrow> bool" where
  "unique_key key t = distinct (map key t)"

lemma find_row_Nil [simp]: "find_row p [] = None"
  by (simp add: find_row_def)

lemma find_row_Cons [simp]: "find_row p (r # t) = (if p r then Some r else find_row p t)"
  by (simp add: find_row_def)

lemma find_row_append:
  "find_row p (t @ u) = (case find_row p t of Some r \<Rightarrow> Some r | None \<Rightarrow> find_row p u)"
  by (induction t) auto

lemma find_row_SomeD: "find_row p t = Some r \<Longrightarrow> r \<in> set t \<and> p r"
  by (induction t) (auto split: if_splits)

lemma find_row_None: "find_row p t = None \<longleftrightarrow> (\<forall>r \<in> set t. \<not> p r)"
  by (induction t) auto

lemma find_row_drop_same [simp]: "find_row p (drop_rows p t) = None"
  by (auto simp: find_row_None drop_rows_def)

lemma find_row_drop_other:
  "(\<And>r. p r \<Longrightarrow> \<not> q r) \<Longrightarrow> find_row p (drop_rows q t) = find_row p t"
  by (induction t) (auto simp: drop_rows_def)

lemma find_row_put_same: "key r = k \<Longrightarrow> find_row (\<lambda>r'. key r' = k) (put_row key r t) = Some r"
  by (auto simp: put_row_def find_row_append)

lemma find_row_put_other:
  "key r \<noteq> k \<Longrightarrow> find_row (\<lambda>r'. key r' = k) (put_row key r t) = find_row (\<lambda>r'. key r' = k) t"
proof -
  assume "key r \<noteq> k"
  then have "find_row (\<lambda>r'. key r' = k) (drop_rows (\<lambda>r'. key r' = key r) t)
    = find_row (\<lambda>r'. key r' = k) t"
    by (intro find_row_drop_other) auto
  with \<open>key r \<noteq> k\<close> show ?thesis
    by (simp add: put_row_def find_row_append split: option.split)
qed

lemma has_row_iff [simp]: "has_row p t \<longleftrightarrow> (\<exists>r \<in> set t. p r)"
  by (auto simp: has_row_def list_ex_iff)

lemma set_drop_rows [simp]: "set (drop_rows p t) = {r \<in> set t. \<not> p r}"
  by (auto simp: drop_rows_def)

lemma set_put_row: "set (put_row key r t) = insert r {r' \<in> set t. key r' \<noteq> key r}"
  by (auto simp: put_row_def)

lemma set_upd_rows: "set (upd_rows p f t) = (\<lambda>r. if p r then f r else r) ` set t"
  by (simp add: upd_rows_def)

lemma length_drop_rows: "length (drop_rows p t) \<le> length t"
  by (simp add: drop_rows_def)

lemma unique_key_Nil [simp]: "unique_key key []"
  by (simp add: unique_key_def)

lemma unique_key_drop: "unique_key key t \<Longrightarrow> unique_key key (drop_rows p t)"
  by (simp add: unique_key_def drop_rows_def distinct_map_filter)

lemma unique_key_snoc:
  "unique_key key (t @ [r]) \<longleftrightarrow> unique_key key t \<and> (\<forall>r' \<in> set t. key r' \<noteq> key r)"
  by (simp add: unique_key_def image_iff) metis

lemma unique_key_put: "unique_key key t \<Longrightarrow> unique_key key (put_row key r t)"
  by (simp add: put_row_def unique_key_snoc unique_key_drop)

lemma unique_key_upd:
  "(\<And>r. key (f r) = key r) \<Longrightarrow> unique_key key t \<Longrightarrow> unique_key key (upd_rows p f t)"
proof -
  assume "\<And>r. key (f r) = key r"
  then have "map key (upd_rows p f t) = map key t"
    by (auto simp: upd_rows_def)
  then show "unique_key key t \<Longrightarrow> unique_key key (upd_rows p f t)"
    by (simp add: unique_key_def)
qed

lemma unique_key_find:
  "unique_key key t \<Longrightarrow> r \<in> set t \<Longrightarrow> find_row (\<lambda>r'. key r' = key r) t = Some r"
  by (induction t) (auto simp: unique_key_def)

lemma find_row_upd:
  "(\<And>r. q (f r) = q r) \<Longrightarrow>
   find_row q (upd_rows p f t) = map_option (\<lambda>r. if p r then f r else r) (find_row q t)"
  by (induction t) (auto simp: upd_rows_def)

lemma upd_rows_id: "(\<And>r. r \<in> set t \<Longrightarrow> \<not> p r) \<Longrightarrow> upd_rows p f t = t"
  by (auto simp: upd_rows_def intro: map_idI)

lemma drop_rows_id: "(\<And>r. r \<in> set t \<Longrightarrow> \<not> p r) \<Longrightarrow> drop_rows p t = t"
  by (simp add: drop_rows_def)

section \<open>Options\<close>

lemma bind_Some_eq: "Option.bind x f = Some y \<longleftrightarrow> (\<exists>z. x = Some z \<and> f z = Some y)"
  by (cases x) auto

end
