(* ===== verification/Rust_Str.thy ===== *)
theory Rust_Str
  imports Prelude
begin

text \<open>
  The routines of Rust's standard library on \<^verbatim>\<open>str\<close> that the bridge calls, on the
  UTF-8 bytes of the text. The language and its standard library are modelled by what their
  documentation says; nothing here has a line under \<^verbatim>\<open>src/\<close> of its own.
\<close>

section \<open>Whitespace and trimming\<close>

text \<open>
  \<open>ws_len s\<close> is the number of bytes of the Unicode White_Space character that \<open>s\<close> starts
  with, and 0 when it starts with another one (\<^verbatim>\<open>char::is_whitespace\<close>).
  \<open>ws_len_rev\<close> reads the bytes from the end, for \<^verbatim>\<open>trim_end\<close>.
\<close>

definition ws1 :: "char \<Rightarrow> bool" where
  "ws1 a = (let n = (of_char a :: nat) in (9 \<le> n \<and> n \<le> 13) \<or> n = 32)"

definition ws2 :: "char \<Rightarrow> char \<Rightarrow> bool" where
  "ws2 a b = (a = CHR 0xC2 \<and> (b = CHR 0x85 \<or> b = CHR 0xA0))"

definition ws3 :: "char \<Rightarrow> char \<Rightarrow> char \<Rightarrow> bool" where
  "ws3 a b c = (let n = (of_char c :: nat) in
     (a = CHR 0xE1 \<and> b = CHR 0x9A \<and> n = 0x80) \<or>
     (a = CHR 0xE2 \<and> b = CHR 0x80 \<and> ((0x80 \<le> n \<and> n \<le> 0x8A) \<or> n = 0xA8 \<or> n = 0xA9 \<or> n = 0xAF)) \<or>
     (a = CHR 0xE2 \<and> b = CHR 0x81 \<and> n = 0x9F) \<or>
     (a = CHR 0xE3 \<and> b = CHR 0x80 \<and> n = 0x80))"

fun ws_len :: "string \<Rightarrow> nat" where
  "ws_len [] = 0"
| "ws_len (a # s) = (if ws1 a then 1 else case s of [] \<Rightarrow> 0 | b # t \<Rightarrow>
     (if ws2 a b then 2 else case t of [] \<Rightarrow> 0 | c # _ \<Rightarrow> (if ws3 a b c then 3 else 0)))"

fun ws_len_rev :: "string \<Rightarrow> nat" where
  "ws_len_rev [] = 0"
| "ws_len_rev (c # s) = (if ws1 c then 1 else case s of [] \<Rightarrow> 0 | b # t \<Rightarrow>
     (if ws2 b c then 2 else case t of [] \<Rightarrow> 0 | a # _ \<Rightarrow> (if ws3 a b c then 3 else 0)))"

lemma ws_len_le: "ws_len s \<le> length s"
  by (cases s) (auto split: list.splits)

lemma ws_len_rev_le: "ws_len_rev s \<le> length s"
  by (cases s) (auto split: list.splits)

function trim_start :: "string \<Rightarrow> string" where
  "trim_start s = (if ws_len s = 0 then s else trim_start (drop (ws_len s) s))"
  by pat_completeness auto
termination
proof (relation "measure length")
  fix s :: string
  assume "ws_len s \<noteq> 0"
  moreover from this have "s \<noteq> []" by auto
  ultimately show "(drop (ws_len s) s, s) \<in> measure length" by auto
qed auto

function trim_rev :: "string \<Rightarrow> string" where
  "trim_rev s = (if ws_len_rev s = 0 then s else trim_rev (drop (ws_len_rev s) s))"
  by pat_completeness auto
termination
proof (relation "measure length")
  fix s :: string
  assume "ws_len_rev s \<noteq> 0"
  moreover from this have "s \<noteq> []" by auto
  ultimately show "(drop (ws_len_rev s) s, s) \<in> measure length" by auto
qed auto

declare trim_start.simps [simp del] trim_rev.simps [simp del]

definition trim_end :: "string \<Rightarrow> string" where
  "trim_end s = rev (trim_rev (rev s))"

definition trim :: "string \<Rightarrow> string" where
  "trim s = trim_end (trim_start s)"

lemma trim_start_Nil [simp]: "trim_start [] = []"
  by (subst trim_start.simps) simp

lemma trim_rev_Nil [simp]: "trim_rev [] = []"
  by (subst trim_rev.simps) simp

lemma trim_end_Nil [simp]: "trim_end [] = []"
  by (simp add: trim_end_def)

lemma trim_Nil [simp]: "trim [] = []"
  by (simp add: trim_def)

lemma ws_len_trim_start [simp]: "ws_len (trim_start s) = 0"
  by (induction s rule: trim_start.induct) (metis trim_start.simps)

lemma ws_len_rev_trim_rev [simp]: "ws_len_rev (trim_rev s) = 0"
  by (induction s rule: trim_rev.induct) (metis trim_rev.simps)

lemma trim_start_id: "ws_len s = 0 \<Longrightarrow> trim_start s = s"
  by (subst trim_start.simps) simp

lemma trim_rev_id: "ws_len_rev s = 0 \<Longrightarrow> trim_rev s = s"
  by (subst trim_rev.simps) simp

lemma trim_start_suffix: "\<exists>k. trim_start s = drop k s"
proof (induction s rule: trim_start.induct)
  case (1 s)
  show ?case
  proof (cases "ws_len s = 0")
    case True
    then have "trim_start s = drop 0 s" by (simp add: trim_start_id)
    then show ?thesis by blast
  next
    case False
    with "1" obtain k where "trim_start (drop (ws_len s) s) = drop k (drop (ws_len s) s)" by blast
    with False have "trim_start s = drop (k + ws_len s) s" by (subst trim_start.simps) simp
    then show ?thesis by blast
  qed
qed

lemma trim_rev_suffix: "\<exists>k. trim_rev s = drop k s"
proof (induction s rule: trim_rev.induct)
  case (1 s)
  show ?case
  proof (cases "ws_len_rev s = 0")
    case True
    then have "trim_rev s = drop 0 s" by (simp add: trim_rev_id)
    then show ?thesis by blast
  next
    case False
    with "1" obtain k where "trim_rev (drop (ws_len_rev s) s) = drop k (drop (ws_len_rev s) s)" by blast
    with False have "trim_rev s = drop (k + ws_len_rev s) s" by (subst trim_rev.simps) simp
    then show ?thesis by blast
  qed
qed

lemma trim_end_prefix: "\<exists>k. trim_end s = take k s"
proof -
  obtain k where "trim_rev (rev s) = drop k (rev s)" using trim_rev_suffix by blast
  then have "trim_end s = take (length s - k) s"
    by (simp add: trim_end_def drop_rev)
  then show ?thesis by blast
qed

lemma trim_end_idem [simp]: "trim_end (trim_end s) = trim_end s"
  by (simp add: trim_end_def trim_rev_id)

lemma length_trim_start: "length (trim_start s) \<le> length s"
  using trim_start_suffix [of s] by auto

lemma length_trim_end: "length (trim_end s) \<le> length s"
  using trim_end_prefix [of s] by auto

lemma length_trim: "length (trim s) \<le> length s"
  unfolding trim_def using length_trim_end length_trim_start le_trans by blast

section \<open>Prefixes, search and splitting\<close>

definition starts_with :: "string \<Rightarrow> string \<Rightarrow> bool" where
  "starts_with s p = (take (length p) s = p)"

definition ends_with :: "string \<Rightarrow> string \<Rightarrow> bool" where
  "ends_with s p = starts_with (rev s) (rev p)"

definition strip_prefix :: "string \<Rightarrow> string \<Rightarrow> string option" where
  "strip_prefix s p = (if starts_with s p then Some (drop (length p) s) else None)"

text \<open>The offset of the first occurrence (\<^verbatim>\<open>str::find\<close>).\<close>

fun str_find :: "string \<Rightarrow> string \<Rightarrow> nat option" where
  "str_find [] p = (if p = [] then Some 0 else None)"
| "str_find (c # s) p = (if starts_with (c # s) p then Some 0 else map_option Suc (str_find s p))"

definition contains :: "string \<Rightarrow> string \<Rightarrow> bool" where
  "contains s p = (str_find s p \<noteq> None)"

fun split_once :: "string \<Rightarrow> char \<Rightarrow> (string \<times> string) option" where
  "split_once [] c = None"
| "split_once (a # s) c = (if a = c then Some ([], s)
     else map_option (\<lambda>(l, r). (a # l, r)) (split_once s c))"

fun split_char :: "char \<Rightarrow> string \<Rightarrow> string list" where
  "split_char c [] = [[]]"
| "split_char c (a # s) = (if a = c then [] # split_char c s
     else case split_char c s of [] \<Rightarrow> [[a]] | w # ws \<Rightarrow> (a # w) # ws)"

text \<open>\<^verbatim>\<open>splitn(n, c)\<close>: at most \<open>n\<close> pieces, the last one the unsplit rest.\<close>

fun splitn :: "nat \<Rightarrow> char \<Rightarrow> string \<Rightarrow> string list" where
  "splitn 0 c s = []"
| "splitn (Suc 0) c s = [s]"
| "splitn (Suc (Suc n)) c s = (case split_once s c of None \<Rightarrow> [s]
     | Some (l, r) \<Rightarrow> l # splitn (Suc n) c r)"

text \<open>The text before the first White_Space character, and the text from there on.\<close>

function break_ws :: "string \<Rightarrow> string \<times> string" where
  "break_ws s = (if s = [] \<or> ws_len s \<noteq> 0 then ([], s)
     else (case break_ws (tl s) of (l, r) \<Rightarrow> (hd s # l, r)))"
  by pat_completeness auto
termination by (relation "measure length") auto

declare break_ws.simps [simp del]

lemma break_ws_append: "break_ws s = (l, r) \<Longrightarrow> s = l @ r"
proof (induction s arbitrary: l r rule: break_ws.induct)
  case (1 s)
  then show ?case
    by (cases s; subst (asm) (2) break_ws.simps) (auto split: if_splits prod.splits)
qed

lemma break_ws_rest: "length (snd (break_ws s)) \<le> length s"
  using break_ws_append [of s "fst (break_ws s)" "snd (break_ws s)"]
  by (metis length_append le_add2 prod.collapse)

function split_whitespace :: "string \<Rightarrow> string list" where
  "split_whitespace s = (let t = trim_start s in if t = [] then []
     else (case break_ws t of (w, r) \<Rightarrow> w # split_whitespace r))"
  by pat_completeness auto
termination
proof (relation "measure length")
  fix s t w r
  assume t: "t = trim_start s" "t \<noteq> []" and b: "(w, r) = break_ws t"
  from t have "ws_len t = 0" by simp
  with t b have "w \<noteq> []"
    by (subst (asm) break_ws.simps) (auto split: prod.splits)
  moreover have "t = w @ r" using b break_ws_append by metis
  ultimately have "length r < length t" by (cases w) auto
  with t length_trim_start [of s] show "(r, s) \<in> measure length" by simp
qed auto

declare split_whitespace.simps [simp del]

text \<open>
  \<^verbatim>\<open>str::lines\<close>: lines end at LF; one CR before the LF goes with it; a final LF
  does not start another line.
\<close>

definition strip_cr :: "string \<Rightarrow> string" where
  "strip_cr l = (if l \<noteq> [] \<and> last l = CHR 0x0D then butlast l else l)"

fun lines_of :: "string list \<Rightarrow> string list" where
  "lines_of [] = []"
| "lines_of [l] = (if l = [] then [] else [l])"
| "lines_of (l # ls) = strip_cr l # lines_of ls"

definition str_lines :: "string \<Rightarrow> string list" where
  "str_lines s = lines_of (split_char (CHR 0x0A) s)"

fun join :: "string \<Rightarrow> string list \<Rightarrow> string" where
  "join sep [] = []"
| "join sep [x] = x"
| "join sep (x # xs) = x @ sep @ join sep xs"

function str_replace :: "string \<Rightarrow> string \<Rightarrow> string \<Rightarrow> string" where
  "str_replace s p r = (if s = [] \<or> p = [] then s
     else if starts_with s p then r @ str_replace (drop (length p) s) p r
     else hd s # str_replace (tl s) p r)"
  by pat_completeness auto
termination by (relation "measure (\<lambda>(s, p, r). length s)") auto

declare str_replace.simps [simp del]

text \<open>\<^verbatim>\<open>trim_start_matches\<close> with a text pattern, repeated while it matches.\<close>

function trim_start_matches :: "string \<Rightarrow> string \<Rightarrow> string" where
  "trim_start_matches s p = (if p \<noteq> [] \<and> starts_with s p
     then trim_start_matches (drop (length p) s) p else s)"
  by pat_completeness auto
termination
proof (relation "measure (\<lambda>(s, p). length s)")
  fix s p :: string
  assume "p \<noteq> [] \<and> starts_with s p"
  then have "s \<noteq> []" and "p \<noteq> []" by (auto simp: starts_with_def)
  then show "((drop (length p) s, p), s, p) \<in> measure (\<lambda>(s, p). length s)" by simp
qed auto

declare trim_start_matches.simps [simp del]

text \<open>How splitting and lines meet concatenation.\<close>

lemma split_char_nonempty [simp]: "split_char c s \<noteq> []"
  by (induction s) (auto split: list.split)

lemma split_char_append: "split_char c (a @ c # b) = split_char c a @ split_char c b"
  by (induction a) (auto split: list.splits)

lemma split_char_none: "c \<notin> set s \<Longrightarrow> split_char c s = [s]"
  by (induction s) auto

lemma lines_of_append: "ys \<noteq> [] \<Longrightarrow> lines_of (xs @ ys) = map strip_cr xs @ lines_of ys"
proof (induction xs)
  case (Cons x xs)
  then show ?case by (cases "xs @ ys") auto
qed simp

lemma lines_of_snoc: "lines_of (xs @ [l]) = map strip_cr xs @ (if l = [] then [] else [l])"
  by (simp add: lines_of_append)

lemma join_append: "xs \<noteq> [] \<Longrightarrow> ys \<noteq> [] \<Longrightarrow> join sep (xs @ ys) = join sep xs @ sep @ join sep ys"
proof (induction xs)
  case (Cons x xs)
  then show ?case by (cases xs; cases ys) auto
qed simp

lemma trim_end_snoc_ws: "ws1 c \<Longrightarrow> trim_end (s @ [c]) = trim_end s"
  unfolding trim_end_def by (subst trim_rev.simps) simp

lemma trim_end_append_ws: "\<forall>c \<in> set w. ws1 c \<Longrightarrow> trim_end (s @ w) = trim_end s"
proof (induction w rule: rev_induct)
  case (snoc c w)
  then have "trim_end ((s @ w) @ [c]) = trim_end (s @ w)" by (intro trim_end_snoc_ws) simp
  with snoc show ?case by simp
qed simp

section \<open>ASCII case\<close>

definition lower_char :: "char \<Rightarrow> char" where
  "lower_char c = (let n = (of_char c :: nat) in if 65 \<le> n \<and> n \<le> 90 then char_of (n + 32) else c)"

definition to_ascii_lowercase :: "string \<Rightarrow> string" where
  "to_ascii_lowercase s = map lower_char s"

definition eq_ignore_ascii_case :: "string \<Rightarrow> string \<Rightarrow> bool" where
  "eq_ignore_ascii_case s t = (to_ascii_lowercase s = to_ascii_lowercase t)"

section \<open>Numbers as text\<close>

definition digit_char :: "nat \<Rightarrow> char" where
  "digit_char n = char_of (48 + n)"

fun show_nat :: "nat \<Rightarrow> string" where
  "show_nat n = (if n < 10 then [digit_char n] else show_nat (n div 10) @ [digit_char (n mod 10)])"

declare show_nat.simps [simp del]

definition show_int :: "int \<Rightarrow> string" where
  "show_int i = (if i < 0 then CHR ''-'' # show_nat (nat (- i)) else show_nat (nat i))"

definition is_digit :: "char \<Rightarrow> bool" where
  "is_digit c = (let n = (of_char c :: nat) in 48 \<le> n \<and> n \<le> 57)"

definition digit_val :: "char \<Rightarrow> nat" where
  "digit_val c = (of_char c :: nat) - 48"

definition digits_val :: "string \<Rightarrow> nat" where
  "digits_val s = foldl (\<lambda>a c. 10 * a + digit_val c) 0 s"

text \<open>
  \<^verbatim>\<open>parse::<u64>/<usize>()\<close>: an optional plus, at least one digit, in range (64-bit target).
  \<^verbatim>\<open>parse::<i64>()\<close> also takes a minus.
\<close>

definition parse_digits :: "string \<Rightarrow> nat option" where
  "parse_digits s = (if s \<noteq> [] \<and> list_all is_digit s then Some (digits_val s) else None)"

definition strip_plus :: "string \<Rightarrow> string" where
  "strip_plus s = (case s of [] \<Rightarrow> [] | c # t \<Rightarrow> if c = CHR ''+'' then t else s)"

definition parse_usize :: "string \<Rightarrow> nat option" where
  "parse_usize s = (case parse_digits (strip_plus s) of None \<Rightarrow> None
     | Some n \<Rightarrow> if n < 2 ^ 64 then Some n else None)"

definition parse_u32 :: "string \<Rightarrow> nat option" where
  "parse_u32 s = (case parse_digits (strip_plus s) of None \<Rightarrow> None
     | Some n \<Rightarrow> if n < 2 ^ 32 then Some n else None)"

definition parse_i64 :: "string \<Rightarrow> int option" where
  "parse_i64 s = (if s \<noteq> [] \<and> hd s = CHR ''-''
     then (case parse_digits (tl s) of None \<Rightarrow> None
       | Some n \<Rightarrow> if n \<le> 2 ^ 63 then Some (- int n) else None)
     else (case parse_digits (strip_plus s) of None \<Rightarrow> None
       | Some n \<Rightarrow> if n < 2 ^ 63 then Some (int n) else None))"

section \<open>UTF-8 decoding\<close>

text \<open>
  \<^verbatim>\<open>str::chars\<close> on valid UTF-8: the scalar values. \<open>char_len\<close> is \<^verbatim>\<open>len_utf8\<close> of the
  character a lead byte starts; a continuation byte never starts one in a \<^verbatim>\<open>str\<close>.
\<close>

definition char_len :: "char \<Rightarrow> nat" where
  "char_len c = (let n = (of_char c :: nat) in
     if n < 0xC0 then 1 else if n < 0xE0 then 2 else if n < 0xF0 then 3 else 4)"

definition is_cont :: "char \<Rightarrow> bool" where
  "is_cont c = (let n = (of_char c :: nat) in 0x80 \<le> n \<and> n < 0xC0)"

text \<open>The characters of a text, each as its bytes.\<close>

function str_chars :: "string \<Rightarrow> string list" where
  "str_chars s = (if s = [] then [] else take (char_len (hd s)) s # str_chars (drop (char_len (hd s)) s))"
  by pat_completeness auto
termination
proof (relation "measure length")
  fix s :: string
  assume "s \<noteq> []"
  moreover have "0 < char_len (hd s)" by (simp add: char_len_def Let_def)
  ultimately show "(drop (char_len (hd s)) s, s) \<in> measure length" by (cases s) auto
qed auto

declare str_chars.simps [simp del]

lemma str_chars_Nil [simp]: "str_chars [] = []"
  by (subst str_chars.simps) simp

lemma concat_str_chars [simp]: "concat (str_chars s) = s"
proof (induction s rule: str_chars.induct)
  case (1 s)
  then show ?case by (cases "s = []") (simp_all add: str_chars.simps [of s])
qed

definition is_char_boundary :: "string \<Rightarrow> nat \<Rightarrow> bool" where
  "is_char_boundary s i \<longleftrightarrow> i = 0 \<or> i = length s \<or> (i < length s \<and> \<not> is_cont (s ! i))"

text \<open>\<^verbatim>\<open>rfind\<close> with a set of ASCII characters: the offset of the last one.\<close>

fun rfind_in :: "char set \<Rightarrow> string \<Rightarrow> nat option" where
  "rfind_in C [] = None"
| "rfind_in C (c # s) = (case rfind_in C s of Some i \<Rightarrow> Some (Suc i) | None \<Rightarrow> if c \<in> C then Some 0 else None)"

lemma rfind_in_less: "rfind_in C s = Some i \<Longrightarrow> i < length s"
  by (induction s arbitrary: i) (auto split: option.splits if_splits)

fun utf8_chars :: "string \<Rightarrow> nat list" where
  "utf8_chars [] = []"
| "utf8_chars (a # s) = (let x = (of_char a :: nat) in
     if x < 0xC0 then x # utf8_chars s
     else if x < 0xE0 then (case s of b # t \<Rightarrow>
       ((x - 0xC0) * 64 + (of_char b - 0x80)) # utf8_chars t | _ \<Rightarrow> [])
     else if x < 0xF0 then (case s of b # c # t \<Rightarrow>
       ((x - 0xE0) * 4096 + (of_char b - 0x80) * 64 + (of_char c - 0x80)) # utf8_chars t | _ \<Rightarrow> [])
     else (case s of b # c # d # t \<Rightarrow>
       ((x - 0xF0) * 262144 + (of_char b - 0x80) * 4096 + (of_char c - 0x80) * 64
         + (of_char d - 0x80)) # utf8_chars t | _ \<Rightarrow> []))"

text \<open>\<^verbatim>\<open>String::from_utf8\<close> accepts exactly the well-formed byte sequences.\<close>

definition cont_in :: "nat \<Rightarrow> nat \<Rightarrow> char \<Rightarrow> bool" where
  "cont_in lo hi c = (let n = (of_char c :: nat) in lo \<le> n \<and> n \<le> hi)"

fun valid_utf8 :: "string \<Rightarrow> bool" where
  "valid_utf8 [] = True"
| "valid_utf8 (a # s) = (let x = (of_char a :: nat) in
     if x < 0x80 then valid_utf8 s
     else if 0xC2 \<le> x \<and> x \<le> 0xDF then (case s of b # t \<Rightarrow> is_cont b \<and> valid_utf8 t | _ \<Rightarrow> False)
     else if 0xE0 \<le> x \<and> x \<le> 0xEF then (case s of b # c # t \<Rightarrow>
       cont_in (if x = 0xE0 then 0xA0 else 0x80) (if x = 0xED then 0x9F else 0xBF) b
         \<and> is_cont c \<and> valid_utf8 t | _ \<Rightarrow> False)
     else if 0xF0 \<le> x \<and> x \<le> 0xF4 then (case s of b # c # d # t \<Rightarrow>
       cont_in (if x = 0xF0 then 0x90 else 0x80) (if x = 0xF4 then 0x8F else 0xBF) b
         \<and> is_cont c \<and> is_cont d \<and> valid_utf8 t | _ \<Rightarrow> False)
     else False)"

text \<open>\<^verbatim>\<open>char::to_string\<close>: the UTF-8 bytes of a scalar value.\<close>

definition utf8_encode :: "nat \<Rightarrow> string" where
  "utf8_encode n = (if n < 0x80 then [char_of n]
     else if n < 0x800 then [char_of (0xC0 + n div 64), char_of (0x80 + n mod 64)]
     else if n < 0x10000 then [char_of (0xE0 + n div 4096), char_of (0x80 + n div 64 mod 64),
       char_of (0x80 + n mod 64)]
     else [char_of (0xF0 + n div 262144), char_of (0x80 + n div 4096 mod 64),
       char_of (0x80 + n div 64 mod 64), char_of (0x80 + n mod 64)])"

text \<open>The punctuation outside ASCII that the bridge's notices use.\<close>

definition em_dash :: string where
  "em_dash = utf8_encode 0x2014"

definition ellipsis :: string where
  "ellipsis = utf8_encode 0x2026"

definition nl :: string where
  "nl = [CHR 0x0A]"

end
