(* ===== verification/Api.thy ===== *)
theory Api
  imports Rust_Str "HOL-Library.Word"
begin

text \<open>
  The data that crosses the bridge's two borders: the Matrix client-server and appservice
  requests it makes (\<^verbatim>\<open>src/src/matrix.rs\<close>, \<^verbatim>\<open>src/src/puppet.rs\<close>), the events the homeserver
  delivers, and the JMAP method calls it makes through \<^verbatim>\<open>jmap-client\<close>. The crates behind them
  (ruma, matrix-sdk, jmap-client, reqwest) are not under \<^verbatim>\<open>src/\<close>: a request is a value here,
  and its answer is an argument of the model.
\<close>

section \<open>JSON values\<close>

text \<open>\<^verbatim>\<open>serde_json::Value\<close>; an object lists its members in the order \<^verbatim>\<open>serde_json\<close> iterates.\<close>

datatype json = JNull | JBool bool | JNum string | JStr string | JArr "json list"
  | JObj "(string \<times> json) list"

text \<open>Indexing (\<^verbatim>\<open>v["key"]\<close>) gives \<open>JNull\<close> for a missing member or a value that is no object.\<close>

definition jat :: "json \<Rightarrow> string \<Rightarrow> json" where
  "jat v k = (case v of JObj kvs \<Rightarrow> (case map_of kvs k of Some x \<Rightarrow> x | None \<Rightarrow> JNull) | _ \<Rightarrow> JNull)"

definition as_str :: "json \<Rightarrow> string option" where
  "as_str v = (case v of JStr s \<Rightarrow> Some s | _ \<Rightarrow> None)"

definition as_bool :: "json \<Rightarrow> bool option" where
  "as_bool v = (case v of JBool b \<Rightarrow> Some b | _ \<Rightarrow> None)"

definition as_array :: "json \<Rightarrow> json list option" where
  "as_array v = (case v of JArr xs \<Rightarrow> Some xs | _ \<Rightarrow> None)"

definition as_object :: "json \<Rightarrow> (string \<times> json) list option" where
  "as_object v = (case v of JObj kvs \<Rightarrow> Some kvs | _ \<Rightarrow> None)"

section \<open>Matrix: what the bridge sends\<close>

text \<open>The content of an outgoing message-like event.\<close>

datatype out_content =
    OText string "string option" "(event_id \<times> event_id) option"
  | OFile string string string "(event_id \<times> event_id) option"
  | OReaction event_id string
  | OEdit event_id string string

text \<open>The body of a room state event the bot writes; it fixes the event type.\<close>

datatype state_body =
    SName string | STopic string | SAvatar string
  | SSpaceChild string | SSpaceParent string

record room_spec =
  rs_name :: string
  rs_topic :: string
  rs_invite :: "mxid list"
  rs_direct :: bool
  rs_space :: bool
  rs_no_guests :: bool

text \<open>
  The requests \<^verbatim>\<open>send_as_ghost\<close> makes on behalf of a bridge user: one constructor per ruma
  request type.
\<close>

datatype ghost_req =
    GCreateRoom room_spec
  | GSend room_id string out_content
  | GJoin room_id
  | GLeave room_id
  | GInvite room_id mxid
  | GRedact room_id event_id string string
  | GDisplayName mxid string
  | GAvatar mxid string
  | GUpload string string

datatype mx_req =
    AsGhost ghost_req mxid "nat option"
  | PutState room_id string state_body
  | GetRoomName room_id
  | RegisterUser string
  | UploadStream mxid string string
  | DownloadMedia string
  | ReadReceipt room_id event_id string
  | MarkedUnread mxid room_id bool string
  | LoginPassword string string
  | WhoAmI string
  | PuppetSync string "string option"
  | PuppetJoin room_id string

text \<open>
  What comes back over HTTP: no response at all (the request could not be built or sent), or a
  status, the headers and the body.
\<close>

datatype http_out = HttpErr string | HttpResp nat "(string \<times> string) list" string

definition is_success :: "nat \<Rightarrow> bool" where
  "is_success st \<longleftrightarrow> 200 \<le> st \<and> st < 300"

section \<open>Matrix: what the homeserver delivers\<close>

text \<open>A media source is a plain \<^verbatim>\<open>mxc://\<close> URI, or an encrypted file the bridge does not read.\<close>

datatype media_source = PlainMedia string | EncryptedMedia

record media =
  md_body :: string
  md_source :: media_source
  md_size :: "nat option"
  md_mime :: "string option"

datatype msgtype = MText string | MImage media | MFile media | MAudio media | MVideo media
  | MOther string

datatype relation = RelReply event_id | RelThread event_id | RelReplace event_id string | RelOther

record message_content =
  mc_type :: msgtype
  mc_relates :: "relation option"

fun msg_body :: "msgtype \<Rightarrow> string" where
  "msg_body (MText b) = b"
| "msg_body (MImage m) = md_body m"
| "msg_body (MFile m) = md_body m"
| "msg_body (MAudio m) = md_body m"
| "msg_body (MVideo m) = md_body m"
| "msg_body (MOther b) = b"

datatype membership = MsInvite | MsJoin | MsOther

text \<open>
  A timeline event by the cases the bridge tells apart. \<open>None\<close> in the message-like ones is an
  event that is already redacted (\<^verbatim>\<open>as_original()\<close> gives nothing).
\<close>

datatype event_kind =
    EMember mxid membership
  | EOtherState
  | EReaction "(event_id \<times> string) option"
  | ERedaction "(event_id option \<times> event_id option) option"
  | EMessage "message_content option"
  | EOtherMessage

record timeline_event =
  te_sender :: mxid
  te_id :: event_id
  te_room :: room_id
  te_kind :: event_kind

text \<open>
  An ephemeral event: a receipt maps events to the users with an \<^verbatim>\<open>m.read\<close> receipt on them
  (\<open>None\<close> when the event has receipts of other types only).
\<close>

datatype ephemeral = EpReceipt "(event_id \<times> mxid list option) list" | EpOther

text \<open>\<^verbatim>\<open>Raw<...>\<close> events deserialise one by one; \<open>None\<close> is one that does not.\<close>

record matrix_txn =
  tx_events :: "timeline_event option list"
  tx_ephemeral :: "ephemeral option list"

section \<open>JMAP\<close>

text \<open>A connected client: the credentials it was built with and what its session advertises.\<close>

record jclient =
  jc_cred_user :: string
  jc_cred_token :: string
  jc_url :: string
  jc_username :: string
  jc_account :: string
  jc_download_url :: string
  jc_max_upload :: "nat option"

text \<open>\<^verbatim>\<open>max_size_upload\<close> of the session, \<open>None\<close> when the core capability is absent.\<close>

record email_addr =
  ea_name :: "string option"
  ea_email :: string

record body_part =
  bp_part_id :: "string option"
  bp_blob_id :: "string option"
  bp_name :: "string option"
  bp_type :: "string option"
  bp_size :: nat

record body_value =
  bv_value :: string
  bv_truncated :: bool

record email =
  em_id :: "email_id option"
  em_thread :: "thread_id option"
  em_subject :: "string option"
  em_from :: "email_addr list option"
  em_to :: "email_addr list option"
  em_cc :: "email_addr list option"
  em_received :: "int option"
  em_sent :: "int option"
  em_message_id :: "string list option"
  em_keywords :: "string list"
  em_text_body :: "body_part list option"
  em_html_body :: "body_part list option"
  em_values :: "(string \<times> body_value) list"
  em_attachments :: "body_part list option"

record identity =
  id_id :: "string option"
  id_name :: "string option"
  id_email :: "string option"

record mailbox =
  mb_id :: "string option"
  mb_name :: "string option"

datatype mailbox_role = RoleSent | RoleDrafts | RoleTrash | RoleJunk

record attachment_info =
  at_blob :: string
  at_name :: string
  at_mime :: string

text \<open>The Email/set + EmailSubmission/set batch that \<^verbatim>\<open>submit\<close> builds.\<close>

record draft =
  dr_mailbox :: string
  dr_subject :: string
  dr_from :: "string option \<times> addr"
  dr_to :: addr
  dr_in_reply_to :: "string option"
  dr_references :: "string list"
  dr_body :: string
  dr_attachments :: "attachment_info list"
  dr_identity :: "string option"
  dr_envelope :: "addr \<times> addr list"

text \<open>Which properties of an email a request asks for, by the call that asks.\<close>

datatype email_get = GetFull | GetMessageIds | GetQuote | GetThreadOf | GetForReply | GetBodies

datatype jmap_req =
    QMailboxRole mailbox_role
  | QMailboxes
  | GMailboxes "string list"
  | MailboxState
  | MailboxChanges string
  | GThread thread_id
  | GEmails email_get "email_id list"
  | EmailState
  | QEmails "int option" "nat option" nat
  | EmailChanges string
  | GIdentity
  | SetSeen email_id bool
  | MoveEmails "email_id list" string
  | Submit draft
  | UploadBlob string

text \<open>
  The outcome of one method call: the HTTP request failed, the response held no method
  response, the method response was an error or of another type (flagged when it is
  \<^verbatim>\<open>cannotCalculateChanges\<close>), or the value.
\<close>

datatype 'a jres = JSendErr string | JNoResponse | JMethodErr bool string | JGot 'a

record changes =
  ch_created :: "string list"
  ch_updated :: "string list"
  ch_destroyed :: "string list"
  ch_new_state :: string
  ch_more :: bool

text \<open>
  The two halves of the submission batch: whether the draft was created (with the id the server
  reports), and whether the submission was.
\<close>

datatype 'a created = CUnwrapErr string | CRejected string | CCreated 'a

type_synonym submit_out = "(string option) created \<times> unit created"

section \<open>Addresses and URLs\<close>

text \<open>An address by its octets, or by its eight 16-bit segments; a parsed \<^verbatim>\<open>url::Url\<close>.\<close>

datatype ip = V4 "8 word" "8 word" "8 word" "8 word" | V6 "16 word list"

record url =
  u_text :: string
  u_scheme :: string
  u_host :: "string option"

end
