(* ===== verification/Tables.thy ===== *)
theory Tables
  imports Api
begin

text \<open>
  The database of the bridge: one record field per table of \<^verbatim>\<open>src/migrations\<close>, each the list
  of its rows in rowid order, and the row types of \<^verbatim>\<open>src/src/store/mod.rs\<close>. Columns the
  program never reads (the \<^verbatim>\<open>created_at\<close> ones) are left out. Times are Unix seconds:
  SQLite's \<^verbatim>\<open>datetime('now')\<close> has that resolution, and its text orders like the number.
\<close>

section \<open>Rows\<close>

record registered_user =
  ru_mxid :: mxid
  ru_name :: string
  ru_token :: string
  ru_url :: string

record outbound_message =
  om_id :: nat
  om_user :: mxid
  om_room :: room_id
  om_event :: event_id
  om_body :: string
  om_html :: "string option"
  om_thread :: "string option"
  om_atts :: "string option"
  om_retry :: nat

text \<open>A queue row is a message with the two times that decide when it is due.\<close>

record outbound_row = outbound_message +
  release_at :: int
  last_retry_at :: int

record state_row =
  sr_user :: mxid
  sr_key :: string
  sr_val :: string

record thread_row =
  tr_thread :: thread_id
  tr_root :: event_id
  tr_room :: room_id
  tr_latest :: "event_id option"

record ghost_row =
  gr_room :: room_id
  gr_email :: addr
  gr_last :: "email_id option"
  gr_user :: mxid

section \<open>The tables\<close>

record db =
  t_users :: "registered_user list"
  t_state :: "state_row list"
  t_sigs :: "(mxid \<times> string) list"
  t_mailboxes :: "(string \<times> room_id) list"
  t_threads :: "thread_row list"
  t_messages :: "(email_id \<times> event_id) list"
  t_ghosts :: "ghost_row list"
  t_subjects :: "(event_id \<times> string) list"
  t_txns :: "(string \<times> int) list"
  t_outbound :: "outbound_row list"
  t_next_id :: nat
  t_locks :: "string list"
  t_destroyed :: "(email_id \<times> int) list"
  t_bridge :: "(string \<times> string) list"

definition empty_db :: db where
  "empty_db = \<lparr>t_users = [], t_state = [], t_sigs = [], t_mailboxes = [], t_threads = [],
     t_messages = [], t_ghosts = [], t_subjects = [], t_txns = [], t_outbound = [],
     t_next_id = 1, t_locks = [], t_destroyed = [], t_bridge = []\<rparr>"

text \<open>The row a foreign key needs.\<close>

definition user_exists :: "db \<Rightarrow> mxid \<Rightarrow> bool" where
  "user_exists d u = has_row (\<lambda>r. ru_mxid r = u) (t_users d)"

definition sr_pk :: "state_row \<Rightarrow> mxid \<times> string" where
  "sr_pk r = (sr_user r, sr_key r)"

section \<open>The schema's constraints\<close>

text \<open>
  Primary keys, the AUTOINCREMENT counter, and the four foreign keys to \<^verbatim>\<open>users\<close>. The
  last conjunct is the retry cap: the program never stores a count above 9.
\<close>

definition keys_ok :: "db \<Rightarrow> bool" where
  "keys_ok d \<longleftrightarrow> unique_key ru_mxid (t_users d) \<and> unique_key sr_pk (t_state d)
     \<and> unique_key fst (t_sigs d) \<and> unique_key fst (t_mailboxes d)
     \<and> unique_key tr_thread (t_threads d) \<and> unique_key fst (t_messages d)
     \<and> unique_key gr_room (t_ghosts d) \<and> unique_key fst (t_subjects d)
     \<and> unique_key fst (t_txns d) \<and> unique_key om_id (t_outbound d)
     \<and> distinct (t_locks d) \<and> unique_key fst (t_destroyed d) \<and> unique_key fst (t_bridge d)"

definition fks_ok :: "db \<Rightarrow> bool" where
  "fks_ok d \<longleftrightarrow> (\<forall>r \<in> set (t_state d). user_exists d (sr_user r))
     \<and> (\<forall>r \<in> set (t_sigs d). user_exists d (fst r))
     \<and> (\<forall>r \<in> set (t_ghosts d). user_exists d (gr_user r))
     \<and> (\<forall>r \<in> set (t_outbound d). user_exists d (om_user r))"

definition ids_ok :: "db \<Rightarrow> bool" where
  "ids_ok d \<longleftrightarrow> (\<forall>r \<in> set (t_outbound d). om_id r < t_next_id d)"

definition db_ok :: "db \<Rightarrow> bool" where
  "db_ok d \<longleftrightarrow> keys_ok d \<and> fks_ok d \<and> ids_ok d"

lemma empty_db_ok [simp]: "db_ok empty_db"
  by (simp add: db_ok_def keys_ok_def fks_ok_def ids_ok_def empty_db_def)

end
