(* ===== verification/Permissions.thy ===== *)
theory Permissions
  imports Rust_Str "HOL-Library.AList"
begin

text \<open>
  Who may use the bridge (\<^verbatim>\<open>src/src/permissions.rs\<close>): the default-deny map from Matrix ids,
  domains or \<^verbatim>\<open>*\<close> to a level, the parser of its specs, and the lookup that takes the most
  specific entry.
\<close>

section \<open>Levels\<close>

datatype level = User | Admin

instantiation level :: linorder
begin

definition less_eq_level :: "level \<Rightarrow> level \<Rightarrow> bool" where
  "less_eq_level a b = (a = User \<or> b = Admin)"

definition less_level :: "level \<Rightarrow> level \<Rightarrow> bool" where
  "less_level a b = (a = User \<and> b = Admin)"

instance
proof
  fix x y z :: level
  show "(x < y) = (x \<le> y \<and> \<not> y \<le> x)"
    by (cases x; cases y) (auto simp: less_eq_level_def less_level_def)
  show "x \<le> x"
    by (cases x) (auto simp: less_eq_level_def)
  show "x \<le> y \<Longrightarrow> y \<le> z \<Longrightarrow> x \<le> z"
    by (cases x; cases y; cases z) (auto simp: less_eq_level_def)
  show "x \<le> y \<Longrightarrow> y \<le> x \<Longrightarrow> x = y"
    by (cases x; cases y) (auto simp: less_eq_level_def)
  show "x \<le> y \<or> y \<le> x"
    by (cases x; cases y) (auto simp: less_eq_level_def)
qed

end

lemma level_le_simps [simp]:
  "User \<le> l" "l \<le> Admin" "\<not> Admin \<le> User" "User < Admin"
  by (cases l; simp add: less_eq_level_def less_level_def)+

section \<open>Parsing the specs\<close>

datatype permission_error = MalformedSpec string | UnknownLevel string | EmptyKey string

definition parse_level :: "string \<Rightarrow> permission_error + level" where
  "parse_level s = (let t = to_ascii_lowercase (trim s) in
     if t = ''user'' then Inr User
     else if t = ''admin'' then Inr Admin
     else Inl (UnknownLevel t))"

text \<open>The \<^verbatim>\<open>HashMap\<close> is an association list; inserting replaces the entry of the key.\<close>

type_synonym permissions = "(string \<times> level) list"

text \<open>One spec: split at the first \<^verbatim>\<open>=\<close>, trim and check the key, then parse the level.\<close>

definition parse_spec :: "string \<Rightarrow> permission_error + (string \<times> level)" where
  "parse_spec spec = (case split_once spec (CHR ''='') of
     None \<Rightarrow> Inl (MalformedSpec spec)
   | Some (key, level) \<Rightarrow> (let k = trim key in
       if k = [] then Inl (EmptyKey spec)
       else (case parse_level level of Inl e \<Rightarrow> Inl e | Inr l \<Rightarrow> Inr (k, l))))"

fun add_specs :: "permissions \<Rightarrow> string list \<Rightarrow> permission_error + permissions" where
  "add_specs m [] = Inr m"
| "add_specs m (spec # specs) = (case parse_spec spec of
     Inl e \<Rightarrow> Inl e
   | Inr (k, l) \<Rightarrow> add_specs (AList.update k l m) specs)"

definition from_specs :: "string list \<Rightarrow> string \<Rightarrow> permission_error + permissions" where
  "from_specs specs bridge_domain = (case add_specs [] specs of
     Inl e \<Rightarrow> Inl e
   | Inr m \<Rightarrow> Inr (if m = [] then AList.update bridge_domain User m else m))"

definition allow_all :: permissions where
  "allow_all = [(''*'', Admin)]"

section \<open>Lookup\<close>

definition mxid_domain :: "mxid \<Rightarrow> string option" where
  "mxid_domain u = map_option snd (split_once u (CHR '':''))"

definition level_for :: "permissions \<Rightarrow> mxid \<Rightarrow> level option" where
  "level_for p u = (case map_of p u of
     Some l \<Rightarrow> Some l
   | None \<Rightarrow> (case (case split_once u (CHR '':'') of None \<Rightarrow> None | Some (_, d) \<Rightarrow> map_of p d) of
       Some l \<Rightarrow> Some l
     | None \<Rightarrow> map_of p ''*''))"

definition permits :: "permissions \<Rightarrow> mxid \<Rightarrow> level \<Rightarrow> bool" where
  "permits p u required = (case level_for p u of None \<Rightarrow> False | Some have \<Rightarrow> required \<le> have)"

section \<open>What the map promises\<close>

lemma parse_spec_key: "parse_spec s = Inr (k, l) \<Longrightarrow> k \<noteq> []"
  by (auto simp: parse_spec_def Let_def split: option.splits sum.splits if_splits prod.splits)

lemma add_specs_dom:
  "add_specs m specs = Inr m' \<Longrightarrow>
   fst ` set m' = fst ` set m \<union> {k. \<exists>s \<in> set specs. \<exists>l. parse_spec s = Inr (k, l)}"
proof (induction m specs rule: add_specs.induct)
  case (2 m spec specs)
  then obtain k l where p: "parse_spec spec = Inr (k, l)"
    by (auto split: sum.splits prod.splits)
  with 2 have "fst ` set m' = fst ` set (AList.update k l m)
    \<union> {k. \<exists>s \<in> set specs. \<exists>l. parse_spec s = Inr (k, l)}"
    by simp
  with p show ?case by (auto simp: dom_update)
qed auto

lemma add_specs_value:
  "add_specs m specs = Inr m' \<Longrightarrow> map_of m' k = Some l \<Longrightarrow>
   map_of m k = Some l \<or> (\<exists>s \<in> set specs. parse_spec s = Inr (k, l))"
proof (induction m specs rule: add_specs.induct)
  case (2 m spec specs)
  then obtain k' l' where p: "parse_spec spec = Inr (k', l')"
    by (auto split: sum.splits prod.splits)
  with 2 have "map_of (AList.update k' l' m) k = Some l \<or> (\<exists>s \<in> set specs. parse_spec s = Inr (k, l))"
    by simp
  with p show ?case by (auto simp: update_conv split: if_splits)
qed auto

lemma add_specs_Nil: "add_specs m specs = Inr [] \<Longrightarrow> specs = [] \<and> m = []"
  using add_specs_dom [of m specs "[]"] by (cases specs) (auto split: sum.splits prod.splits)

lemma level_for_default:
  "level_for [(d, User)] u = (if u = d \<or> mxid_domain u = Some d \<or> d = ''*'' then Some User else None)"
  by (auto simp: level_for_def mxid_domain_def split: option.splits)

lemma level_for_mono: "permits p u Admin \<Longrightarrow> permits p u l"
  by (cases l) (auto simp: permits_def split: option.splits)

end
