(* ===== verification/Effects.thy ===== *)
theory Effects
  imports Tables Permissions
begin

text \<open>
  How the bridge's code runs: its outcomes (\<^verbatim>\<open>Ok\<close>, \<^verbatim>\<open>Err\<close>, a panic, a wait that does not
  end), the world it acts on (the database, the shared in-memory maps of
  \<^verbatim>\<open>ClientManager\<close>, \<^verbatim>\<open>StateStore\<close> and \<^verbatim>\<open>PuppetManager\<close>, the clock, the requests sent so
  far), the environment that answers it, and the combinators that stand for \<^verbatim>\<open>?\<close>,
  \<^verbatim>\<open>match\<close> on a result, \<^verbatim>\<open>let _ =\<close> and \<^verbatim>\<open>for\<close>. An action is a function of the
  environment and the world: everything it does is in the pair it returns.
\<close>

section \<open>Errors and outcomes\<close>

text \<open>
  An \<^verbatim>\<open>anyhow::Error\<close> by what the code asks of it: its text, and whether
  \<^verbatim>\<open>downcast_ref::<sqlx::Error>()\<close> finds a database error inside.
\<close>

datatype err = Sqlx string | Other string

fun err_text :: "err \<Rightarrow> string" where
  "err_text (Sqlx m) = m"
| "err_text (Other m) = m"

fun is_sqlx :: "err \<Rightarrow> bool" where
  "is_sqlx (Sqlx _) = True"
| "is_sqlx (Other _) = False"

text \<open>\<^verbatim>\<open>context(msg)\<close> replaces the text shown and keeps the inner error for downcasts.\<close>

fun with_context :: "string \<Rightarrow> err \<Rightarrow> err" where
  "with_context m (Sqlx _) = Sqlx m"
| "with_context m (Other _) = Other m"

lemma is_sqlx_with_context [simp]: "is_sqlx (with_context m e) = is_sqlx e"
  by (cases e) auto

datatype 'a outcome = Ok 'a | Err err | Panic string | Hang

section \<open>The world\<close>

datatype login_state =
    LsNone
  | WaitingForEmail
  | WaitingForPassword string
  | WaitingForUrl string string

text \<open>The background tasks the handlers start with \<^verbatim>\<open>tokio::spawn\<close>.\<close>

datatype task =
    TLoadImages mxid room_id event_id
  | TThreadAction mxid room_id mailbox_role string
  | TPuppet mxid string
  | TEventLoop mxid jclient
  | TReconnect registered_user

text \<open>What leaves the bridge, in the order it is sent.\<close>

datatype ev =
    EvMx mx_req
  | EvJmap jclient jmap_req
  | EvConnect string string string
  | EvBlobGet string string string
  | EvLookup string
  | EvFetch string

record world =
  w_db :: db
  w_step :: nat
  w_clock :: int
  w_trace :: "ev list"
  w_clients :: "(mxid \<times> jclient) list"
  w_pollers :: "mxid list"
  w_logins :: "(mxid \<times> login_state \<times> int) list"
  w_puppets :: "mxid list"
  w_tasks :: "task list"

text \<open>\<open>w_trace\<close> has the newest event first.\<close>

section \<open>The environment\<close>

text \<open>
  The answers of everything that is not under \<^verbatim>\<open>src/\<close>. The network's answers are functions
  of all that has been sent so far, so they may vary from call to call; database faults, the
  passing of time, the order in which a query visits the rows of the queue (a rank for each row id),
  nonces and UUIDs are functions of a step counter.
\<close>

record answers =
  e_fault :: "nat \<Rightarrow> string option"
  e_tick :: "nat \<Rightarrow> nat"
  e_scan :: "nat \<Rightarrow> nat \<Rightarrow> nat"
  e_uuid :: "nat \<Rightarrow> string"
  e_nonce :: "nat \<Rightarrow> string"
  e_mx :: "ev list \<Rightarrow> mx_req \<Rightarrow> http_out"
  e_connect :: "ev list \<Rightarrow> string + jclient"
  e_blob :: "ev list \<Rightarrow> http_out"
  e_fetch :: "ev list \<Rightarrow> http_out"
  e_dns :: "ev list \<Rightarrow> ip list option"
  e_upload :: "ev list \<Rightarrow> string + string"

text \<open>The JMAP server's answers, one field per kind of method result.\<close>

record jmap_answers =
  e_ids :: "ev list \<Rightarrow> string list jres"
  e_mailboxes :: "ev list \<Rightarrow> mailbox list jres"
  e_state :: "ev list \<Rightarrow> string jres"
  e_changes :: "ev list \<Rightarrow> changes jres"
  e_threads :: "ev list \<Rightarrow> string list list jres"
  e_emails :: "ev list \<Rightarrow> email list jres"
  e_query :: "ev list \<Rightarrow> (string \<times> string list) jres"
  e_identities :: "ev list \<Rightarrow> identity list jres"
  e_set :: "ev list \<Rightarrow> string option"
  e_submit :: "ev list \<Rightarrow> string + submit_out"

text \<open>
  What the bridge tells the HTML sanitizer (\<^verbatim>\<open>ammonia::Builder\<close>) to do: the elements it keeps, the
  ones it drops with their content, the attributes and URL schemes it keeps, and a filter that
  sees the element, the attribute and its value.
\<close>

record sanitizer =
  sz_tags :: "string list"
  sz_clean_content_tags :: "string list"
  sz_tag_attributes :: "(string \<times> string list) list"
  sz_generic_attributes :: "string list"
  sz_generic_prefixes :: "string list"
  sz_url_schemes :: "string list"
  sz_relative_denied :: bool
  sz_link_rel :: "string option"
  sz_attribute_filter :: "string \<Rightarrow> string \<Rightarrow> string \<Rightarrow> string option"

text \<open>The functions of third-party crates the code calls.\<close>

record crates =
  l_user_ok :: "string \<Rightarrow> bool"
  l_room_ok :: "string \<Rightarrow> bool"
  l_event_ok :: "string \<Rightarrow> bool"
  l_localpart :: "string \<Rightarrow> string"
  l_resp :: "ghost_req \<Rightarrow> string \<Rightarrow> string + string"
  l_status :: "nat \<Rightarrow> string"
  l_json :: "string \<Rightarrow> json option"
  l_show_json :: "json \<Rightarrow> string"
  l_mxc_ok :: "string \<Rightarrow> bool"
  l_atts_json :: "attachment_info list \<Rightarrow> string"
  l_atts_parse :: "string \<Rightarrow> attachment_info list option"
  l_strip_fallback :: "string \<Rightarrow> string"
  l_lower :: "string \<Rightarrow> string"
  l_strftime :: "string \<Rightarrow> int \<Rightarrow> string option"
  l_now_text :: "int \<Rightarrow> string"
  l_sub_window :: "int \<Rightarrow> string \<Rightarrow> int option"
  l_html2text :: "string \<Rightarrow> string option"
  l_sanitize :: "sanitizer \<Rightarrow> string \<Rightarrow> string"
  l_percent :: "(char \<Rightarrow> bool) \<Rightarrow> string \<Rightarrow> string"
  l_extend_path :: "string \<Rightarrow> string list \<Rightarrow> string + string"
  l_url :: "string \<Rightarrow> url option"
  l_join :: "url \<Rightarrow> string \<Rightarrow> url option"

record ciphers =
  l_seal :: "string \<Rightarrow> string \<Rightarrow> string \<Rightarrow> string option"
  l_open :: "string \<Rightarrow> string \<Rightarrow> string \<Rightarrow> string option"
  l_b64 :: "string \<Rightarrow> string"
  l_unb64 :: "string \<Rightarrow> string option"
  l_hmac :: "string \<Rightarrow> string \<Rightarrow> string"

text \<open>What the program reads but never writes.\<close>

datatype render_mode = RenderPlain | RenderLinks | RenderRich

record config =
  c_domain :: string
  c_homeserver :: string
  c_key :: "string option"
  c_hs_token :: string
  c_secret :: "string option"
  c_perms :: permissions
  c_sync_limit :: nat
  c_bridge_mailboxes :: bool
  c_render_mode :: render_mode
  c_quote_replies :: bool
  c_send_delay :: int
  c_window :: "string option"

text \<open>
  The last field is the fuel of the loops that wait for another task: a wait that outlasts it is
  \<open>Hang\<close>.
\<close>

record env =
  e_net :: answers
  e_jmap :: jmap_answers
  e_lib :: crates
  e_crypt :: ciphers
  e_cfg :: config
  e_fuel :: nat

end
