(* ===== verification/Statements.thy ===== *)
theory Statements
  imports Tables
begin

text \<open>
  The SQL statements of \<^verbatim>\<open>src/src/store/\<close> that write: one constructor per statement and its
  effect on the tables. A statement gives the number of rows it affected and the new database,
  or the text of the constraint it violates, in which case SQLite leaves the database as it
  was. The result is \<open>Inl\<close> for a violation.
\<close>

datatype stmt =
    UpsertUser registered_user
  | BlankToken mxid
  | PutKv mxid string string
  | DelKv mxid string
  | PutSig mxid string
  | DelSig mxid
  | PutMailbox string room_id
  | PutSubject event_id string
  | PutThreadAndSubject thread_id event_id room_id string
  | SetLatest thread_id event_id
  | DelThreadsOfRoom room_id
  | PutGhost room_id addr mxid
  | DelGhost room_id
  | SetLastEmail room_id email_id
  | PutMessage email_id event_id
  | MarkDestroyed email_id
  | PruneDestroyed
  | ClaimTxn string
  | UnclaimTxn string
  | PruneTxns
  | Enqueue mxid room_id event_id string "string option" "string option" "string option" int
  | CancelByEvent event_id
  | EditByEvent event_id string
  | AgeRow nat
  | Dequeue nat
  | ClearQueue mxid
  | TakeLock string
  | DropLock string
  | DropAllLocks
  | PutBridge string string

definition fk_failed :: string where
  "fk_failed = ''FOREIGN KEY constraint failed''"

definition unique_failed :: string where
  "unique_failed = ''UNIQUE constraint failed''"

definition not_null_failed :: string where
  "not_null_failed = ''NOT NULL constraint failed''"

text \<open>
  \<^verbatim>\<open>datetime('now', '+' || delay || ' seconds')\<close>: a negative delay makes the modifier
  malformed and a date past the year 9999 has no text form; both give NULL.
\<close>

definition max_datetime :: int where
  "max_datetime = 253402300799"

definition delay_date :: "int \<Rightarrow> int \<Rightarrow> int option" where
  "delay_date now delay = (if delay < 0 \<or> now + delay > max_datetime then None else Some (now + delay))"

definition user_row_update :: "registered_user \<Rightarrow> registered_user \<Rightarrow> registered_user" where
  "user_row_update u r = r\<lparr>ru_name := ru_name u, ru_token := ru_token u, ru_url := ru_url u\<rparr>"

fun exec :: "int \<Rightarrow> stmt \<Rightarrow> db \<Rightarrow> string + (nat \<times> db)" where
  "exec now (UpsertUser u) d = Inr (1,
     if user_exists d (ru_mxid u)
     then d\<lparr>t_users := upd_rows (\<lambda>r. ru_mxid r = ru_mxid u) (user_row_update u) (t_users d)\<rparr>
     else d\<lparr>t_users := t_users d @ [u]\<rparr>)"
| "exec now (BlankToken m) d = Inr (length (filter (\<lambda>r. ru_mxid r = m) (t_users d)),
     d\<lparr>t_users := upd_rows (\<lambda>r. ru_mxid r = m) (ru_token_update (\<lambda>_. [])) (t_users d)\<rparr>)"
| "exec now (PutKv m k v) d = (if user_exists d m
     then Inr (1, d\<lparr>t_state := put_row sr_pk \<lparr>sr_user = m, sr_key = k, sr_val = v\<rparr> (t_state d)\<rparr>)
     else Inl fk_failed)"
| "exec now (DelKv m k) d = Inr (length (filter (\<lambda>r. sr_pk r = (m, k)) (t_state d)),
     d\<lparr>t_state := drop_rows (\<lambda>r. sr_pk r = (m, k)) (t_state d)\<rparr>)"
| "exec now (PutSig m s) d = (if user_exists d m
     then Inr (1, d\<lparr>t_sigs := put_row fst (m, s) (t_sigs d)\<rparr>) else Inl fk_failed)"
| "exec now (DelSig m) d = Inr (length (filter (\<lambda>r. fst r = m) (t_sigs d)),
     d\<lparr>t_sigs := drop_rows (\<lambda>r. fst r = m) (t_sigs d)\<rparr>)"
| "exec now (PutMailbox m r) d = Inr (1, d\<lparr>t_mailboxes := put_row fst (m, r) (t_mailboxes d)\<rparr>)"
| "exec now (PutSubject e s) d = Inr (1, d\<lparr>t_subjects := put_row fst (e, s) (t_subjects d)\<rparr>)"
| "exec now (PutThreadAndSubject t e r s) d = Inr (1,
     d\<lparr>t_threads := put_row tr_thread
         \<lparr>tr_thread = t, tr_root = e, tr_room = r, tr_latest = Some e\<rparr> (t_threads d),
       t_subjects := put_row fst (e, s) (t_subjects d)\<rparr>)"
| "exec now (SetLatest t e) d = Inr (length (filter (\<lambda>r. tr_thread r = t) (t_threads d)),
     d\<lparr>t_threads := upd_rows (\<lambda>r. tr_thread r = t) (tr_latest_update (\<lambda>_. Some e)) (t_threads d)\<rparr>)"
| "exec now (DelThreadsOfRoom m) d = Inr (length (filter (\<lambda>r. tr_room r = m) (t_threads d)),
     d\<lparr>t_threads := drop_rows (\<lambda>r. tr_room r = m) (t_threads d)\<rparr>)"
| "exec now (PutGhost r a m) d = (if user_exists d m
     then Inr (1, d\<lparr>t_ghosts := put_row gr_room
         \<lparr>gr_room = r, gr_email = a, gr_last = None, gr_user = m\<rparr> (t_ghosts d)\<rparr>)
     else Inl fk_failed)"
| "exec now (DelGhost m) d = Inr (length (filter (\<lambda>r. gr_room r = m) (t_ghosts d)),
     d\<lparr>t_ghosts := drop_rows (\<lambda>r. gr_room r = m) (t_ghosts d)\<rparr>)"
| "exec now (SetLastEmail m i) d = Inr (length (filter (\<lambda>r. gr_room r = m) (t_ghosts d)),
     d\<lparr>t_ghosts := upd_rows (\<lambda>r. gr_room r = m) (gr_last_update (\<lambda>_. Some i)) (t_ghosts d)\<rparr>)"
| "exec now (PutMessage i e) d = Inr (1, d\<lparr>t_messages := put_row fst (i, e) (t_messages d)\<rparr>)"
| "exec now (MarkDestroyed i) d = (if has_row (\<lambda>r. fst r = i) (t_destroyed d) then Inr (0, d)
     else Inr (1, d\<lparr>t_destroyed := t_destroyed d @ [(i, now)]\<rparr>))"
| "exec now PruneDestroyed d = Inr (length (filter (\<lambda>r. snd r < now - 30 * 86400) (t_destroyed d)),
     d\<lparr>t_destroyed := drop_rows (\<lambda>r. snd r < now - 30 * 86400) (t_destroyed d)\<rparr>)"
| "exec now (ClaimTxn t) d = (if has_row (\<lambda>r. fst r = t) (t_txns d) then Inr (0, d)
     else Inr (1, d\<lparr>t_txns := t_txns d @ [(t, now)]\<rparr>))"
| "exec now (UnclaimTxn t) d = Inr (length (filter (\<lambda>r. fst r = t) (t_txns d)),
     d\<lparr>t_txns := drop_rows (\<lambda>r. fst r = t) (t_txns d)\<rparr>)"
| "exec now PruneTxns d = Inr (length (filter (\<lambda>r. snd r < now - 7 * 86400) (t_txns d)),
     d\<lparr>t_txns := drop_rows (\<lambda>r. snd r < now - 7 * 86400) (t_txns d)\<rparr>)"
| "exec now (Enqueue m r e b h t a delay) d = (case delay_date now delay of
     None \<Rightarrow> Inl not_null_failed
   | Some rel \<Rightarrow> if user_exists d m
       then Inr (1, d\<lparr>t_outbound := t_outbound d @ [\<lparr>om_id = t_next_id d, om_user = m, om_room = r,
           om_event = e, om_body = b, om_html = h, om_thread = t, om_atts = a, om_retry = 0,
           release_at = rel, last_retry_at = now\<rparr>],
         t_next_id := Suc (t_next_id d)\<rparr>)
       else Inl fk_failed)"
| "exec now (CancelByEvent e) d = Inr (length (filter (\<lambda>r. om_event r = e) (t_outbound d)),
     d\<lparr>t_outbound := drop_rows (\<lambda>r. om_event r = e) (t_outbound d)\<rparr>)"
| "exec now (EditByEvent e b) d = Inr (length (filter (\<lambda>r. om_event r = e) (t_outbound d)),
     d\<lparr>t_outbound := upd_rows (\<lambda>r. om_event r = e) (om_body_update (\<lambda>_. b)) (t_outbound d)\<rparr>)"
| "exec now (AgeRow i) d = Inr (length (filter (\<lambda>r. om_id r = i) (t_outbound d)),
     d\<lparr>t_outbound := upd_rows (\<lambda>r. om_id r = i)
         (\<lambda>r. r\<lparr>om_retry := om_retry r + 1, last_retry_at := now\<rparr>) (t_outbound d)\<rparr>)"
| "exec now (Dequeue i) d = Inr (length (filter (\<lambda>r. om_id r = i) (t_outbound d)),
     d\<lparr>t_outbound := drop_rows (\<lambda>r. om_id r = i) (t_outbound d)\<rparr>)"
| "exec now (ClearQueue m) d = Inr (length (filter (\<lambda>r. om_user r = m) (t_outbound d)),
     d\<lparr>t_outbound := drop_rows (\<lambda>r. om_user r = m) (t_outbound d)\<rparr>)"
| "exec now (TakeLock k) d = (if k \<in> set (t_locks d) then Inl unique_failed
     else Inr (1, d\<lparr>t_locks := t_locks d @ [k]\<rparr>))"
| "exec now (DropLock k) d = Inr (length (filter (\<lambda>x. x = k) (t_locks d)),
     d\<lparr>t_locks := drop_rows (\<lambda>x. x = k) (t_locks d)\<rparr>)"
| "exec now DropAllLocks d = Inr (length (t_locks d), d\<lparr>t_locks := []\<rparr>)"
| "exec now (PutBridge k v) d = Inr (1, d\<lparr>t_bridge := put_row fst (k, v) (t_bridge d)\<rparr>)"

section \<open>The constraints hold after every statement\<close>

lemma user_exists_upsert:
  "user_exists (d\<lparr>t_users := upd_rows p f (t_users d)\<rparr>) m \<longleftrightarrow> user_exists d m"
  if "\<And>r. ru_mxid (f r) = ru_mxid r"
  using that by (auto simp: user_exists_def set_upd_rows)

lemma user_exists_append [simp]:
  "user_exists (d\<lparr>t_users := t_users d @ [u]\<rparr>) m \<longleftrightarrow> user_exists d m \<or> m = ru_mxid u"
  by (auto simp: user_exists_def)

lemma user_exists_frame [simp]:
  "user_exists (d\<lparr>t_state := x1\<rparr>) m = user_exists d m"
  "user_exists (d\<lparr>t_sigs := x2\<rparr>) m = user_exists d m"
  "user_exists (d\<lparr>t_mailboxes := x3\<rparr>) m = user_exists d m"
  "user_exists (d\<lparr>t_threads := x4\<rparr>) m = user_exists d m"
  "user_exists (d\<lparr>t_messages := x5\<rparr>) m = user_exists d m"
  "user_exists (d\<lparr>t_ghosts := x6\<rparr>) m = user_exists d m"
  "user_exists (d\<lparr>t_subjects := x7\<rparr>) m = user_exists d m"
  "user_exists (d\<lparr>t_txns := x8\<rparr>) m = user_exists d m"
  "user_exists (d\<lparr>t_outbound := x9\<rparr>) m = user_exists d m"
  "user_exists (d\<lparr>t_next_id := x10\<rparr>) m = user_exists d m"
  "user_exists (d\<lparr>t_locks := x11\<rparr>) m = user_exists d m"
  "user_exists (d\<lparr>t_destroyed := x12\<rparr>) m = user_exists d m"
  "user_exists (d\<lparr>t_bridge := x13\<rparr>) m = user_exists d m"
  by (simp_all add: user_exists_def)

lemma user_row_update_mxid [simp]: "ru_mxid (user_row_update u r) = ru_mxid r"
  by (simp add: user_row_update_def)

lemmas unique_key_rules = unique_key_drop unique_key_put unique_key_upd

lemma distinct_drop_rows: "distinct t \<Longrightarrow> distinct (drop_rows p t)"
  by (simp add: drop_rows_def)

lemma sr_pk_simps [simp]: "sr_pk \<lparr>sr_user = m, sr_key = k, sr_val = v\<rparr> = (m, k)"
  by (simp add: sr_pk_def)

lemma exec_keys: "exec now s d = Inr (n, d') \<Longrightarrow> keys_ok d \<and> ids_ok d \<Longrightarrow> keys_ok d'"
  by (cases s; clarsimp simp: keys_ok_def unique_key_rules distinct_drop_rows unique_key_snoc
      user_exists_def ids_ok_def split: if_splits option.splits; fastforce)

lemma exec_fks: "exec now s d = Inr (n, d') \<Longrightarrow> fks_ok d \<Longrightarrow> fks_ok d'"
  by (cases s; clarsimp simp: fks_ok_def user_exists_upsert set_put_row set_upd_rows
      split: if_splits option.splits; fastforce)

lemma exec_ids: "exec now s d = Inr (n, d') \<Longrightarrow> ids_ok d \<Longrightarrow> ids_ok d'"
  by (cases s; clarsimp simp: ids_ok_def set_upd_rows less_Suc_eq split: if_splits option.splits; auto)

lemma exec_db_ok: "exec now s d = Inr (n, d') \<Longrightarrow> db_ok d \<Longrightarrow> db_ok d'"
  using exec_keys exec_fks exec_ids unfolding db_ok_def by blast

text \<open>No statement removes a user.\<close>

lemma exec_users: "exec now s d = Inr (n, d') \<Longrightarrow> user_exists d m \<Longrightarrow> user_exists d' m"
  by (cases s) (auto simp: user_exists_upsert split: if_splits option.splits)

end
