(* ===== verification/Actions.thy ===== *)
theory Actions
  imports Effects Statements
begin

text \<open>
  Actions and how they compose, the primitive operations they are made of, and the frame logic:
  \<open>world_step\<close> is the relation of one primitive operation, \<open>evolves K\<close> the worlds that
  operations allowed by \<open>K\<close> can reach, and \<open>within R m\<close> says that whatever the environment
  answers, \<open>m\<close> takes a world to one that \<open>R\<close> relates to it. The locale \<open>frame\<close> proves the
  composition rules once for any reflexive and transitive \<open>R\<close>.
\<close>

type_synonym 'a act = "env \<Rightarrow> world \<Rightarrow> 'a outcome \<times> world"

section \<open>Combinators\<close>

definition ret :: "'a \<Rightarrow> 'a act" where
  "ret x E w = (Ok x, w)"

definition fail :: "err \<Rightarrow> 'a act" where
  "fail e E w = (Err e, w)"

definition panic :: "string \<Rightarrow> 'a act" where
  "panic m E w = (Panic m, w)"

definition hang :: "'a act" where
  "hang E w = (Hang, w)"

text \<open>\<^verbatim>\<open>let x = m?; f(x)\<close>\<close>

definition bind :: "'a act \<Rightarrow> ('a \<Rightarrow> 'b act) \<Rightarrow> 'b act" where
  "bind m f E w = (case m E w of
     (Ok a, w') \<Rightarrow> f a E w'
   | (Err e, w') \<Rightarrow> (Err e, w')
   | (Panic p, w') \<Rightarrow> (Panic p, w')
   | (Hang, w') \<Rightarrow> (Hang, w'))"

definition andthen :: "unit act \<Rightarrow> 'b act \<Rightarrow> 'b act" where
  "andthen m n = bind m (\<lambda>_. n)"

text \<open>The result of \<^verbatim>\<open>m\<close> as a value, for \<^verbatim>\<open>match m { Ok(..) => .., Err(..) => .. }\<close>.\<close>

definition attempt :: "'a act \<Rightarrow> (err + 'a) act" where
  "attempt m E w = (case m E w of
     (Ok a, w') \<Rightarrow> (Ok (Inr a), w')
   | (Err e, w') \<Rightarrow> (Ok (Inl e), w')
   | (Panic p, w') \<Rightarrow> (Panic p, w')
   | (Hang, w') \<Rightarrow> (Hang, w'))"

text \<open>\<^verbatim>\<open>let _ = m;\<close> and errors that are only logged.\<close>

definition ignore :: "'a act \<Rightarrow> unit act" where
  "ignore m = bind (attempt m) (\<lambda>_. ret ())"

definition contextual :: "string \<Rightarrow> 'a act \<Rightarrow> 'a act" where
  "contextual c m = bind (attempt m) (\<lambda>r. case r of Inl e \<Rightarrow> fail (with_context c e) | Inr a \<Rightarrow> ret a)"

text \<open>\<^verbatim>\<open>o.context(msg)?\<close> on an option, and a condition \<^verbatim>\<open>ensure!\<close>d.\<close>

definition need :: "string \<Rightarrow> 'a option \<Rightarrow> 'a act" where
  "need c o' = (case o' of None \<Rightarrow> fail (Other c) | Some a \<Rightarrow> ret a)"

definition ensure :: "bool \<Rightarrow> string \<Rightarrow> unit act" where
  "ensure b c = (if b then ret () else fail (Other c))"

definition asks :: "(env \<Rightarrow> 'a) \<Rightarrow> 'a act" where
  "asks f E w = (Ok (f E), w)"

definition gets :: "(world \<Rightarrow> 'a) \<Rightarrow> 'a act" where
  "gets f E w = (Ok (f w), w)"

text \<open>
  A scope guard: \<open>release\<close> runs however the block is left. The program spawns the release as
  a task of its own that nothing waits for; here it runs at the end of the scope.
\<close>

definition guarded :: "'b act \<Rightarrow> 'a act \<Rightarrow> 'a act" where
  "guarded release m E w = (case m E w of
     (Hang, w') \<Rightarrow> (Hang, w')
   | (r, w') \<Rightarrow> (r, snd (release E w')))"

primrec for_each :: "'a list \<Rightarrow> ('a \<Rightarrow> unit act) \<Rightarrow> unit act" where
  "for_each [] f = ret ()"
| "for_each (x # xs) f = andthen (f x) (for_each xs f)"

section \<open>Primitive operations\<close>

datatype memop =
    SetClient mxid jclient
  | DropClient mxid
  | AddPoller mxid
  | DropPoller mxid
  | SetLogin mxid login_state int
  | DropLogin mxid
  | PurgeLogins int
  | AddPuppet mxid
  | DropPuppet mxid
  | Spawn task

fun exec_mem :: "memop \<Rightarrow> world \<Rightarrow> world" where
  "exec_mem (SetClient m c) w = w\<lparr>w_clients := AList.update m c (w_clients w)\<rparr>"
| "exec_mem (DropClient m) w = w\<lparr>w_clients := AList.delete m (w_clients w)\<rparr>"
| "exec_mem (AddPoller m) w = w\<lparr>w_pollers := List.insert m (w_pollers w)\<rparr>"
| "exec_mem (DropPoller m) w = w\<lparr>w_pollers := removeAll m (w_pollers w)\<rparr>"
| "exec_mem (SetLogin m s t) w = w\<lparr>w_logins := AList.update m (s, t) (w_logins w)\<rparr>"
| "exec_mem (DropLogin m) w = w\<lparr>w_logins := AList.delete m (w_logins w)\<rparr>"
| "exec_mem (PurgeLogins now) w = w\<lparr>w_logins := filter (\<lambda>(_, _, t). now < t) (w_logins w)\<rparr>"
| "exec_mem (AddPuppet m) w = w\<lparr>w_puppets := List.insert m (w_puppets w)\<rparr>"
| "exec_mem (DropPuppet m) w = w\<lparr>w_puppets := removeAll m (w_puppets w)\<rparr>"
| "exec_mem (Spawn t) w = w\<lparr>w_tasks := w_tasks w @ [t]\<rparr>"

text \<open>Every primitive that waits for something lets time pass.\<close>

definition tick :: "env \<Rightarrow> world \<Rightarrow> world" where
  "tick E w = w\<lparr>w_step := Suc (w_step w), w_clock := w_clock w + int (e_tick (e_net E) (w_step w))\<rparr>"

text \<open>A write statement: it may fail for reasons outside the model, or violate a constraint.\<close>

definition run :: "stmt \<Rightarrow> nat act" where
  "run s E w = (let w' = tick E w in
     case e_fault (e_net E) (w_step w) of
       Some m \<Rightarrow> (Err (Sqlx m), w')
     | None \<Rightarrow> (case exec (w_clock w') s (w_db w') of
         Inl m \<Rightarrow> (Err (Sqlx m), w')
       | Inr (n, d) \<Rightarrow> (Ok n, w'\<lparr>w_db := d\<rparr>)))"

text \<open>A query.\<close>

definition query :: "(db \<Rightarrow> 'a) \<Rightarrow> 'a act" where
  "query q E w = (let w' = tick E w in
     case e_fault (e_net E) (w_step w) of
       Some m \<Rightarrow> (Err (Sqlx m), w')
     | None \<Rightarrow> (Ok (q (w_db w')), w'))"

definition mem :: "memop \<Rightarrow> unit act" where
  "mem m E w = (Ok (), exec_mem m w)"

text \<open>A request to the homeserver, a JMAP method call, and the other HTTP calls.\<close>

definition emit :: "ev \<Rightarrow> world \<Rightarrow> world" where
  "emit e w = w\<lparr>w_trace := e # w_trace w\<rparr>"

definition mx_call :: "mx_req \<Rightarrow> http_out act" where
  "mx_call r E w = (Ok (e_mx (e_net E) (w_trace w) r), tick E (emit (EvMx r) w))"

definition call :: "ev \<Rightarrow> (env \<Rightarrow> ev list \<Rightarrow> 'a) \<Rightarrow> 'a act" where
  "call e answer E w = (Ok (answer E (e # w_trace w)), tick E (emit e w))"

definition jcall :: "jclient \<Rightarrow> jmap_req \<Rightarrow> (jmap_answers \<Rightarrow> ev list \<Rightarrow> 'a) \<Rightarrow> 'a act" where
  "jcall c r answer = call (EvJmap c r) (\<lambda>E. answer (e_jmap E))"

definition sleep :: "nat \<Rightarrow> unit act" where
  "sleep n E w = (Ok (), tick E (w\<lparr>w_clock := w_clock w + int n\<rparr>))"

definition now :: "int act" where
  "now = gets w_clock"

definition fresh :: "(answers \<Rightarrow> nat \<Rightarrow> 'a) \<Rightarrow> 'a act" where
  "fresh f E w = (Ok (f (e_net E) (w_step w)), tick E w)"

text \<open>
  \<^verbatim>\<open>request.send().await?.pop_method_response().context(c)?.unwrap_...()?\<close>
\<close>

definition junwrap :: "string \<Rightarrow> 'a jres \<Rightarrow> 'a act" where
  "junwrap c r = (case r of
     JSendErr m \<Rightarrow> fail (Other m)
   | JNoResponse \<Rightarrow> fail (Other c)
   | JMethodErr _ m \<Rightarrow> fail (Other m)
   | JGot a \<Rightarrow> ret a)"

text \<open>The same with \<^verbatim>\<open>.ok()\<close> at each step.\<close>

definition jok :: "'a jres \<Rightarrow> 'a option" where
  "jok r = (case r of JGot a \<Rightarrow> Some a | _ \<Rightarrow> None)"

section \<open>Symbolic execution\<close>

lemma run_combinators [step_simps]:
  "ret x E w = (Ok x, w)"
  "fail e E w = (Err e, w)"
  "panic p E w = (Panic p, w)"
  "hang E w = (Hang, w)"
  "asks f E w = (Ok (f E), w)"
  "gets g E w = (Ok (g w), w)"
  "mem mo E w = (Ok (), exec_mem mo w)"
  by (simp_all add: ret_def fail_def panic_def hang_def asks_def gets_def mem_def)

lemma run_bind [step_simps]:
  "m E w = (Ok a, w') \<Longrightarrow> bind m f E w = f a E w'"
  "m E w = (Err e, w') \<Longrightarrow> bind m f E w = (Err e, w')"
  "m E w = (Panic p, w') \<Longrightarrow> bind m f E w = (Panic p, w')"
  "m E w = (Hang, w') \<Longrightarrow> bind m f E w = (Hang, w')"
  by (simp_all add: bind_def)

lemma run_attempt [step_simps]:
  "m E w = (Ok a, w') \<Longrightarrow> attempt m E w = (Ok (Inr a), w')"
  "m E w = (Err e, w') \<Longrightarrow> attempt m E w = (Ok (Inl e), w')"
  "m E w = (Panic p, w') \<Longrightarrow> attempt m E w = (Panic p, w')"
  "m E w = (Hang, w') \<Longrightarrow> attempt m E w = (Hang, w')"
  by (simp_all add: attempt_def)

lemma bind_ret [simp]: "bind (ret x) f = f x"
  by (intro ext) (simp add: bind_def ret_def)

lemma bind_assoc: "bind (bind m f) g = bind m (\<lambda>x. bind (f x) g)"
  by (intro ext) (simp add: bind_def split: prod.split outcome.split)

lemma bind_eq_Ok:
  "bind m f E w = (Ok b, w') \<longleftrightarrow> (\<exists>a w1. m E w = (Ok a, w1) \<and> f a E w1 = (Ok b, w'))"
  by (auto simp: bind_def split: prod.splits outcome.splits)

lemma bind_eq_Err:
  "bind m f E w = (Err e, w') \<longleftrightarrow>
   m E w = (Err e, w') \<or> (\<exists>a w1. m E w = (Ok a, w1) \<and> f a E w1 = (Err e, w'))"
  by (auto simp: bind_def split: prod.splits outcome.splits)

lemma tick_simps [simp]:
  "w_db (tick E w) = w_db w" "w_trace (tick E w) = w_trace w" "w_clients (tick E w) = w_clients w"
  "w_pollers (tick E w) = w_pollers w" "w_logins (tick E w) = w_logins w"
  "w_puppets (tick E w) = w_puppets w" "w_tasks (tick E w) = w_tasks w"
  by (simp_all add: tick_def)

lemma emit_simps [simp]:
  "w_db (emit e w) = w_db w" "w_trace (emit e w) = e # w_trace w" "w_clients (emit e w) = w_clients w"
  by (simp_all add: emit_def)

lemma query_Ok: "query q E w = (Ok x, w') \<longleftrightarrow>
  e_fault (e_net E) (w_step w) = None \<and> x = q (w_db w) \<and> w' = tick E w"
  by (auto simp: query_def Let_def tick_def split: option.splits)

lemma run_Ok: "run s E w = (Ok n, w') \<longleftrightarrow> e_fault (e_net E) (w_step w) = None \<and>
  (\<exists>d. exec (w_clock (tick E w)) s (w_db w) = Inr (n, d) \<and> w' = (tick E w)\<lparr>w_db := d\<rparr>)"
  by (auto simp: run_def Let_def tick_def split: option.splits sum.splits)

section \<open>Steps and the worlds they reach\<close>

datatype label = LDb stmt | LEv ev | LMem memop | LTick

inductive world_step :: "label \<Rightarrow> world \<Rightarrow> world \<Rightarrow> bool" where
  step_db: "exec (w_clock w) s (w_db w) = Inr (n, d) \<Longrightarrow> world_step (LDb s) w (w\<lparr>w_db := d\<rparr>)"
| step_ev: "world_step (LEv e) w (emit e w)"
| step_mem: "world_step (LMem m) w (exec_mem m w)"
| step_tick: "world_step LTick w (w\<lparr>w_step := w_step w + i, w_clock := w_clock w + int n\<rparr>)"

inductive_cases world_step_dbE: "world_step (LDb s) w w'"
inductive_cases world_step_memE: "world_step (LMem m) w w'"
inductive_simps world_step_ev_iff: "world_step (LEv e) w w'"
inductive_simps world_step_tick_iff: "world_step LTick w w'"

inductive evolves :: "(label \<Rightarrow> bool) \<Rightarrow> world \<Rightarrow> world \<Rightarrow> bool" for K where
  evolves_refl: "evolves K w w"
| evolves_step: "evolves K w w1 \<Longrightarrow> world_step l w1 w2 \<Longrightarrow> l = LTick \<or> K l \<Longrightarrow> evolves K w w2"

lemma evolves_trans: "evolves K w1 w2 \<Longrightarrow> evolves K w w1 \<Longrightarrow> evolves K w w2"
  by (induction rule: evolves.induct) (auto intro: evolves_step)

lemma evolves_mono: "evolves K w w' \<Longrightarrow> (\<And>l. K l \<Longrightarrow> L l) \<Longrightarrow> evolves L w w'"
  by (induction rule: evolves.induct) (auto intro: evolves_refl evolves_step)

lemma evolves_one: "world_step l w w' \<Longrightarrow> l = LTick \<or> K l \<Longrightarrow> evolves K w w'"
  using evolves_refl evolves_step by metis

text \<open>What every allowed step keeps, every evolution keeps.\<close>

lemma evolves_invariant:
  assumes "evolves K w w'" and "I w"
    and "\<And>l w1 w2. world_step l w1 w2 \<Longrightarrow> l = LTick \<or> K l \<Longrightarrow> I w1 \<Longrightarrow> I w2"
  shows "I w'"
  using assms by (induction rule: evolves.induct) auto

section \<open>The frame logic\<close>

definition within :: "(world \<Rightarrow> world \<Rightarrow> bool) \<Rightarrow> 'a act \<Rightarrow> bool" where
  "within R m \<longleftrightarrow> (\<forall>E w. R w (snd (m E w)))"

lemma withinD: "within R m \<Longrightarrow> m E w = (r, w') \<Longrightarrow> R w w'"
  unfolding within_def by (metis snd_conv)

locale frame =
  fixes R :: "world \<Rightarrow> world \<Rightarrow> bool"
  assumes R_refl: "R w w"
    and R_trans: "R w w1 \<Longrightarrow> R w1 w2 \<Longrightarrow> R w w2"
begin

lemma pure: "within R (ret x)" "within R (fail e)" "within R (panic p)" "within R hang"
  "within R (asks f)" "within R (gets g)" "within R (need c v)" "within R (ensure b c)"
  "within R now" "within R (junwrap c r)"
  by (auto simp: within_def step_simps R_refl need_def ensure_def now_def junwrap_def
      split: option.split jres.split)

lemma bind: "within R m \<Longrightarrow> (\<And>x. within R (f x)) \<Longrightarrow> within R (bind m f)"
  unfolding within_def bind_def
  by (auto split: prod.split outcome.split) (metis R_trans snd_conv)+

lemma attempt: "within R m \<Longrightarrow> within R (attempt m)"
  unfolding within_def attempt_def
  by (auto split: prod.split outcome.split) (metis snd_conv)+

lemma andthen: "within R m \<Longrightarrow> within R n \<Longrightarrow> within R (andthen m n)"
  by (simp add: andthen_def bind)

lemma ignore: "within R m \<Longrightarrow> within R (ignore m)"
  by (simp add: ignore_def bind attempt pure)

lemma contextual: "within R m \<Longrightarrow> within R (contextual c m)"
  by (auto simp: contextual_def intro!: bind attempt pure split: sum.split)

lemma guarded: "within R n \<Longrightarrow> within R m \<Longrightarrow> within R (guarded n m)"
  unfolding within_def guarded_def
  by (auto split: prod.split outcome.split) (metis R_trans snd_conv)+

lemma for_each: "(\<And>x. x \<in> set xs \<Longrightarrow> within R (f x)) \<Longrightarrow> within R (for_each xs f)"
  by (induction xs) (auto intro: andthen pure)

end

text \<open>The branches of a \<^verbatim>\<open>match\<close> or \<^verbatim>\<open>if\<close>, whatever the relation.\<close>

lemma within_if: "(b \<Longrightarrow> within R m) \<Longrightarrow> (\<not> b \<Longrightarrow> within R n) \<Longrightarrow> within R (if b then m else n)"
  by simp

lemma within_option:
  "(v = None \<Longrightarrow> within R m) \<Longrightarrow> (\<And>x. v = Some x \<Longrightarrow> within R (f x)) \<Longrightarrow>
   within R (case v of None \<Rightarrow> m | Some x \<Rightarrow> f x)"
  by (cases v) auto

lemma within_sum:
  "(\<And>x. v = Inl x \<Longrightarrow> within R (f x)) \<Longrightarrow> (\<And>x. v = Inr x \<Longrightarrow> within R (g x)) \<Longrightarrow>
   within R (case v of Inl x \<Rightarrow> f x | Inr x \<Rightarrow> g x)"
  by (cases v) auto

lemma within_prod: "(\<And>x y. v = (x, y) \<Longrightarrow> within R (f x y)) \<Longrightarrow> within R (case v of (x, y) \<Rightarrow> f x y)"
  by (cases v) auto

lemma within_list:
  "(v = [] \<Longrightarrow> within R m) \<Longrightarrow> (\<And>x xs. v = x # xs \<Longrightarrow> within R (f x xs)) \<Longrightarrow>
   within R (case v of [] \<Rightarrow> m | x # xs \<Rightarrow> f x xs)"
  by (cases v) auto

lemma within_jres:
  "(\<And>m. v = JSendErr m \<Longrightarrow> within R (f m)) \<Longrightarrow> (v = JNoResponse \<Longrightarrow> within R n) \<Longrightarrow>
   (\<And>b m. v = JMethodErr b m \<Longrightarrow> within R (g b m)) \<Longrightarrow> (\<And>a. v = JGot a \<Longrightarrow> within R (h a)) \<Longrightarrow>
   within R (case v of JSendErr m \<Rightarrow> f m | JNoResponse \<Rightarrow> n | JMethodErr b m \<Rightarrow> g b m | JGot a \<Rightarrow> h a)"
  by (cases v) auto

lemma within_http:
  "(\<And>m. v = HttpErr m \<Longrightarrow> within R (f m)) \<Longrightarrow>
   (\<And>s hs b. v = HttpResp s hs b \<Longrightarrow> within R (g s hs b)) \<Longrightarrow>
   within R (case v of HttpErr m \<Rightarrow> f m | HttpResp s hs b \<Rightarrow> g s hs b)"
  by (cases v) auto

lemma within_let: "within R (f v) \<Longrightarrow> within R (let x = v in f x)"
  by simp

lemmas branch_rules = within_if within_option within_sum within_prod within_list within_jres
  within_http within_let

interpretation ev: frame "evolves K" for K
  by unfold_locales (auto intro: evolves_refl evolves_trans)

section \<open>The primitives as evolutions\<close>

lemma tick_step: "world_step LTick w (tick E w)"
proof -
  have "tick E w = w\<lparr>w_step := w_step w + 1, w_clock := w_clock w + int (e_tick (e_net E) (w_step w))\<rparr>"
    by (simp add: tick_def)
  then show ?thesis using step_tick by metis
qed

lemma sleep_step: "world_step LTick w (w\<lparr>w_clock := w_clock w + int n\<rparr>)"
proof -
  have "w\<lparr>w_clock := w_clock w + int n\<rparr> = w\<lparr>w_step := w_step w + 0, w_clock := w_clock w + int n\<rparr>"
    by simp
  then show ?thesis using step_tick by metis
qed

lemma tick_evolves: "evolves K w w1 \<Longrightarrow> evolves K w (tick E w1)"
  using tick_step evolves_step by blast

lemma run_evolves: "K (LDb s) \<Longrightarrow> within (evolves K) (run s)"
  unfolding within_def
proof (intro allI)
  fix E w
  assume k: "K (LDb s)"
  have t: "evolves K w (tick E w)" by (intro tick_evolves evolves_refl)
  have "evolves K w ((tick E w)\<lparr>w_db := d\<rparr>)"
    if "exec (w_clock (tick E w)) s (w_db (tick E w)) = Inr (n, d)" for n d
    using t step_db [OF that] k by (blast intro: evolves_step)
  with t show "evolves K w (snd (run s E w))"
    by (simp add: run_def Let_def split: option.split sum.split)
qed

lemma query_evolves: "within (evolves K) (query q)"
  unfolding within_def query_def Let_def
  by (auto split: option.split intro!: tick_evolves evolves_refl)

lemma mem_evolves: "K (LMem m) \<Longrightarrow> within (evolves K) (mem m)"
  unfolding within_def mem_def by (auto intro: evolves_one step_mem)

lemma mx_call_evolves: "K (LEv (EvMx r)) \<Longrightarrow> within (evolves K) (mx_call r)"
  unfolding within_def mx_call_def by (auto intro!: tick_evolves intro: evolves_one step_ev)

lemma call_evolves: "K (LEv e) \<Longrightarrow> within (evolves K) (call e f)"
  unfolding within_def call_def by (auto intro!: tick_evolves intro: evolves_one step_ev)

lemma jcall_evolves: "K (LEv (EvJmap c r)) \<Longrightarrow> within (evolves K) (jcall c r f)"
  unfolding jcall_def by (rule call_evolves)

lemma sleep_evolves: "within (evolves K) (sleep n)"
  unfolding within_def sleep_def by (auto intro!: tick_evolves intro: evolves_one sleep_step)

lemma fresh_evolves: "within (evolves K) (fresh f)"
  unfolding within_def fresh_def by (auto intro!: tick_evolves evolves_refl)

lemmas [frame_rules] = ev.pure ev.bind ev.attempt ev.andthen ev.ignore ev.contextual ev.guarded ev.for_each
  branch_rules run_evolves query_evolves mem_evolves mx_call_evolves call_evolves jcall_evolves
  sleep_evolves fresh_evolves

section \<open>What no step breaks\<close>

lemma world_step_db_ok: "world_step l w w' \<Longrightarrow> db_ok (w_db w) \<Longrightarrow> db_ok (w_db w')"
proof (induction rule: world_step.induct)
  case (step_mem m w)
  then show ?case by (cases m) auto
qed (auto simp: emit_def intro: exec_db_ok)

lemma world_step_users: "world_step l w w' \<Longrightarrow> user_exists (w_db w) m \<Longrightarrow> user_exists (w_db w') m"
proof (induction rule: world_step.induct)
  case (step_mem mo w)
  then show ?case by (cases mo) auto
qed (auto simp: emit_def intro: exec_users)

lemma world_step_clock: "world_step l w w' \<Longrightarrow> w_clock w \<le> w_clock w'"
proof (induction rule: world_step.induct)
  case (step_mem mo w)
  then show ?case by (cases mo) auto
qed (auto simp: emit_def)

lemma evolves_db_ok: "evolves K w w' \<Longrightarrow> db_ok (w_db w) \<Longrightarrow> db_ok (w_db w')"
  by (rule evolves_invariant [where I = "\<lambda>w. db_ok (w_db w)"]) (auto intro: world_step_db_ok)

lemma evolves_users: "evolves K w w' \<Longrightarrow> user_exists (w_db w) m \<Longrightarrow> user_exists (w_db w') m"
  by (rule evolves_invariant [where I = "\<lambda>w. user_exists (w_db w) m"]) (auto intro: world_step_users)

lemma evolves_clock: "evolves K w w' \<Longrightarrow> w_clock w \<le> w_clock w'"
  by (rule evolves_invariant [where I = "\<lambda>w'. w_clock w \<le> w_clock w'"])
    (auto dest: world_step_clock)

text \<open>What was sent stays sent.\<close>

lemma world_step_trace: "world_step l w w' \<Longrightarrow> \<exists>u. w_trace w' = u @ w_trace w"
proof (induction rule: world_step.induct)
  case (step_mem mo w)
  then show ?case by (cases mo) auto
qed (auto simp: emit_def)

lemma evolves_trace: "evolves K w w' \<Longrightarrow> \<exists>u. w_trace w' = u @ w_trace w"
proof (rule evolves_invariant [where I = "\<lambda>w'. \<exists>u. w_trace w' = u @ w_trace w"])
  show "\<exists>u. w_trace w2 = u @ w_trace w"
    if "world_step l w1 w2" "\<exists>u. w_trace w1 = u @ w_trace w" for l w1 w2
    using world_step_trace [OF that(1)] that(2) by (metis append.assoc)
qed auto

lemma evolves_events: "evolves K w w' \<Longrightarrow> \<exists>u. w_trace w' = u @ w_trace w \<and> list_all (\<lambda>e. K (LEv e)) u"
proof (rule evolves_invariant [where I = "\<lambda>w'. \<exists>u. w_trace w' = u @ w_trace w \<and> list_all (\<lambda>e. K (LEv e)) u"])
  fix l w1 w2
  assume st: "world_step l w1 w2" and l: "l = LTick \<or> K l"
    and "\<exists>u. w_trace w1 = u @ w_trace w \<and> list_all (\<lambda>e. K (LEv e)) u"
  then obtain u where u: "w_trace w1 = u @ w_trace w" "list_all (\<lambda>e. K (LEv e)) u" by blast
  show "\<exists>u. w_trace w2 = u @ w_trace w \<and> list_all (\<lambda>e. K (LEv e)) u"
    using st
  proof (cases rule: world_step.cases)
    case (step_ev e)
    then have "w_trace w2 = (e # u) @ w_trace w \<and> list_all (\<lambda>e. K (LEv e)) (e # u)"
      using u l by simp
    then show ?thesis by blast
  next
    case (step_mem m)
    then show ?thesis using u by (cases m) auto
  qed (use u in auto)
qed auto

section \<open>Actions that always come back\<close>

text \<open>\<open>calm m\<close>: whatever the environment answers, \<open>m\<close> neither panics nor hangs.\<close>

definition comes_back :: "'a outcome \<Rightarrow> bool" where
  "comes_back r \<longleftrightarrow> (case r of Ok _ \<Rightarrow> True | Err _ \<Rightarrow> True | Panic _ \<Rightarrow> False | Hang \<Rightarrow> False)"

definition calm :: "'a act \<Rightarrow> bool" where
  "calm m \<longleftrightarrow> (\<forall>E w. comes_back (fst (m E w)))"

lemma comes_back_simps [simp]:
  "comes_back (Ok x)" "comes_back (Err e)" "\<not> comes_back (Panic p)" "\<not> comes_back Hang"
  by (simp_all add: comes_back_def)

lemma calm_prims [calm_rules]:
  "calm (ret x)" "calm (fail e)" "calm (asks f)" "calm (gets g)" "calm (need c v)" "calm (ensure b c)"
  "calm now" "calm (junwrap c j)" "calm (run s)" "calm (query q)" "calm (mem mo)" "calm (mx_call r)"
  "calm (call evt a)" "calm (jcall cl rq ja)" "calm (sleep n)" "calm (fresh h)"
  by (auto simp: calm_def step_simps need_def ensure_def now_def junwrap_def run_def query_def Let_def
      mx_call_def call_def jcall_def sleep_def fresh_def
      split: option.split jres.split sum.split)

lemma calm_bind [calm_rules]: "calm m \<Longrightarrow> (\<And>x. calm (f x)) \<Longrightarrow> calm (bind m f)"
  unfolding calm_def bind_def by (auto split: prod.split outcome.split) (metis comes_back_simps fst_conv)+

lemma calm_attempt [calm_rules]: "calm m \<Longrightarrow> calm (attempt m)"
  unfolding calm_def attempt_def by (auto split: prod.split outcome.split) (metis comes_back_simps fst_conv)+

lemma calm_andthen [calm_rules]: "calm m \<Longrightarrow> calm n \<Longrightarrow> calm (andthen m n)"
  by (simp add: andthen_def calm_bind)

lemma calm_ignore [calm_rules]: "calm m \<Longrightarrow> calm (ignore m)"
  by (simp add: ignore_def calm_bind calm_attempt calm_prims)

lemma calm_contextual [calm_rules]: "calm m \<Longrightarrow> calm (contextual c m)"
  by (auto simp: contextual_def intro!: calm_bind calm_attempt calm_prims split: sum.split)

lemma calm_guarded [calm_rules]: "calm m \<Longrightarrow> calm (guarded n m)"
  unfolding calm_def guarded_def by (auto split: prod.split outcome.split) (metis comes_back_simps fst_conv)+

lemma calm_for_each [calm_rules]: "(\<And>x. x \<in> set xs \<Longrightarrow> calm (f x)) \<Longrightarrow> calm (for_each xs f)"
  by (induction xs) (auto intro: calm_andthen calm_prims)

lemma calm_branches [calm_rules]:
  "(b \<Longrightarrow> calm m) \<Longrightarrow> (\<not> b \<Longrightarrow> calm n) \<Longrightarrow> calm (if b then m else n)"
  "(v = None \<Longrightarrow> calm m) \<Longrightarrow> (\<And>x. v = Some x \<Longrightarrow> calm (f x)) \<Longrightarrow> calm (case v of None \<Rightarrow> m | Some x \<Rightarrow> f x)"
  "(\<And>x. s = Inl x \<Longrightarrow> calm (g x)) \<Longrightarrow> (\<And>x. s = Inr x \<Longrightarrow> calm (h x)) \<Longrightarrow> calm (case s of Inl x \<Rightarrow> g x | Inr x \<Rightarrow> h x)"
  "(\<And>x y. p = (x, y) \<Longrightarrow> calm (k x y)) \<Longrightarrow> calm (case p of (x, y) \<Rightarrow> k x y)"
  "(l = [] \<Longrightarrow> calm m) \<Longrightarrow> (\<And>x xs. l = x # xs \<Longrightarrow> calm (c x xs)) \<Longrightarrow> calm (case l of [] \<Rightarrow> m | x # xs \<Rightarrow> c x xs)"
  "(\<And>e. r = HttpErr e \<Longrightarrow> calm (f1 e)) \<Longrightarrow> (\<And>a hs b. r = HttpResp a hs b \<Longrightarrow> calm (f2 a hs b)) \<Longrightarrow>
   calm (case r of HttpErr e \<Rightarrow> f1 e | HttpResp a hs b \<Rightarrow> f2 a hs b)"
  "calm (d z) \<Longrightarrow> calm (let x = z in d x)"
  by (auto split: option.split sum.split prod.split list.split http_out.split)

lemma calm_jres [calm_rules]:
  "(\<And>m. v = JSendErr m \<Longrightarrow> calm (f m)) \<Longrightarrow> (v = JNoResponse \<Longrightarrow> calm n) \<Longrightarrow>
   (\<And>b m. v = JMethodErr b m \<Longrightarrow> calm (g b m)) \<Longrightarrow> (\<And>a. v = JGot a \<Longrightarrow> calm (h a)) \<Longrightarrow>
   calm (case v of JSendErr m \<Rightarrow> f m | JNoResponse \<Rightarrow> n | JMethodErr b m \<Rightarrow> g b m | JGot a \<Rightarrow> h a)"
  by (cases v) auto

lemma calmD: "calm m \<Longrightarrow> (\<exists>a. fst (m E w) = Ok a) \<or> (\<exists>e. fst (m E w) = Err e)"
  by (cases "fst (m E w)") (auto simp: calm_def comes_back_def split: outcome.splits dest!: spec [of _ E] spec [of _ w])

lemma calm_attempt_Ok: "calm m \<Longrightarrow> \<exists>r w'. attempt m E w = (Ok r, w')"
  using calmD [of m E w] by (auto simp: attempt_def split: prod.split outcome.split)

end
