(* ===== verification/Crypto.thy ===== *)
theory Crypto
  imports Actions
begin

text \<open>
  Credential encryption at rest (\<^verbatim>\<open>src/src/crypto.rs\<close>): the envelope nonce, ciphertext and
  tag in base64. AES-256-GCM and base64 are crates, so they are functions of the environment;
  the code around them is modelled here.
\<close>

definition nonce_len :: nat where
  "nonce_len = 12"

definition encrypt :: "string \<Rightarrow> string \<Rightarrow> string act" where
  "encrypt plaintext key =
     bind (fresh e_nonce) (\<lambda>nonce.
     bind (asks (\<lambda>E. l_seal (e_crypt E) key nonce plaintext)) (\<lambda>sealed.
     bind (need ''Encryption failed'' sealed) (\<lambda>ciphertext.
     asks (\<lambda>E. l_b64 (e_crypt E) (nonce @ ciphertext)))))"

definition decrypt :: "string \<Rightarrow> string \<Rightarrow> string act" where
  "decrypt encoded key =
     bind (asks (\<lambda>E. l_unb64 (e_crypt E) encoded)) (\<lambda>decoded.
     bind (need ''Failed to decode base64 ciphertext'' decoded) (\<lambda>combined.
     if length combined < nonce_len
     then fail (Other (''Ciphertext too short: expected at least '' @ show_nat nonce_len
       @ '' bytes, got '' @ show_nat (length combined)))
     else bind (asks (\<lambda>E. l_open (e_crypt E) key (take nonce_len combined) (drop nonce_len combined)))
       (\<lambda>opened.
     bind (need ''Decryption failed'' opened) (\<lambda>plaintext.
     if valid_utf8 plaintext then ret plaintext
     else fail (Other ''Decrypted data is not valid UTF-8'')))))"

text \<open>
  What the two crates document: decoding inverts encoding, and opening with the same key and
  nonce inverts sealing.
\<close>

definition good_ciphers :: "env \<Rightarrow> bool" where
  "good_ciphers E \<longleftrightarrow> (\<forall>b. l_unb64 (e_crypt E) (l_b64 (e_crypt E) b) = Some b)
     \<and> (\<forall>k n p c. l_seal (e_crypt E) k n p = Some c \<longrightarrow> l_open (e_crypt E) k n c = Some p)
     \<and> (\<forall>i. length (e_nonce (e_net E) i) = nonce_len)"

lemma encrypt_Ok:
  "encrypt p k E w = (Ok c, w') \<longleftrightarrow> w' = tick E w \<and>
   (\<exists>s. l_seal (e_crypt E) k (e_nonce (e_net E) (w_step w)) p = Some s
      \<and> c = l_b64 (e_crypt E) (e_nonce (e_net E) (w_step w) @ s))"
  by (auto simp: encrypt_def bind_eq_Ok fresh_def asks_def need_def ret_def fail_def
      split: option.splits)

lemma encrypt_then_decrypt:
  assumes "good_ciphers E" and "valid_utf8 p" and "encrypt p k E w = (Ok c, w')"
  shows "decrypt c k E v = (Ok p, v)"
proof -
  let ?n = "e_nonce (e_net E) (w_step w)"
  from assms(3) obtain s where s: "l_seal (e_crypt E) k ?n p = Some s"
    and c: "c = l_b64 (e_crypt E) (?n @ s)"
    by (auto simp: encrypt_Ok)
  have n: "length ?n = nonce_len" and o: "l_open (e_crypt E) k ?n s = Some p"
    and b: "l_unb64 (e_crypt E) c = Some (?n @ s)"
    using assms(1) s c by (auto simp: good_ciphers_def)
  show ?thesis
    using n o b assms(2) by (simp add: decrypt_def bind_def asks_def need_def ret_def)
qed

text \<open>What was stored under another key, or was cut short, is an error and never a panic.\<close>


lemma decrypt_world: "snd (decrypt c k E w) = w"
  by (auto simp: decrypt_def bind_def asks_def need_def ret_def fail_def split: option.split)

lemma encrypt_evolves [frame_rules]: "within (evolves K) (encrypt p k)"
  unfolding encrypt_def by (intro frame_rules)

lemma decrypt_evolves [frame_rules]: "within (evolves K) (decrypt c k)"
  unfolding decrypt_def by (intro frame_rules)

lemma crypto_calm [calm_rules]: "calm (encrypt t k)" "calm (decrypt t k)"
  unfolding encrypt_def decrypt_def by (intro calm_rules)+

end
