(* ===== verification/Store.thy ===== *)
theory Store
  imports Crypto
begin

text \<open>
  The persistence layer, \<^verbatim>\<open>src/src/store/\<close>: each method of \<^verbatim>\<open>Store\<close>, its two repository
  traits included, as an action over the statements of \<^theory_text>\<open>Statements\<close>. A query that
  \<^verbatim>\<open>fetch_optional\<close>s takes the first row in rowid order. Credentials pass through
  \<^theory_text>\<open>Crypto\<close> when a key is configured.
\<close>

definition exec_unit :: "stmt \<Rightarrow> unit act" where
  "exec_unit s = bind (run s) (\<lambda>_. ret ())"

definition exec_changed :: "stmt \<Rightarrow> bool act" where
  "exec_changed s = bind (run s) (\<lambda>n. ret (0 < n))"

primrec traverse :: "('a \<Rightarrow> 'b act) \<Rightarrow> 'a list \<Rightarrow> 'b list act" where
  "traverse f [] = ret []"
| "traverse f (x # xs) = bind (f x) (\<lambda>y. bind (traverse f xs) (\<lambda>ys. ret (y # ys)))"

section \<open>store/sync.rs, store/bridge.rs and store/connection.rs\<close>

definition get_room_id :: "string \<Rightarrow> room_id option act" where
  "get_room_id mailbox_id =
     query (\<lambda>d. map_option snd (find_row (\<lambda>r. fst r = mailbox_id) (t_mailboxes d)))"

definition save_room_mapping :: "string \<Rightarrow> room_id \<Rightarrow> unit act" where
  "save_room_mapping mailbox_id room_id = exec_unit (PutMailbox mailbox_id room_id)"

definition save_jmap_state :: "mxid \<Rightarrow> string \<Rightarrow> string \<Rightarrow> unit act" where
  "save_jmap_state user key state = exec_unit (PutKv user key state)"

definition get_jmap_state :: "mxid \<Rightarrow> string \<Rightarrow> string option act" where
  "get_jmap_state user key =
     query (\<lambda>d. map_option sr_val (find_row (\<lambda>r. sr_pk r = (user, key)) (t_state d)))"

definition delete_jmap_state :: "mxid \<Rightarrow> string \<Rightarrow> unit act" where
  "delete_jmap_state user key = exec_unit (DelKv user key)"

definition claim_transaction :: "string \<Rightarrow> bool act" where
  "claim_transaction txn = bind (run (ClaimTxn txn)) (\<lambda>affected. ret (affected = 1))"

definition unclaim_transaction :: "string \<Rightarrow> unit act" where
  "unclaim_transaction txn = exec_unit (UnclaimTxn txn)"

definition prune_old_data :: "unit act" where
  "prune_old_data = andthen (exec_unit PruneTxns) (exec_unit PruneDestroyed)"

text \<open>
  Only a violated uniqueness is \<^verbatim>\<open>Ok(false)\<close>; SQLite's text for it is what the code looks
  for when the driver's flag and codes are not set.
\<close>

definition try_acquire_room_creation_lock :: "string \<Rightarrow> bool act" where
  "try_acquire_room_creation_lock key =
     bind (attempt (run (TakeLock key))) (\<lambda>r. case r of
       Inr _ \<Rightarrow> ret True
     | Inl e \<Rightarrow> if contains (err_text e) unique_failed then ret False else fail e)"

definition release_room_creation_lock :: "string \<Rightarrow> unit act" where
  "release_room_creation_lock key = exec_unit (DropLock key)"

definition get_bridge_state :: "string \<Rightarrow> string option act" where
  "get_bridge_state key = query (\<lambda>d. map_option snd (find_row (\<lambda>r. fst r = key) (t_bridge d)))"

definition set_bridge_state :: "string \<Rightarrow> string \<Rightarrow> unit act" where
  "set_bridge_state key val = exec_unit (PutBridge key val)"

text \<open>Start-up: the migrations are idempotent, and stale locks go.\<close>

definition store_init :: "unit act" where
  "store_init = contextual ''Failed to clear stale room creation locks'' (exec_unit DropAllLocks)"

section \<open>store/threads.rs\<close>

definition set_thread_subject :: "event_id \<Rightarrow> string \<Rightarrow> unit act" where
  "set_thread_subject root subject = exec_unit (PutSubject root subject)"

definition get_thread_subject :: "event_id \<Rightarrow> string option act" where
  "get_thread_subject root = query (\<lambda>d. map_option snd (find_row (\<lambda>r. fst r = root) (t_subjects d)))"

definition thread_info :: "thread_row \<Rightarrow> event_id \<times> room_id \<times> event_id option" where
  "thread_info r = (tr_root r, tr_room r, tr_latest r)"

definition get_thread_info :: "thread_id \<Rightarrow> (event_id \<times> room_id \<times> event_id option) option act" where
  "get_thread_info thread =
     query (\<lambda>d. map_option thread_info (find_row (\<lambda>r. tr_thread r = thread) (t_threads d)))"

definition get_jmap_thread_id_by_root_event :: "event_id \<Rightarrow> thread_id option act" where
  "get_jmap_thread_id_by_root_event root =
     query (\<lambda>d. map_option tr_thread (find_row (\<lambda>r. tr_root r = root) (t_threads d)))"

text \<open>\<^verbatim>\<open>ORDER BY t.rowid DESC LIMIT 1\<close> is the last row of the room.\<close>

definition get_latest_thread_in_room ::
    "room_id \<Rightarrow> (thread_id \<times> event_id \<times> string option) option act" where
  "get_latest_thread_in_room room =
     query (\<lambda>d. map_option (\<lambda>r. (tr_thread r, tr_root r,
         map_option snd (find_row (\<lambda>s. fst s = tr_root r) (t_subjects d))))
       (find_row (\<lambda>r. tr_room r = room) (rev (t_threads d))))"

definition save_thread_mapping_atomic ::
    "thread_id \<Rightarrow> event_id \<Rightarrow> room_id \<Rightarrow> string \<Rightarrow> unit act" where
  "save_thread_mapping_atomic thread root room subject =
     exec_unit (PutThreadAndSubject thread root room subject)"

definition update_thread_latest_event :: "thread_id \<Rightarrow> event_id \<Rightarrow> unit act" where
  "update_thread_latest_event thread latest = exec_unit (SetLatest thread latest)"

definition save_room_ghost_mapping :: "room_id \<Rightarrow> addr \<Rightarrow> mxid \<Rightarrow> unit act" where
  "save_room_ghost_mapping room email user = exec_unit (PutGhost room email user)"

definition ghost_of :: "room_id \<Rightarrow> db \<Rightarrow> ghost_row option" where
  "ghost_of room d = find_row (\<lambda>r. gr_room r = room) (t_ghosts d)"

definition get_ghost_email_by_room :: "room_id \<Rightarrow> addr option act" where
  "get_ghost_email_by_room room = query (\<lambda>d. map_option gr_email (ghost_of room d))"

definition unbridge_room :: "room_id \<Rightarrow> unit act" where
  "unbridge_room room = andthen (exec_unit (DelGhost room)) (exec_unit (DelThreadsOfRoom room))"

definition get_room_by_ghost :: "addr \<Rightarrow> mxid \<Rightarrow> room_id option act" where
  "get_room_by_ghost email user =
     query (\<lambda>d. map_option gr_room (find_row (\<lambda>r. gr_email r = email \<and> gr_user r = user) (t_ghosts d)))"

text \<open>
  \<^verbatim>\<open>query_scalar\<close> into \<^verbatim>\<open>Option<String>\<close> with \<^verbatim>\<open>fetch_optional\<close>: a row whose column is NULL
  does not decode as a \<^verbatim>\<open>String\<close>, which is an error of the driver.
\<close>

definition get_last_email_id_by_room :: "room_id \<Rightarrow> email_id option act" where
  "get_last_email_id_by_room room =
     bind (query (ghost_of room)) (\<lambda>r. case r of
       None \<Rightarrow> ret None
     | Some g \<Rightarrow> (case gr_last g of
         Some i \<Rightarrow> ret (Some i)
       | None \<Rightarrow> fail (Sqlx ''unexpected null; try decoding as an `Option`'')))"

definition update_last_email_id :: "room_id \<Rightarrow> email_id \<Rightarrow> unit act" where
  "update_last_email_id room email = exec_unit (SetLastEmail room email)"

definition save_message_mapping :: "email_id \<Rightarrow> event_id \<Rightarrow> unit act" where
  "save_message_mapping email event = exec_unit (PutMessage email event)"

definition is_mapped :: "email_id \<Rightarrow> db \<Rightarrow> bool" where
  "is_mapped i d \<longleftrightarrow> has_row (\<lambda>r. fst r = i) (t_messages d) \<or> has_row (\<lambda>r. fst r = i) (t_destroyed d)"

definition has_message_mapped :: "email_id \<Rightarrow> bool act" where
  "has_message_mapped email = query (is_mapped email)"

definition mark_email_destroyed :: "email_id \<Rightarrow> unit act" where
  "mark_email_destroyed email = exec_unit (MarkDestroyed email)"

definition get_event_id_by_email :: "email_id \<Rightarrow> event_id option act" where
  "get_event_id_by_email email =
     query (\<lambda>d. map_option snd (find_row (\<lambda>r. fst r = email) (t_messages d)))"

definition get_email_id_from_event_id :: "event_id \<Rightarrow> email_id option act" where
  "get_email_id_from_event_id event =
     query (\<lambda>d. map_option fst (find_row (\<lambda>r. snd r = event) (t_messages d)))"

definition get_latest_email_id_by_room :: "room_id \<Rightarrow> email_id option act" where
  "get_latest_email_id_by_room room =
     query (\<lambda>d. map_option fst (find_row (\<lambda>_. True)
       (concat (map (\<lambda>t. filter (\<lambda>m. Some (snd m) = tr_latest t) (t_messages d))
         (filter (\<lambda>t. tr_room t = room) (t_threads d))))))"

section \<open>store/users.rs\<close>

definition sealed :: "string \<Rightarrow> string \<Rightarrow> string act" where
  "sealed c text = bind (asks (c_key \<circ> e_cfg)) (\<lambda>k. case k of
     Some key \<Rightarrow> contextual c (encrypt text key)
   | None \<Rightarrow> ret text)"

definition unsealed :: "string \<Rightarrow> string \<Rightarrow> string act" where
  "unsealed c text = bind (asks (c_key \<circ> e_cfg)) (\<lambda>k. case k of
     Some key \<Rightarrow> contextual c (decrypt text key)
   | None \<Rightarrow> ret text)"

definition save_user :: "registered_user \<Rightarrow> unit act" where
  "save_user u =
     bind (sealed ''Failed to encrypt username'' (ru_name u)) (\<lambda>username.
     bind (sealed ''Failed to encrypt token'' (ru_token u)) (\<lambda>token.
     exec_unit (UpsertUser (u\<lparr>ru_name := username, ru_token := token\<rparr>))))"

definition decrypt_user :: "registered_user \<Rightarrow> registered_user act" where
  "decrypt_user u =
     bind (unsealed ''Failed to decrypt username'' (ru_name u)) (\<lambda>username.
     bind (unsealed ''Failed to decrypt token'' (ru_token u)) (\<lambda>token.
     ret (u\<lparr>ru_name := username, ru_token := token\<rparr>)))"

definition active :: "registered_user \<Rightarrow> bool" where
  "active r \<longleftrightarrow> ru_token r \<noteq> []"

definition get_user :: "mxid \<Rightarrow> registered_user option act" where
  "get_user user =
     bind (query (\<lambda>d. find_row (\<lambda>r. ru_mxid r = user \<and> active r) (t_users d))) (\<lambda>row. case row of
       None \<Rightarrow> ret None
     | Some u \<Rightarrow> bind (decrypt_user u) (\<lambda>u'. ret (Some u')))"

definition get_all_users :: "registered_user list act" where
  "get_all_users = bind (query (\<lambda>d. filter active (t_users d))) (traverse decrypt_user)"

definition clear_user_credentials :: "mxid \<Rightarrow> unit act" where
  "clear_user_credentials user = exec_unit (BlankToken user)"

definition rooms_of :: "mxid \<Rightarrow> db \<Rightarrow> room_id list" where
  "rooms_of user d = map gr_room (filter (\<lambda>r. gr_user r = user) (t_ghosts d))"

definition count_bridged_rooms :: "mxid \<Rightarrow> nat act" where
  "count_bridged_rooms user = query (\<lambda>d. length (rooms_of user d))"

definition get_user_room_ids :: "mxid \<Rightarrow> room_id list act" where
  "get_user_room_ids user = query (rooms_of user)"

definition set_last_sync :: "mxid \<Rightarrow> string \<Rightarrow> unit act" where
  "set_last_sync user ts = save_jmap_state user ''last_sync_at'' ts"

definition get_last_sync :: "mxid \<Rightarrow> string option act" where
  "get_last_sync user = get_jmap_state user ''last_sync_at''"

definition set_send_delay :: "mxid \<Rightarrow> int \<Rightarrow> unit act" where
  "set_send_delay user secs = save_jmap_state user ''send_delay_seconds'' (show_int secs)"

definition get_send_delay :: "mxid \<Rightarrow> int option act" where
  "get_send_delay user = bind (get_jmap_state user ''send_delay_seconds'') (\<lambda>s.
     ret (Option.bind s parse_i64))"

definition set_user_email :: "mxid \<Rightarrow> addr \<Rightarrow> unit act" where
  "set_user_email user email = save_jmap_state user ''user_email'' email"

definition get_user_email :: "mxid \<Rightarrow> addr option act" where
  "get_user_email user = get_jmap_state user ''user_email''"

definition set_email_space_room :: "mxid \<Rightarrow> room_id \<Rightarrow> unit act" where
  "set_email_space_room user room = save_jmap_state user ''email_space_room'' room"

definition get_email_space_room :: "mxid \<Rightarrow> room_id option act" where
  "get_email_space_room user = get_jmap_state user ''email_space_room''"

definition puppet_token_key :: string where
  "puppet_token_key = ''matrix_puppet_token''"

definition set_matrix_puppet_token :: "mxid \<Rightarrow> string \<Rightarrow> unit act" where
  "set_matrix_puppet_token user token =
     bind (sealed ''Failed to encrypt puppet token'' token) (\<lambda>stored.
     save_jmap_state user puppet_token_key stored)"

definition get_matrix_puppet_token :: "mxid \<Rightarrow> string option act" where
  "get_matrix_puppet_token user =
     bind (get_jmap_state user puppet_token_key) (\<lambda>stored. case stored of
       None \<Rightarrow> ret None
     | Some s \<Rightarrow> bind (unsealed ''Failed to decrypt puppet token'' s) (\<lambda>t. ret (Some t)))"

definition set_user_signature :: "mxid \<Rightarrow> string \<Rightarrow> unit act" where
  "set_user_signature user signature = exec_unit (PutSig user signature)"

definition get_user_signature :: "mxid \<Rightarrow> string option act" where
  "get_user_signature user = query (\<lambda>d. map_option snd (find_row (\<lambda>r. fst r = user) (t_sigs d)))"

definition delete_user_signature :: "mxid \<Rightarrow> unit act" where
  "delete_user_signature user = exec_unit (DelSig user)"

section \<open>store/queue.rs\<close>

definition add_to_outbound_queue ::
    "mxid \<Rightarrow> room_id \<Rightarrow> event_id \<Rightarrow> string \<Rightarrow> string option \<Rightarrow> string option \<Rightarrow> string option \<Rightarrow> int \<Rightarrow> unit act" where
  "add_to_outbound_queue user room event body html thread_root atts delay =
     exec_unit (Enqueue user room event body html thread_root atts delay)"

text \<open>The backoff of the \<^verbatim>\<open>CASE retry_count\<close>, in minutes.\<close>

definition backoff_minutes :: "nat \<Rightarrow> int" where
  "backoff_minutes n = (if n = 1 then 1 else if n = 2 then 2 else if n = 3 then 4
     else if n = 4 then 8 else if n = 5 then 16 else if n = 6 then 32
     else if n = 7 then 64 else if n = 8 then 128 else 256)"

definition eligible :: "int \<Rightarrow> outbound_row \<Rightarrow> bool" where
  "eligible t r \<longleftrightarrow> om_retry r < 10 \<and> release_at r \<le> t \<and>
     (om_retry r = 0 \<or> last_retry_at r < t - 60 * backoff_minutes (om_retry r))"

text \<open>
  The query has a limit and no order: which of the rows it returns is up to the database. It reads
  the clock of its own statement.
\<close>

definition pick :: "(nat \<Rightarrow> nat) \<Rightarrow> int \<Rightarrow> db \<Rightarrow> outbound_row list" where
  "pick rank t d = take 10 (sort_key (rank \<circ> om_id) (filter (eligible t) (t_outbound d)))"

definition get_pending_outbound :: "outbound_message list act" where
  "get_pending_outbound =
     bind (query id) (\<lambda>d. bind now (\<lambda>t. bind (gets w_step) (\<lambda>k. bind (asks (\<lambda>E. e_scan (e_net E) k)) (\<lambda>rank.
     ret (map outbound_message.truncate (pick rank t d))))))"

lemma pending_eq: "get_pending_outbound E w = (case e_fault (e_net E) (w_step w) of
     Some m \<Rightarrow> Err (Sqlx m)
   | None \<Rightarrow> Ok (map outbound_message.truncate (pick (e_scan (e_net E) (w_step (tick E w))) (w_clock (tick E w)) (w_db w))), tick E w)"
  by (simp add: get_pending_outbound_def bind_def query_def now_def gets_def asks_def ret_def Let_def split: option.split)

lemma pending_Ok:
  assumes "get_pending_outbound E w = (Ok ms, w')"
  shows "w' = tick E w \<and> (\<exists>rank. ms = map outbound_message.truncate (pick rank (w_clock w') (w_db w)))"
  using assms by (auto simp: pending_eq split: option.splits)

lemma picked: "r \<in> set (pick rank t d) \<Longrightarrow> r \<in> set (t_outbound d) \<and> eligible t r"
  by (auto simp: pick_def dest: in_set_takeD)

lemma pick_length: "length (pick rank t d) \<le> 10"
  by (simp add: pick_def)

lemma distinct_sorted: "distinct (map f xs) \<Longrightarrow> distinct (map f (sort_key g xs))"
  by (simp add: distinct_map)

lemma pick_distinct: "unique_key om_id (t_outbound d) \<Longrightarrow> distinct (map om_id (pick rank t d))"
  by (simp add: pick_def unique_key_def take_map [symmetric] distinct_take distinct_sorted distinct_map_filter)

definition cancel_outbound_by_event :: "event_id \<Rightarrow> bool act" where
  "cancel_outbound_by_event event = exec_changed (CancelByEvent event)"

definition update_outbound_body_by_event :: "event_id \<Rightarrow> string \<Rightarrow> bool act" where
  "update_outbound_body_by_event event new_body = exec_changed (EditByEvent event new_body)"

definition update_retry_count :: "nat \<Rightarrow> unit act" where
  "update_retry_count i = exec_unit (AgeRow i)"

definition remove_from_outbound_queue :: "nat \<Rightarrow> unit act" where
  "remove_from_outbound_queue i = exec_unit (Dequeue i)"

definition clear_outbound_queue :: "mxid \<Rightarrow> unit act" where
  "clear_outbound_queue user = exec_unit (ClearQueue user)"

definition count_outbound_queue :: "mxid \<Rightarrow> nat act" where
  "count_outbound_queue user = query (\<lambda>d. length (filter (\<lambda>r. om_user r = user) (t_outbound d)))"

lemma exec_unit_Ok: "exec_unit s E w = (Ok x, w') \<longleftrightarrow> (\<exists>n. run s E w = (Ok n, w'))"
  by (auto simp: exec_unit_def bind_eq_Ok ret_def)

section \<open>Frames of the store\<close>

lemmas store_writes = save_room_mapping_def save_jmap_state_def delete_jmap_state_def
  claim_transaction_def unclaim_transaction_def release_room_creation_lock_def
  set_bridge_state_def set_thread_subject_def save_thread_mapping_atomic_def
  update_thread_latest_event_def save_room_ghost_mapping_def update_last_email_id_def
  save_message_mapping_def mark_email_destroyed_def clear_user_credentials_def
  set_user_signature_def delete_user_signature_def add_to_outbound_queue_def
  cancel_outbound_by_event_def update_outbound_body_by_event_def update_retry_count_def
  remove_from_outbound_queue_def clear_outbound_queue_def set_last_sync_def set_send_delay_def
  set_user_email_def set_email_space_room_def exec_unit_def exec_changed_def

lemmas store_reads = get_room_id_def get_jmap_state_def get_bridge_state_def get_thread_subject_def
  get_thread_info_def get_jmap_thread_id_by_root_event_def get_latest_thread_in_room_def
  get_ghost_email_by_room_def get_room_by_ghost_def has_message_mapped_def
  get_event_id_by_email_def get_email_id_from_event_id_def get_latest_email_id_by_room_def
  count_bridged_rooms_def get_user_room_ids_def get_last_sync_def get_user_email_def
  get_email_space_room_def get_user_signature_def count_outbound_queue_def

lemma store_write_evolves [frame_rules]:
  "K (LDb (PutMailbox m r)) \<Longrightarrow> within (evolves K) (save_room_mapping m r)"
  "K (LDb (PutKv u k v)) \<Longrightarrow> within (evolves K) (save_jmap_state u k v)"
  "K (LDb (DelKv u k)) \<Longrightarrow> within (evolves K) (delete_jmap_state u k)"
  "K (LDb (ClaimTxn t)) \<Longrightarrow> within (evolves K) (claim_transaction t)"
  "K (LDb (UnclaimTxn t)) \<Longrightarrow> within (evolves K) (unclaim_transaction t)"
  "K (LDb (DropLock k)) \<Longrightarrow> within (evolves K) (release_room_creation_lock k)"
  "K (LDb (PutBridge k v)) \<Longrightarrow> within (evolves K) (set_bridge_state k v)"
  "K (LDb (PutSubject e s)) \<Longrightarrow> within (evolves K) (set_thread_subject e s)"
  "K (LDb (PutThreadAndSubject th e r s)) \<Longrightarrow> within (evolves K) (save_thread_mapping_atomic th e r s)"
  "K (LDb (SetLatest th e)) \<Longrightarrow> within (evolves K) (update_thread_latest_event th e)"
  "K (LDb (PutGhost r a u)) \<Longrightarrow> within (evolves K) (save_room_ghost_mapping r a u)"
  "K (LDb (SetLastEmail r i)) \<Longrightarrow> within (evolves K) (update_last_email_id r i)"
  "K (LDb (PutMessage i e)) \<Longrightarrow> within (evolves K) (save_message_mapping i e)"
  "K (LDb (MarkDestroyed i)) \<Longrightarrow> within (evolves K) (mark_email_destroyed i)"
  "K (LDb (BlankToken u)) \<Longrightarrow> within (evolves K) (clear_user_credentials u)"
  "K (LDb (PutSig u s)) \<Longrightarrow> within (evolves K) (set_user_signature u s)"
  "K (LDb (DelSig u)) \<Longrightarrow> within (evolves K) (delete_user_signature u)"
  "K (LDb (Enqueue u r e b h ro as dl)) \<Longrightarrow> within (evolves K) (add_to_outbound_queue u r e b h ro as dl)"
  "K (LDb (CancelByEvent e)) \<Longrightarrow> within (evolves K) (cancel_outbound_by_event e)"
  "K (LDb (EditByEvent e b)) \<Longrightarrow> within (evolves K) (update_outbound_body_by_event e b)"
  "K (LDb (AgeRow n)) \<Longrightarrow> within (evolves K) (update_retry_count n)"
  "K (LDb (Dequeue n)) \<Longrightarrow> within (evolves K) (remove_from_outbound_queue n)"
  "K (LDb (ClearQueue u)) \<Longrightarrow> within (evolves K) (clear_outbound_queue u)"
  "K (LDb (PutKv u ''last_sync_at'' v)) \<Longrightarrow> within (evolves K) (set_last_sync u v)"
  "K (LDb (PutKv u ''send_delay_seconds'' (show_int z))) \<Longrightarrow> within (evolves K) (set_send_delay u z)"
  "K (LDb (PutKv u ''user_email'' v)) \<Longrightarrow> within (evolves K) (set_user_email u v)"
  "K (LDb (PutKv u ''email_space_room'' v)) \<Longrightarrow> within (evolves K) (set_email_space_room u v)"
  unfolding store_writes by (intro frame_rules; assumption)+

lemma store_read_evolves [frame_rules]:
  "within (evolves K) (get_room_id m)" "within (evolves K) (get_jmap_state u k)"
  "within (evolves K) (get_bridge_state k)" "within (evolves K) (get_thread_subject e)"
  "within (evolves K) (get_thread_info th)" "within (evolves K) (get_jmap_thread_id_by_root_event e)"
  "within (evolves K) (get_latest_thread_in_room r)" "within (evolves K) (get_ghost_email_by_room r)"
  "within (evolves K) (get_room_by_ghost a u)" "within (evolves K) (has_message_mapped i)"
  "within (evolves K) (get_event_id_by_email i)" "within (evolves K) (get_email_id_from_event_id e)"
  "within (evolves K) (get_latest_email_id_by_room r)" "within (evolves K) (count_bridged_rooms u)"
  "within (evolves K) (get_user_room_ids u)" "within (evolves K) (get_last_sync u)"
  "within (evolves K) (get_user_email u)" "within (evolves K) (get_email_space_room u)"
  "within (evolves K) (get_user_signature u)" "within (evolves K) (count_outbound_queue u)"
  unfolding store_reads by (intro frame_rules)+

lemma sealed_evolves [frame_rules]: "within (evolves K) (sealed c s)"
  unfolding sealed_def by (intro frame_rules)

lemma unsealed_evolves [frame_rules]: "within (evolves K) (unsealed c s)"
  unfolding unsealed_def by (intro frame_rules)

lemma traverse_evolves [frame_rules]:
  "(\<And>x. within (evolves K) (f x)) \<Longrightarrow> within (evolves K) (traverse f xs)"
  by (induction xs) (auto intro!: frame_rules)

lemma decrypt_user_evolves [frame_rules]: "within (evolves K) (decrypt_user u)"
  unfolding decrypt_user_def by (intro frame_rules)

lemma store_query_evolves [frame_rules]:
  "within (evolves K) (get_last_email_id_by_room r)" "within (evolves K) (get_user u)"
  "within (evolves K) get_all_users" "within (evolves K) (get_send_delay u)"
  "within (evolves K) (get_matrix_puppet_token u)" "within (evolves K) get_pending_outbound"
  unfolding get_last_email_id_by_room_def get_user_def get_all_users_def get_send_delay_def
    get_matrix_puppet_token_def get_pending_outbound_def
  by (intro frame_rules)+

lemma try_acquire_evolves [frame_rules]:
  "K (LDb (TakeLock k)) \<Longrightarrow> within (evolves K) (try_acquire_room_creation_lock k)"
  unfolding try_acquire_room_creation_lock_def by (intro frame_rules)

lemma unbridge_evolves [frame_rules]:
  "K (LDb (DelGhost r)) \<Longrightarrow> K (LDb (DelThreadsOfRoom r)) \<Longrightarrow> within (evolves K) (unbridge_room r)"
  unfolding unbridge_room_def exec_unit_def by (intro frame_rules)

lemma save_user_evolves [frame_rules]:
  "(\<And>n t. K (LDb (UpsertUser (u\<lparr>ru_name := n, ru_token := t\<rparr>)))) \<Longrightarrow> within (evolves K) (save_user u)"
  unfolding save_user_def exec_unit_def by (intro frame_rules)

lemma set_puppet_token_evolves [frame_rules]:
  "(\<And>v. K (LDb (PutKv u puppet_token_key v))) \<Longrightarrow> within (evolves K) (set_matrix_puppet_token u t)"
  unfolding set_matrix_puppet_token_def by (intro frame_rules)

text \<open>The store never panics: a failed statement is an error value.\<close>

lemma store_calm [calm_rules]:
  "calm (exec_unit s)" "calm (exec_changed s)" "calm (sealed c x)" "calm (unsealed c x)"
  "calm (claim_transaction x)" "calm prune_old_data" "calm (try_acquire_room_creation_lock k)"
  "calm store_init" "calm (unbridge_room r)" "calm (get_last_email_id_by_room r)"
  "calm (get_send_delay u)" "calm get_pending_outbound"
  unfolding exec_unit_def exec_changed_def sealed_def unsealed_def claim_transaction_def
    prune_old_data_def try_acquire_room_creation_lock_def store_init_def unbridge_room_def
    get_last_email_id_by_room_def get_send_delay_def get_jmap_state_def get_pending_outbound_def
  by (intro calm_rules)+

lemma traverse_calm [calm_rules]: "(\<And>x. calm (f x)) \<Longrightarrow> calm (traverse f xs)"
  by (induction xs) (auto intro!: calm_rules)

lemmas store_unit_writes = save_room_mapping_def save_jmap_state_def delete_jmap_state_def
  unclaim_transaction_def release_room_creation_lock_def set_bridge_state_def
  set_thread_subject_def save_thread_mapping_atomic_def update_thread_latest_event_def
  save_room_ghost_mapping_def update_last_email_id_def save_message_mapping_def
  mark_email_destroyed_def clear_user_credentials_def set_user_signature_def
  delete_user_signature_def add_to_outbound_queue_def cancel_outbound_by_event_def
  update_outbound_body_by_event_def update_retry_count_def remove_from_outbound_queue_def
  clear_outbound_queue_def set_last_sync_def set_send_delay_def set_user_email_def
  set_email_space_room_def

lemma store_writes_calm [calm_rules]:
  "calm (save_room_mapping m r)" "calm (save_jmap_state u k v)" "calm (delete_jmap_state u k)"
  "calm (unclaim_transaction t)" "calm (release_room_creation_lock k)" "calm (set_bridge_state k v)"
  "calm (set_thread_subject e s)" "calm (save_thread_mapping_atomic th e r s)"
  "calm (update_thread_latest_event th e)" "calm (save_room_ghost_mapping r a u)"
  "calm (update_last_email_id r i)" "calm (save_message_mapping i e)" "calm (mark_email_destroyed i)"
  "calm (clear_user_credentials u)" "calm (set_user_signature u s)" "calm (delete_user_signature u)"
  "calm (add_to_outbound_queue u r e b h ro as dl)" "calm (cancel_outbound_by_event e)"
  "calm (update_outbound_body_by_event e b)" "calm (update_retry_count n)"
  "calm (remove_from_outbound_queue n)" "calm (clear_outbound_queue u)" "calm (set_last_sync u v)"
  "calm (set_send_delay u z)" "calm (set_user_email u v)" "calm (set_email_space_room u v)"
  unfolding store_unit_writes by (intro calm_rules)+

lemma store_reads_calm [calm_rules]:
  "calm (get_room_id m)" "calm (get_jmap_state u k)" "calm (get_bridge_state k)"
  "calm (get_thread_subject e)" "calm (get_thread_info th)" "calm (get_jmap_thread_id_by_root_event e)"
  "calm (get_latest_thread_in_room r)" "calm (get_ghost_email_by_room r)" "calm (get_room_by_ghost a u)"
  "calm (has_message_mapped i)" "calm (get_event_id_by_email i)" "calm (get_email_id_from_event_id e)"
  "calm (get_latest_email_id_by_room r)" "calm (count_bridged_rooms u)" "calm (get_user_room_ids u)"
  "calm (get_last_sync u)" "calm (get_user_email u)" "calm (get_email_space_room u)"
  "calm (get_user_signature u)" "calm (count_outbound_queue u)"
  unfolding store_reads by (intro calm_rules)+

lemma store_users_calm [calm_rules]:
  "calm (decrypt_user r)" "calm (get_user u)" "calm get_all_users" "calm (save_user r)"
  "calm (set_matrix_puppet_token u x)" "calm (get_matrix_puppet_token u)"
  unfolding decrypt_user_def get_user_def get_all_users_def save_user_def
    set_matrix_puppet_token_def get_matrix_puppet_token_def get_jmap_state_def save_jmap_state_def
    exec_unit_def
  by (intro calm_rules traverse_calm; simp add: decrypt_user_def; intro calm_rules)+

end
