(* ===== verification/Samples.thy ===== *)
theory Samples
  imports Actions
begin

text \<open>
  A concrete environment and a concrete world on which the properties are instantiated: a
  homeserver that answers nothing, a JMAP server that answers nothing, no key, one registered
  user with one queued message.
\<close>

definition quiet_answers :: answers where
  "quiet_answers = \<lparr>e_fault = \<lambda>_. None, e_tick = \<lambda>_. 1, e_scan = \<lambda>_. id, e_uuid = \<lambda>_. ''u'', e_nonce = \<lambda>_. replicate 12 CHR ''n'',
     e_mx = \<lambda>_ _. HttpErr ''down'', e_connect = \<lambda>_. Inl ''down'', e_blob = \<lambda>_. HttpErr ''down'',
     e_fetch = \<lambda>_. HttpErr ''down'', e_dns = \<lambda>_. None, e_upload = \<lambda>_. Inl ''down''\<rparr>"

definition quiet_jmap :: jmap_answers where
  "quiet_jmap = \<lparr>e_ids = \<lambda>_. JNoResponse, e_mailboxes = \<lambda>_. JNoResponse, e_state = \<lambda>_. JNoResponse,
     e_changes = \<lambda>_. JNoResponse, e_threads = \<lambda>_. JNoResponse, e_emails = \<lambda>_. JNoResponse,
     e_query = \<lambda>_. JNoResponse, e_identities = \<lambda>_. JNoResponse, e_set = \<lambda>_. Some ''down'',
     e_submit = \<lambda>_. Inl ''down''\<rparr>"

definition plain_crates :: crates where
  "plain_crates = \<lparr>l_user_ok = \<lambda>_. True, l_room_ok = \<lambda>_. True, l_event_ok = \<lambda>_. True,
     l_localpart = id, l_resp = \<lambda>_ b. Inr b, l_status = \<lambda>_. ''500'', l_json = \<lambda>_. None,
     l_show_json = \<lambda>_. [], l_mxc_ok = \<lambda>_. True, l_atts_json = \<lambda>_. [], l_atts_parse = \<lambda>_. None,
     l_strip_fallback = id, l_lower = id, l_strftime = \<lambda>_ _. None, l_now_text = \<lambda>_. [],
     l_sub_window = \<lambda>_ _. None, l_html2text = Some, l_sanitize = \<lambda>_. id,
     l_percent = \<lambda>_. id, l_extend_path = \<lambda>u _. Inr u, l_url = \<lambda>_. None, l_join = \<lambda>_ _. None\<rparr>"

definition identity_ciphers :: ciphers where
  "identity_ciphers = \<lparr>l_seal = \<lambda>_ _ t. Some t, l_open = \<lambda>_ _ t. Some t, l_b64 = id, l_unb64 = Some,
     l_hmac = \<lambda>_ _. []\<rparr>"

definition sample_config :: config where
  "sample_config = \<lparr>c_domain = ''x.org'', c_homeserver = ''http://hs'', c_key = None, c_hs_token = ''hs'',
     c_secret = None, c_perms = [], c_sync_limit = 50, c_bridge_mailboxes = False,
     c_render_mode = RenderRich, c_quote_replies = True, c_send_delay = 0, c_window = None\<rparr>"

definition sample_env :: env where
  "sample_env = \<lparr>e_net = quiet_answers, e_jmap = quiet_jmap, e_lib = plain_crates,
     e_crypt = identity_ciphers, e_cfg = sample_config, e_fuel = 10\<rparr>"

definition sample_row :: outbound_row where
  "sample_row = \<lparr>om_id = 1, om_user = ''@a:x.org'', om_room = ''!r:x.org'', om_event = ''$e'',
     om_body = ''hello'', om_html = None, om_thread = None, om_atts = None, om_retry = 9,
     release_at = 0, last_retry_at = 15300\<rparr>"

definition sample_user :: registered_user where
  "sample_user = \<lparr>ru_mxid = ''@a:x.org'', ru_name = ''a'', ru_token = ''t'', ru_url = ''https://j''\<rparr>"

definition sample_db :: db where
  "sample_db = empty_db\<lparr>t_users := [sample_user], t_outbound := [sample_row], t_next_id := 2\<rparr>"

definition sample_world :: world where
  "sample_world = \<lparr>w_db = sample_db, w_step = 0, w_clock = 40000, w_trace = [], w_clients = [],
     w_pollers = [], w_logins = [], w_puppets = [], w_tasks = []\<rparr>"

definition sample_client :: jclient where
  "sample_client = \<lparr>jc_cred_user = ''a'', jc_cred_token = ''t'', jc_url = ''https://j'', jc_username = ''a@x.org'',
     jc_account = ''A'', jc_download_url = ''https://j/{blobId}'', jc_max_upload = None\<rparr>"

definition sample_email :: email where
  "sample_email = \<lparr>em_id = Some ''M1'', em_thread = Some ''T1'', em_subject = Some ''Hi'',
     em_from = Some [\<lparr>ea_name = None, ea_email = ''b@y.org''\<rparr>], em_to = None, em_cc = None,
     em_received = Some 0, em_sent = None, em_message_id = None, em_keywords = [], em_text_body = None,
     em_html_body = None, em_values = [], em_attachments = None\<rparr>"

lemmas sample_defs = quiet_answers_def quiet_jmap_def plain_crates_def identity_ciphers_def
  sample_config_def sample_env_def sample_row_def sample_user_def sample_db_def sample_world_def

lemma sample_db_ok [simp]: "db_ok sample_db"
  by (simp add: sample_defs empty_db_def db_ok_def keys_ok_def fks_ok_def ids_ok_def unique_key_def
      user_exists_def)

end
