(* ===== verification/Contracts.thy ===== *)
theory Contracts
  imports Store Samples
begin

text \<open>
  The contracts the components rely on when they use the store: a table of keys and values, and
  a set of claims of which one task at a time can take each. Both are stated as locales, a
  key-value table gives a set of claims, and the tables of the bridge are interpretations.
\<close>

section \<open>The interfaces\<close>

locale key_value =
  fixes lookup :: "'d \<Rightarrow> 'k \<Rightarrow> 'v option"
    and put :: "'k \<Rightarrow> 'v \<Rightarrow> 'd \<Rightarrow> 'd"
    and del :: "'k \<Rightarrow> 'd \<Rightarrow> 'd"
  assumes lookup_put: "lookup (put k v d) = (lookup d)(k \<mapsto> v)"
    and lookup_del: "lookup (del k d) = (lookup d)(k := None)"
begin

lemma put_same: "lookup (put k v d) k = Some v"
  by (simp add: lookup_put)

lemma put_other: "k' \<noteq> k \<Longrightarrow> lookup (put k v d) k' = lookup d k'"
  by (simp add: lookup_put)

lemma del_same: "lookup (del k d) k = None"
  by (simp add: lookup_del)

lemma del_other: "k' \<noteq> k \<Longrightarrow> lookup (del k d) k' = lookup d k'"
  by (simp add: lookup_del)

lemma last_put_wins: "lookup (put k v (put k v' d)) = lookup (put k v d)"
  by (simp add: lookup_put)

lemma del_undoes_put: "lookup d k = None \<Longrightarrow> lookup (del k (put k v d)) = lookup d"
  by (simp add: lookup_put lookup_del fun_upd_idem)

text \<open>The keys that a run of puts and deletions ends with.\<close>

lemma foldr_put: "lookup (foldr (\<lambda>(k, v). put k v) kvs d) = (\<lambda>k. case map_of kvs k of Some v \<Rightarrow> Some v | None \<Rightarrow> lookup d k)"
  by (induction kvs) (auto simp: lookup_put fun_eq_iff)

end

locale mutex =
  fixes held :: "'d \<Rightarrow> 'k set"
    and acquire :: "'k \<Rightarrow> 'd \<Rightarrow> 'd option"
    and release :: "'k \<Rightarrow> 'd \<Rightarrow> 'd"
  assumes acquire_held: "k \<in> held d \<Longrightarrow> acquire k d = None"
    and acquire_free: "k \<notin> held d \<Longrightarrow> \<exists>d'. acquire k d = Some d' \<and> held d' = insert k (held d)"
    and release_held: "held (release k d) = held d - {k}"
begin

lemma acquired: "acquire k d = Some d' \<Longrightarrow> k \<notin> held d \<and> held d' = insert k (held d)"
  using acquire_held acquire_free by (cases "k \<in> held d") force+

lemma second_refused: "acquire k d = Some d' \<Longrightarrow> held d' \<subseteq> held d2 \<Longrightarrow> acquire k d2 = None"
  using acquired acquire_held by blast

lemma free_after_release: "acquire k (release k d) \<noteq> None"
  using acquire_free [of k "release k d"] by (auto simp: release_held)

lemma others_untouched: "acquire k d = Some d' \<Longrightarrow> j \<noteq> k \<Longrightarrow> j \<in> held d' \<longleftrightarrow> j \<in> held d"
  using acquired by blast

end

text \<open>A key-value table used as a set of claims: a key is taken by inserting it once.\<close>

locale claims = key_value lookup put del
  for lookup :: "'d \<Rightarrow> 'k \<Rightarrow> 'v option" and put and del +
  fixes stamp :: 'v
begin

lemma claim_held: "dom (lookup (put k stamp d)) = insert k (dom (lookup d))"
  by (simp add: lookup_put)

end

sublocale claims \<subseteq> mutex "\<lambda>d. dom (lookup d)" "\<lambda>k d. if lookup d k = None then Some (put k stamp d) else None" del
  by unfold_locales (auto simp: lookup_put lookup_del claim_held domIff)

section \<open>The tables\<close>

definition kv_map :: "db \<Rightarrow> mxid \<times> string \<Rightarrow> string option" where
  "kv_map d p = map_option sr_val (find_row (\<lambda>r. sr_pk r = p) (t_state d))"

definition kv_put :: "mxid \<times> string \<Rightarrow> string \<Rightarrow> db \<Rightarrow> db" where
  "kv_put p v d = d\<lparr>t_state := put_row sr_pk \<lparr>sr_user = fst p, sr_key = snd p, sr_val = v\<rparr> (t_state d)\<rparr>"

definition kv_del :: "mxid \<times> string \<Rightarrow> db \<Rightarrow> db" where
  "kv_del p d = d\<lparr>t_state := drop_rows (\<lambda>r. sr_pk r = p) (t_state d)\<rparr>"

lemma find_put_row: "find_row (\<lambda>r. key r = k) (put_row key x t) = (if k = key x then Some x else find_row (\<lambda>r. key r = k) t)"
  by (auto simp: find_row_put_same find_row_put_other)

lemma find_drop_row: "find_row (\<lambda>r. key r = k) (drop_rows (\<lambda>r. key r = j) t) = (if k = j then None else find_row (\<lambda>r. key r = k) t)"
  by (cases "k = j") (auto intro: find_row_drop_other)

interpretation kv: key_value kv_map kv_put kv_del
  by unfold_locales
    (auto simp: kv_map_def kv_put_def kv_del_def find_put_row find_drop_row sr_pk_def [of "state_row_ext _ _ _ _"] fun_eq_iff)

definition bridge_map :: "db \<Rightarrow> string \<Rightarrow> string option" where
  "bridge_map d k = map_option snd (find_row (\<lambda>r. fst r = k) (t_bridge d))"

definition bridge_put :: "string \<Rightarrow> string \<Rightarrow> db \<Rightarrow> db" where
  "bridge_put k v d = d\<lparr>t_bridge := put_row fst (k, v) (t_bridge d)\<rparr>"

definition bridge_del :: "string \<Rightarrow> db \<Rightarrow> db" where
  "bridge_del k d = d\<lparr>t_bridge := drop_rows (\<lambda>r. fst r = k) (t_bridge d)\<rparr>"

interpretation bridge: key_value bridge_map bridge_put bridge_del
  by unfold_locales (auto simp: bridge_map_def bridge_put_def bridge_del_def find_put_row find_drop_row fun_eq_iff)

definition txn_map :: "db \<Rightarrow> string \<Rightarrow> int option" where
  "txn_map d k = map_option snd (find_row (\<lambda>r. fst r = k) (t_txns d))"

definition txn_put :: "string \<Rightarrow> int \<Rightarrow> db \<Rightarrow> db" where
  "txn_put k t d = d\<lparr>t_txns := put_row fst (k, t) (t_txns d)\<rparr>"

definition txn_del :: "string \<Rightarrow> db \<Rightarrow> db" where
  "txn_del k d = d\<lparr>t_txns := drop_rows (\<lambda>r. fst r = k) (t_txns d)\<rparr>"

interpretation txns: claims txn_map txn_put txn_del t for t
  by unfold_locales (auto simp: txn_map_def txn_put_def txn_del_def find_put_row find_drop_row fun_eq_iff)

definition lock_acquire :: "string \<Rightarrow> db \<Rightarrow> db option" where
  "lock_acquire k d = (case exec 0 (TakeLock k) d of Inl _ \<Rightarrow> None | Inr (_, d') \<Rightarrow> Some d')"

definition lock_release :: "string \<Rightarrow> db \<Rightarrow> db" where
  "lock_release k d = (case exec 0 (DropLock k) d of Inl _ \<Rightarrow> d | Inr (_, d') \<Rightarrow> d')"

interpretation locks: mutex "\<lambda>d. set (t_locks d)" lock_acquire lock_release
  by unfold_locales (auto simp: lock_acquire_def lock_release_def set_drop_rows)

section \<open>The store's methods on the tables\<close>

lemma claim_exec:
  "exec t (ClaimTxn k) d = Inr (if txn_map d k = None then (1, txn_put k t d) else (0, d))"
proof -
  have "drop_rows (\<lambda>r. fst r = k) (t_txns d) = t_txns d" if "txn_map d k = None"
    using that by (auto simp: txn_map_def find_row_None drop_rows_id)
  then show ?thesis
    by (auto simp: txn_put_def put_row_def txn_map_def has_row_iff find_row_None)
qed

lemma get_kv: "get_jmap_state u k E w = (case e_fault (e_net E) (w_step w) of
     Some m \<Rightarrow> Err (Sqlx m) | None \<Rightarrow> Ok (kv_map (w_db w) (u, k)), tick E w)"
  by (auto simp: get_jmap_state_def query_def Let_def kv_map_def split: option.split)

text \<open>C24: the key-value rows of the database are a finite map from users and keys to values:
  saving is update, deleting is removal and reading is lookup, each with no effect when the
  statement fails.\<close>

theorem key_value_rows_refine_map:
  "kv_map (w_db (snd (save_jmap_state u k v E w))) =
     (if fst (save_jmap_state u k v E w) = Ok () then (kv_map (w_db w))((u, k) \<mapsto> v) else kv_map (w_db w)) \<and>
   kv_map (w_db (snd (delete_jmap_state u k E w))) =
     (if fst (delete_jmap_state u k E w) = Ok () then (kv_map (w_db w))((u, k) := None) else kv_map (w_db w)) \<and>
   get_jmap_state u k E w = (case e_fault (e_net E) (w_step w) of
     Some m \<Rightarrow> Err (Sqlx m) | None \<Rightarrow> Ok (kv_map (w_db w) (u, k)), tick E w)"
  using kv.lookup_put [of "(u, k)" v "w_db w"] kv.lookup_del [of "(u, k)" "w_db w"]
  by (auto simp: save_jmap_state_def delete_jmap_state_def get_kv exec_unit_def bind_def run_def
      Let_def ret_def kv_put_def kv_del_def split: option.split)

text \<open>A room-creation lock is taken at most once: whoever asks again while the row is there
  is told to wait, and after a release the next one gets it.\<close>

theorem creation_lock_row_is_mutex:
  assumes "e_fault (e_net E) (w_step w) = None"
  shows "fst (try_acquire_room_creation_lock k E w) = Ok (k \<notin> set (t_locks (w_db w))) \<and>
    set (t_locks (w_db (snd (try_acquire_room_creation_lock k E w)))) = insert k (set (t_locks (w_db w))) \<and>
    set (t_locks (w_db (snd (release_room_creation_lock k E w)))) = set (t_locks (w_db w)) - {k}"
proof -
  have "contains unique_failed unique_failed" by code_simp
  then show ?thesis
    using assms locks.acquire_held [of k "w_db w"] locks.acquire_free [of k "w_db w"] locks.release_held [of k "w_db w"]
    by (auto simp: try_acquire_room_creation_lock_def release_room_creation_lock_def exec_unit_def
        lock_acquire_def lock_release_def bind_def attempt_def run_def Let_def ret_def)
qed

theorem creation_lock_row_is_mutex_witness:
  "fst (try_acquire_room_creation_lock ''k'' sample_env sample_world) = Ok True"
proof -
  have "e_fault (e_net sample_env) (w_step sample_world) = None"
    by (simp add: sample_env_def quiet_answers_def)
  from creation_lock_row_is_mutex [OF this, of "''k''", THEN conjunct1] show ?thesis
    by (simp add: sample_world_def sample_db_def empty_db_def)
qed

end
