(* ===== verification/Content_Html.thy ===== *)
theory Content_Html
  imports Rust_Str
begin

text \<open>
  The rewriting of HTML bodies in \<^verbatim>\<open>src/src/services/content.rs\<close>, all of it byte scanning:
  table separators, reply quotes, empty elements, blank runs, breaks, and the images of an
  email. A loop over a byte offset is a recursion on the rest of the text; the functions that
  report offsets carry the offset along.
\<close>

lemma char_len_pos [simp]: "0 < char_len c"
  by (simp add: char_len_def Let_def)

section \<open>Tags\<close>

definition is_blank_byte :: "char \<Rightarrow> bool" where
  "is_blank_byte c \<longleftrightarrow> c \<in> {CHR '' '', CHR 0x09, CHR 0x0A, CHR 0x0D}"

definition tag_boundary :: "char \<Rightarrow> bool" where
  "tag_boundary c \<longleftrightarrow> c = CHR ''>'' \<or> c = CHR ''/'' \<or> is_blank_byte c"

definition starts_ci :: "string \<Rightarrow> string \<Rightarrow> bool" where
  "starts_ci s p \<longleftrightarrow> length p \<le> length s \<and> eq_ignore_ascii_case (take (length p) s) p"

definition starts_tag :: "string \<Rightarrow> string \<Rightarrow> bool" where
  "starts_tag rest nm \<longleftrightarrow> starts_ci rest nm \<and>
     (case drop (length nm) rest of [] \<Rightarrow> True | c # _ \<Rightarrow> tag_boundary c)"

text \<open>\<^verbatim>\<open>find_ci\<close> from the start of the text; callers with an offset drop it first.\<close>

fun find_ci :: "string \<Rightarrow> string \<Rightarrow> nat option" where
  "find_ci [] needle = None"
| "find_ci (c # s) needle = (if needle \<noteq> [] \<and> starts_ci (c # s) needle then Some 0
     else map_option Suc (find_ci s needle))"

lemma find_ci_bound: "find_ci s n = Some i \<Longrightarrow> n \<noteq> [] \<and> i + length n \<le> length s"
  by (induction s arbitrary: i) (auto simp: starts_ci_def split: if_splits)

text \<open>The length of the tag a text begins with, or of all of it when no \<^verbatim>\<open>>\<close> follows.\<close>

definition tag_len :: "string \<Rightarrow> nat" where
  "tag_len s = (case str_find s ''>'' of Some g \<Rightarrow> g + 1 | None \<Rightarrow> length s)"

lemma tag_len_pos [simp]: "0 < tag_len (c # s)"
  by (simp add: tag_len_def split: option.split)

lemma tag_len_nonempty: "s \<noteq> [] \<Longrightarrow> 0 < tag_len s"
  by (cases s) auto

definition html_tags :: "string list" where
  "html_tags = [''<div'', ''<p>'', ''<p '', ''<br'', ''<a '', ''<a>'', ''<table'', ''<td'', ''<tr'',
     ''<span'', ''<img'', ''<ul'', ''<ol'', ''<li'', ''<blockquote'', ''<figure'', ''<h1'', ''<h2'',
     ''<h3'', ''<h4'', ''<strong'', ''<em>'', ''<b>'', ''<i>'', ''<html'', ''<body'', ''<head'',
     ''<style'', ''<font'', ''<center'']"

definition looks_like_html :: "string \<Rightarrow> bool" where
  "looks_like_html s = list_ex (\<lambda>t. find_ci s t \<noteq> None) html_tags"

section \<open>Tables\<close>

definition ascii_ws :: "char \<Rightarrow> bool" where
  "ascii_ws c \<longleftrightarrow> is_blank_byte c \<or> c = CHR 0x0C"

function next_is_div_open :: "string \<Rightarrow> bool" where
  "next_is_div_open s = (let rest = dropWhile ascii_ws s in
     if starts_with rest ''<!--'' then
       next_is_div_open (case str_find rest ''-->'' of Some p \<Rightarrow> drop (p + 3) rest | None \<Rightarrow> [])
     else starts_tag rest ''<div'')"
  by pat_completeness auto
termination
proof (relation "measure length")
  fix s rest
  assume "rest = dropWhile ascii_ws s" and "starts_with rest ''<!--''"
  then have "length rest \<le> length s" "rest \<noteq> []"
    using length_dropWhile_le [of ascii_ws s] by (force simp: starts_with_def)+
  then show "((case str_find rest ''-->'' of Some p \<Rightarrow> drop (p + 3) rest | None \<Rightarrow> []), s) \<in> measure length"
    by (cases rest) (auto split: option.split)
qed simp

definition table_open_tags :: "string list" where
  "table_open_tags = [''<table'', ''<tbody'', ''<thead'', ''<tfoot'', ''<tr'', ''<td'', ''<th'',
     ''<caption'', ''<col'', ''<colgroup'']"

definition row_close_tags :: "string list" where
  "row_close_tags = [''</tr'', ''</table'', ''</tbody'', ''</thead'', ''</tfoot'', ''</caption'']"

definition table_piece :: "bool \<Rightarrow> string \<Rightarrow> string" where
  "table_piece break_divs rest =
     (let tag = take (tag_len rest) rest; after = drop (tag_len rest) rest in
      if starts_tag rest ''</td'' \<or> starts_tag rest ''</th'' then '' ''
      else if list_ex (starts_tag rest) row_close_tags then ''<br>''
      else if break_divs \<and> starts_tag rest ''</div''
        then (if next_is_div_open after then ''<br><br>'' else ''<br>'')
      else if break_divs \<and> starts_tag rest ''<div'' then []
      else if list_ex (starts_tag rest) table_open_tags then []
      else tag)"

function separate_table_blocks :: "bool \<Rightarrow> string \<Rightarrow> string" where
  "separate_table_blocks break_divs s = (case s of
     [] \<Rightarrow> []
   | c # _ \<Rightarrow>
       if c \<noteq> CHR ''<''
       then take (char_len c) s @ separate_table_blocks break_divs (drop (char_len c) s)
       else table_piece break_divs s @ separate_table_blocks break_divs (drop (tag_len s) s))"
  by pat_completeness auto
termination by (relation "measure (length \<circ> snd)") auto

declare separate_table_blocks.simps [simp del]

section \<open>Breaks beside blocks\<close>

definition heading_tags :: "string list" where
  "heading_tags = [''h1'', ''h2'', ''h3'', ''h4'', ''h5'', ''h6'']"

definition block_tags :: "string list" where
  "block_tags = [''p'', ''h1'', ''h2'', ''h3'', ''h4'', ''h5'', ''h6'', ''ul'', ''ol'', ''li'',
     ''blockquote'', ''pre'', ''hr'', ''details'', ''summary'']"

fun tag_word :: "string \<Rightarrow> string" where
  "tag_word [] = []"
| "tag_word (c # s) = (if ws_len (c # s) \<noteq> 0 \<or> c = CHR ''/'' \<or> c = CHR ''>'' then []
     else c # tag_word s)"

definition tag_name :: "string \<Rightarrow> string" where
  "tag_name inner = to_ascii_lowercase (tag_word (trim_start_matches inner ''/''))"

definition last_tag_name :: "string \<Rightarrow> string option" where
  "last_tag_name out = (let t = trim_end out in
     if ends_with t ''>'' then
       map_option (\<lambda>op. tag_name (take (length t - 1 - (op + 1)) (drop (op + 1) t))) (rfind_in {CHR ''<''} t)
     else None)"

definition first_tag_name :: "string \<Rightarrow> string option" where
  "first_tag_name rest = (let r = trim_start rest in
     case strip_prefix r ''<'' of None \<Rightarrow> None
     | Some s \<Rightarrow> map_option (\<lambda>close. tag_name (take close s)) (str_find s ''>''))"

text \<open>How many bytes a run of breaks at the start of the text takes; 0 when there is none.\<close>

function br_run :: "string \<Rightarrow> nat" where
  "br_run s = (let k = length (takeWhile is_blank_byte s) in
     if starts_with (drop k s) ''<br>'' then k + 4 + br_run (drop (k + 4) s) else 0)"
  by pat_completeness auto
termination
proof (relation "measure length")
  fix s :: string and k :: nat
  assume "starts_with (drop k s) ''<br>''"
  then have "k < length s" by (cases "k < length s") (auto simp: starts_with_def)
  then show "(drop (k + 4) s, s) \<in> measure length" by simp
qed simp

declare br_run.simps [simp del]

definition names_in :: "string option \<Rightarrow> string list \<Rightarrow> bool" where
  "names_in n tags = (case n of None \<Rightarrow> False | Some x \<Rightarrow> List.member tags x)"

definition keeps_break :: "string \<Rightarrow> string \<Rightarrow> bool" where
  "keeps_break out rest \<longleftrightarrow>
     (let before = last_tag_name out; after = first_tag_name rest in
      names_in before heading_tags \<or> names_in after heading_tags \<or>
      \<not> (names_in before block_tags \<or> names_in after block_tags))"

function strip_adjacent :: "string \<Rightarrow> string \<Rightarrow> string" where
  "strip_adjacent out s = (case s of
     [] \<Rightarrow> out
   | c # _ \<Rightarrow>
       let n = br_run s in
       if 0 < n then strip_adjacent (if keeps_break out (drop n s) then out @ take n s else out) (drop n s)
       else strip_adjacent (out @ take (char_len c) s) (drop (char_len c) s))"
  by pat_completeness auto
termination by (relation "measure (length \<circ> snd)") auto

declare strip_adjacent.simps [simp del]

definition strip_block_adjacent_breaks :: "string \<Rightarrow> string" where
  "strip_block_adjacent_breaks s = strip_adjacent [] s"

section \<open>Blank runs\<close>

definition nbsp_entities :: "string list" where
  "nbsp_entities = [''&nbsp;'', ''&#160;'', ''&#xA0;'', ''&#xa0;'']"

definition blank_unit_len :: "string \<Rightarrow> nat option" where
  "blank_unit_len s = (if ws_len s \<noteq> 0 then Some (ws_len s)
     else map_option length (find (starts_with s) nbsp_entities))"

lemma blank_unit_len_pos: "blank_unit_len s = Some n \<Longrightarrow> 0 < n \<and> s \<noteq> []"
  by (auto simp: blank_unit_len_def nbsp_entities_def starts_with_def split: if_splits)

text \<open>How many bytes, and how many units, of blank content a text begins with.\<close>

function blank_run :: "string \<Rightarrow> nat \<times> nat" where
  "blank_run s = (case blank_unit_len s of None \<Rightarrow> (0, 0)
     | Some n \<Rightarrow> (case blank_run (drop n s) of (k, u) \<Rightarrow> (n + k, u + 1)))"
  by pat_completeness auto
termination by (relation "measure length") (auto dest: blank_unit_len_pos)

declare blank_run.simps [simp del]

lemma blank_run_pos: "0 < snd (blank_run s) \<Longrightarrow> 0 < fst (blank_run s)"
  by (subst (asm) blank_run.simps, subst blank_run.simps)
    (auto split: option.splits prod.splits dest: blank_unit_len_pos)

function collapse_blank_runs :: "string \<Rightarrow> string" where
  "collapse_blank_runs s = (case s of
     [] \<Rightarrow> []
   | c # _ \<Rightarrow> (case blank_run s of (k, u) \<Rightarrow>
       if 0 < u then (if 2 \<le> u then '' '' else take k s) @ collapse_blank_runs (drop k s)
       else take (char_len c) s @ collapse_blank_runs (drop (char_len c) s)))"
  by pat_completeness auto
termination
proof (relation "measure length")
  fix s and c :: char and xs k u
  assume "s = c # xs" "(k, u) = blank_run s" "(0::nat) < u"
  then show "(drop k s, s) \<in> measure length" using blank_run_pos [of s]
    by (cases "blank_run s") auto
qed auto

declare collapse_blank_runs.simps [simp del]

section \<open>Empty elements\<close>

definition prunable_tags :: "string list" where
  "prunable_tags = [''a'', ''h1'', ''h2'', ''h3'', ''h4'', ''h5'', ''h6'', ''p'', ''span'', ''div'', ''b'', ''i'',
     ''u'', ''strong'', ''em'', ''s'', ''del'', ''sub'', ''sup'', ''code'', ''blockquote'', ''ul'', ''ol'', ''li'',
     ''pre'', ''details'', ''summary'', ''caption'']"

definition prunable_open_name :: "string \<Rightarrow> string option" where
  "prunable_open_name rest = (if starts_with rest ''</'' then None
     else find (\<lambda>n. starts_tag rest (CHR ''<'' # n)) prunable_tags)"

definition drop_entity :: "string \<Rightarrow> string \<Rightarrow> string" where
  "drop_entity s ent = (if starts_with s ent then drop (length ent) s else s)"

text \<open>What follows the blank content a text begins with.\<close>

function skip_blank :: "string \<Rightarrow> string" where
  "skip_blank s = (let t = foldl drop_entity (trim_start s) nbsp_entities in
     if length t < length s then skip_blank t else s)"
  by pat_completeness auto
termination by (relation "measure length") auto

declare skip_blank.simps [simp del]

lemma length_drop_entity: "length (foldl drop_entity s es) \<le> length s"
proof (induction es arbitrary: s)
  case (Cons e es)
  have "length (foldl drop_entity (drop_entity s e) es) \<le> length (drop_entity s e)" by (rule Cons.IH)
  also have "\<dots> \<le> length s" by (simp add: drop_entity_def)
  finally show ?case by simp
qed simp

lemma length_skip_blank: "length (skip_blank s) \<le> length s"
proof (induction s rule: skip_blank.induct)
  case (1 s)
  then show ?case by (subst skip_blank.simps) (auto simp: Let_def intro: le_trans less_imp_le)
qed

text \<open>What follows the element a text begins with, when that is an empty prunable one.\<close>

definition after_empty :: "string \<Rightarrow> string option" where
  "after_empty s = (case prunable_open_name s of
     None \<Rightarrow> None
   | Some nm \<Rightarrow>
       let tail = skip_blank (drop (tag_len s) s); close = ''</'' @ nm in
       if starts_ci tail close \<and> (case drop (length close) tail of [] \<Rightarrow> False | c # _ \<Rightarrow> tag_boundary c)
       then map_option (\<lambda>g. drop (g + 1) tail) (str_find tail ''>'')
       else None)"

lemma after_empty_shorter: "s \<noteq> [] \<Longrightarrow> after_empty s = Some t \<Longrightarrow> length t < length s"
proof -
  assume s: "s \<noteq> []" and t: "after_empty s = Some t"
  have l: "0 < tag_len s" using s by (cases s) auto
  have "length t \<le> length (skip_blank (drop (tag_len s) s))"
    using t by (auto simp: after_empty_def Let_def split: option.splits if_splits)
  also have "\<dots> \<le> length (drop (tag_len s) s)" by (rule length_skip_blank)
  finally have "length t \<le> length s - tag_len s" by simp
  moreover have "0 < length s" using s by simp
  ultimately show ?thesis using l by arith
qed

function prune_empty_once :: "string \<Rightarrow> string \<times> bool" where
  "prune_empty_once s = (case s of
     [] \<Rightarrow> ([], False)
   | c # _ \<Rightarrow>
       if c \<noteq> CHR ''<''
       then (case prune_empty_once (drop (char_len c) s) of (r, ch) \<Rightarrow> (take (char_len c) s @ r, ch))
       else if str_find s ''>'' = None then (s, False)
       else (case after_empty s of
           Some t \<Rightarrow> (case prune_empty_once t of (r, _) \<Rightarrow> (r, True))
         | None \<Rightarrow> (case prune_empty_once (drop (tag_len s) s) of (r, ch) \<Rightarrow> (take (tag_len s) s @ r, ch))))"
  by pat_completeness auto
termination by (relation "measure length") (auto dest: after_empty_shorter [rotated])

declare prune_empty_once.simps [simp del]

primrec prune_passes :: "nat \<Rightarrow> string \<Rightarrow> string" where
  "prune_passes 0 s = s"
| "prune_passes (Suc n) s = (case prune_empty_once s of (t, changed) \<Rightarrow>
     if changed then prune_passes n t else t)"

definition prune_empty_elements :: "string \<Rightarrow> string" where
  "prune_empty_elements s = prune_passes 32 s"

text \<open>What follows the link a text begins with, when it holds nothing but blanks and breaks.\<close>

function skip_breaks :: "string \<Rightarrow> string" where
  "skip_breaks s = (if starts_with s ''<br>'' then skip_breaks (skip_blank (drop 4 s)) else s)"
  by pat_completeness auto
termination
proof (relation "measure length")
  fix s
  assume "starts_with s ''<br>''"
  then have "4 \<le> length s" by (auto simp: starts_with_def dest: arg_cong [of _ _ length])
  then show "(skip_blank (drop 4 s), s) \<in> measure length"
    using length_skip_blank [of "drop 4 s"] by simp
qed simp

declare skip_breaks.simps [simp del]

lemma length_skip_breaks: "length (skip_breaks s) \<le> length s"
proof (induction s rule: skip_breaks.induct)
  case (1 s)
  have "length (skip_blank (drop 4 s)) \<le> length s" using length_skip_blank [of "drop 4 s"] by simp
  then show ?case using 1 by (subst skip_breaks.simps) auto
qed

definition after_br_link :: "string \<Rightarrow> string option" where
  "after_br_link s = (if starts_tag s ''<a'' then
     (case str_find s ''>'' of None \<Rightarrow> None
      | Some gt \<Rightarrow>
          let tail = skip_breaks (skip_blank (drop (gt + 1) s)) in
          if starts_tag tail ''</a'' then map_option (\<lambda>g. drop (g + 1) tail) (str_find tail ''>'') else None)
     else None)"

lemma after_br_link_shorter: "after_br_link s = Some t \<Longrightarrow> length t < length s \<or> s = []"
proof -
  assume "after_br_link s = Some t"
  then obtain gt g where "t = drop (g + 1) (skip_breaks (skip_blank (drop (gt + 1) s)))"
    by (auto simp: after_br_link_def Let_def split: option.splits if_splits)
  then have "length t \<le> length (skip_breaks (skip_blank (drop (gt + 1) s)))" by simp
  also have "\<dots> \<le> length (drop (gt + 1) s)" using length_skip_breaks length_skip_blank le_trans by blast
  finally show ?thesis by (cases s) auto
qed

function prune_br_only_links :: "string \<Rightarrow> string" where
  "prune_br_only_links s = (case s of
     [] \<Rightarrow> []
   | c # _ \<Rightarrow> (case after_br_link s of
       Some t \<Rightarrow> prune_br_only_links t
     | None \<Rightarrow> take (char_len c) s @ prune_br_only_links (drop (char_len c) s)))"
  by pat_completeness auto
termination by (relation "measure length") (auto dest: after_br_link_shorter)

declare prune_br_only_links.simps [simp del]

section \<open>Paragraphs in list items\<close>

function unwrap_paragraphs :: "nat \<Rightarrow> string \<Rightarrow> string" where
  "unwrap_paragraphs depth s = (case s of
     [] \<Rightarrow> []
   | c # _ \<Rightarrow>
       let tag = take (tag_len s) s; after = drop (tag_len s) s in
       if c \<noteq> CHR ''<'' then take (char_len c) s @ unwrap_paragraphs depth (drop (char_len c) s)
       else if starts_tag s ''<li'' then tag @ unwrap_paragraphs (depth + 1) after
       else if starts_tag s ''</li'' then tag @ unwrap_paragraphs (depth - 1) after
       else if 0 < depth \<and> (starts_tag s ''<p'' \<or> starts_tag s ''</p'') then unwrap_paragraphs depth after
       else tag @ unwrap_paragraphs depth after)"
  by pat_completeness auto
termination by (relation "measure (length \<circ> snd)") (auto simp: Let_def)

declare unwrap_paragraphs.simps [simp del]

definition unwrap_li_paragraphs :: "string \<Rightarrow> string" where
  "unwrap_li_paragraphs s = unwrap_paragraphs 0 s"

section \<open>Reply quotes\<close>

definition is_reply_quote :: "string \<Rightarrow> bool" where
  "is_reply_quote open_tag \<longleftrightarrow> (let t = to_ascii_lowercase open_tag in
     contains t (''type='' @ [CHR 0x22] @ ''cite'' @ [CHR 0x22]) \<or>
     contains t (''type='' @ [CHR 0x27] @ ''cite'' @ [CHR 0x27]) \<or>
     contains t ''type=cite'' \<or> contains t ''_quote'')"

text \<open>What follows the close of \<open>depth\<close> open block quotes.\<close>

function skip_quote :: "nat \<Rightarrow> string \<Rightarrow> string" where
  "skip_quote depth s = (if s = [] \<or> depth = 0 then s
     else case (find_ci s ''<blockquote'', find_ci s ''</blockquote'') of
       (Some o', Some c) \<Rightarrow>
         if o' < c then skip_quote (depth + 1) (drop (o' + 11) s)
         else skip_quote (depth - 1) (drop (tag_len (drop c s)) (drop c s))
     | (None, Some c) \<Rightarrow> skip_quote (depth - 1) (drop (tag_len (drop c s)) (drop c s))
     | (Some o', None) \<Rightarrow> skip_quote (depth + 1) (drop (o' + 11) s)
     | (None, None) \<Rightarrow> [])"
  by pat_completeness auto
termination
proof (relation "measure (length \<circ> snd)")
  have close: "length (drop (tag_len (drop c s)) (drop c s)) < length s"
    if "find_ci s ''</blockquote'' = Some c" for c s
  proof -
    have c: "c < length s" using find_ci_bound [OF that] by simp
    then have "0 < tag_len (drop c s)" by (cases "drop c s") auto
    with c show ?thesis by simp
  qed
  show "\<And>depth s x y o' c. \<not> (s = [] \<or> depth = 0) \<Longrightarrow> (x, y) = (find_ci s ''<blockquote'', find_ci s ''</blockquote'') \<Longrightarrow>
     x = Some o' \<Longrightarrow> y = Some c \<Longrightarrow> \<not> o' < c \<Longrightarrow>
     ((depth - 1, drop (tag_len (drop c s)) (drop c s)), depth, s) \<in> measure (length \<circ> snd)"
    using close by auto
  show "\<And>depth s x y c. \<not> (s = [] \<or> depth = 0) \<Longrightarrow> (x, y) = (find_ci s ''<blockquote'', find_ci s ''</blockquote'') \<Longrightarrow>
     x = None \<Longrightarrow> y = Some c \<Longrightarrow>
     ((depth - 1, drop (tag_len (drop c s)) (drop c s)), depth, s) \<in> measure (length \<circ> snd)"
    using close by auto
qed auto

declare skip_quote.simps [simp del]

lemma length_skip_quote: "length (skip_quote d s) \<le> length s"
proof (induction d s rule: skip_quote.induct)
  case (1 d s)
  then show ?case
    by (subst skip_quote.simps) (fastforce split: option.splits intro: le_trans)
qed

function strip_reply_blockquotes :: "string \<Rightarrow> string" where
  "strip_reply_blockquotes s = (case find_ci s ''<blockquote'' of
     None \<Rightarrow> s
   | Some op \<Rightarrow> (case str_find (drop op s) ''>'' of
       None \<Rightarrow> s
     | Some gt \<Rightarrow>
         if is_reply_quote (take (gt + 1) (drop op s))
         then take op s @ strip_reply_blockquotes (skip_quote 1 (drop (op + gt + 1) s))
         else take (op + gt + 1) s @ strip_reply_blockquotes (drop (op + gt + 1) s)))"
  by pat_completeness auto
termination
proof (relation "measure length")
  fix s op gt
  assume "find_ci s ''<blockquote'' = Some op"
  then have "s \<noteq> []" by auto
  then show "(drop (op + gt + 1) s, s) \<in> measure length"
    and "(skip_quote 1 (drop (op + gt + 1) s), s) \<in> measure length"
    using length_skip_quote [of 1 "drop (op + gt + 1) s"] by (auto simp: le_less_trans)
qed auto

declare strip_reply_blockquotes.simps [simp del]

section \<open>Collapsing breaks\<close>

function break_runs :: "nat \<Rightarrow> string \<Rightarrow> string" where
  "break_runs run s = (case s of
     [] \<Rightarrow> []
   | c # _ \<Rightarrow>
       let j = length (takeWhile is_blank_byte s) in
       if starts_with (drop j s) ''<br>''
       then (if run + 1 \<le> 2 then ''<br>'' else []) @ break_runs (run + 1) (drop (j + 4) s)
       else take (char_len c) s @ break_runs 0 (drop (char_len c) s))"
  by pat_completeness auto
termination by (relation "measure (length \<circ> snd)") (auto simp: Let_def)

declare break_runs.simps [simp del]

function drop_trailing_breaks :: "string \<Rightarrow> string" where
  "drop_trailing_breaks s = (if ends_with s ''<br>'' then drop_trailing_breaks (take (length s - 4) s) else s)"
  by pat_completeness auto
termination
proof (relation "measure length")
  fix s
  assume "ends_with s ''<br>''"
  then have "s \<noteq> []" by (auto simp: ends_with_def starts_with_def)
  then show "(take (length s - 4) s, s) \<in> measure length" by (cases s) auto
qed simp

function drop_leading_breaks :: "string \<Rightarrow> string" where
  "drop_leading_breaks s = (if starts_with s ''<br>'' then drop_leading_breaks (trim_start (drop 4 s)) else s)"
  by pat_completeness auto
termination
proof (relation "measure length")
  fix s
  assume "starts_with s ''<br>''"
  then have "s \<noteq> []" by (auto simp: starts_with_def)
  then show "(trim_start (drop 4 s), s) \<in> measure length"
    using length_trim_start [of "drop 4 s"] by (cases s) auto
qed simp

declare drop_trailing_breaks.simps [simp del] drop_leading_breaks.simps [simp del]

definition collapse_breaks :: "string \<Rightarrow> string" where
  "collapse_breaks s = drop_leading_breaks (trim (drop_trailing_breaks (break_runs 0 s)))"

section \<open>Attributes\<close>

definition attr_boundary :: "char \<Rightarrow> bool" where
  "attr_boundary c \<longleftrightarrow> is_blank_byte c \<or> c = CHR 0x22 \<or> c = CHR 0x27 \<or> c = CHR ''/''"

fun unquoted_len :: "string \<Rightarrow> nat" where
  "unquoted_len [] = 0"
| "unquoted_len (c # s) = (if ws_len (c # s) \<noteq> 0 \<or> c = CHR ''>'' \<or> c = CHR ''/'' then 0
     else Suc (unquoted_len s))"

text \<open>Where the value that starts at offset \<open>k\<close> begins and ends.\<close>

definition attr_value :: "string \<Rightarrow> nat \<Rightarrow> nat \<times> nat" where
  "attr_value tag k = (case drop k tag of
     q # rest \<Rightarrow>
       if q = CHR 0x22 \<or> q = CHR 0x27
       then (k + 1, k + 1 + (case str_find rest [q] of Some e \<Rightarrow> e | None \<Rightarrow> length rest))
       else (k, k + unquoted_len (drop k tag))
   | [] \<Rightarrow> (k, k))"

definition skip_bytes :: "(char \<Rightarrow> bool) \<Rightarrow> string \<Rightarrow> nat \<Rightarrow> nat" where
  "skip_bytes p s k = k + length (takeWhile p (drop k s))"

function tag_attr_from :: "nat \<Rightarrow> string \<Rightarrow> string \<Rightarrow> (string \<times> nat \<times> nat) option" where
  "tag_attr_from k0 tag nm = (case find_ci (drop k0 tag) nm of
     None \<Rightarrow> None
   | Some rel \<Rightarrow>
       let pos = k0 + rel;
           k = skip_bytes (\<lambda>c. c = CHR '' '' \<or> c = CHR 0x09) tag (pos + length nm) in
       if (pos = 0 \<or> attr_boundary (tag ! (pos - 1))) \<and> k < length tag \<and> tag ! k = CHR ''=''
       then (case attr_value tag (skip_bytes is_blank_byte tag (k + 1)) of
           (a, b) \<Rightarrow> Some (take (b - a) (drop a tag), a, b))
       else tag_attr_from (pos + length nm) tag nm)"
  by pat_completeness auto
termination
proof (relation "measure (\<lambda>(k0, tag, _). length tag - k0)")
  fix k0 tag nm rel pos and k :: nat
  assume "find_ci (drop k0 tag) nm = Some rel" "pos = k0 + rel"
  then have "nm \<noteq> []" "rel + length nm \<le> length tag - k0" "pos = k0 + rel"
    using find_ci_bound by fastforce+
  then show "((pos + length nm, tag, nm), k0, tag, nm) \<in> measure (\<lambda>(k0, tag, _). length tag - k0)"
    by (cases nm) auto
qed simp

declare tag_attr_from.simps [simp del]

definition tag_attr :: "string \<Rightarrow> string \<Rightarrow> (string \<times> nat \<times> nat) option" where
  "tag_attr tag nm = tag_attr_from 0 tag nm"

section \<open>Images\<close>

record remote_img =
  ri_url :: string
  ri_decorative :: bool

definition img_dimension :: "string \<Rightarrow> string \<Rightarrow> nat option" where
  "img_dimension tag nm = Option.bind (tag_attr tag nm) (\<lambda>(v, _). parse_u32 (trim v))"

definition tracker_markers :: "string list" where
  "tracker_markers = [''servlet.imageserver'', ''/track/open'', ''/wf/open'', ''list-manage.com/track'',
     ''/open.aspx'', ''/open.php'', ''google-analytics.com'', ''googleadservices.com'', ''doubleclick.net'',
     ''emltrk.com'', ''mailstat.us'', ''/pixel.gif'', ''/pixel.png'', ''utm.gif'']"

definition is_tracking_pixel :: "string \<Rightarrow> bool" where
  "is_tracking_pixel tag = (case tag_attr tag ''src'' of
     None \<Rightarrow> False
   | Some (src, _) \<Rightarrow> list_ex (contains (to_ascii_lowercase src)) tracker_markers)"

definition small :: "nat \<Rightarrow> nat option \<Rightarrow> bool" where
  "small n v \<longleftrightarrow> (case v of None \<Rightarrow> False | Some x \<Rightarrow> x \<le> n)"

definition is_decorative_img :: "string \<Rightarrow> bool" where
  "is_decorative_img tag \<longleftrightarrow>
     (let w = img_dimension tag ''width''; h = img_dimension tag ''height'';
          spacer = small 2 w \<or> small 2 h;
          tiny_icon = small 48 w \<and> small 48 h \<or> small 48 w \<and> h = None \<or> small 48 h \<and> w = None in
      spacer \<or> tiny_icon \<or> is_tracking_pixel tag)"

definition decode_src_entities :: "string \<Rightarrow> string" where
  "decode_src_entities s =
     str_replace (str_replace (str_replace s ''&amp;'' ''&'') ''&#38;'' ''&'') ''&#x26;'' ''&''"

function has_visible_text :: "string \<Rightarrow> bool" where
  "has_visible_text s = (case s of
     [] \<Rightarrow> False
   | c # _ \<Rightarrow>
       if c = CHR ''<'' then has_visible_text (drop (tag_len s) s)
       else (case blank_unit_len s of Some n \<Rightarrow> has_visible_text (drop n s) | None \<Rightarrow> True))"
  by pat_completeness auto
termination by (relation "measure length") (auto dest: blank_unit_len_pos)

declare has_visible_text.simps [simp del]

text \<open>The loop variables of \<^verbatim>\<open>chrome_image_offsets\<close>.\<close>

record chrome_scan =
  cs_chrome :: "nat list"
  cs_seen_text :: bool
  cs_li_leading :: bool
  cs_a_open :: bool
  cs_a_text :: bool
  cs_a_imgs :: "nat list"
  cs_chain :: "nat list"
  cs_live :: bool

definition flush_chain :: "chrome_scan \<Rightarrow> chrome_scan" where
  "flush_chain c = c\<lparr>cs_chrome := (if 2 \<le> length (cs_chain c) then cs_chrome c @ cs_chain c else cs_chrome c),
     cs_chain := []\<rparr>"

definition break_strip :: "chrome_scan \<Rightarrow> chrome_scan" where
  "break_strip c = (flush_chain c)\<lparr>cs_live := False\<rparr>"

definition scan_text :: "chrome_scan \<Rightarrow> chrome_scan" where
  "scan_text c = (let c' = (break_strip c)\<lparr>cs_seen_text := True, cs_li_leading := False\<rparr> in
     if cs_a_open c' then c'\<lparr>cs_a_text := True\<rparr> else c')"

definition scan_img :: "bool \<Rightarrow> nat \<Rightarrow> chrome_scan \<Rightarrow> chrome_scan" where
  "scan_img doc_has_text i c =
     (let c1 = (if doc_has_text \<and> \<not> cs_seen_text c \<or> cs_li_leading c
                then c\<lparr>cs_chrome := cs_chrome c @ [i]\<rparr> else c);
          c2 = c1\<lparr>cs_li_leading := False\<rparr> in
      if cs_a_open c2 then c2\<lparr>cs_a_imgs := cs_a_imgs c2 @ [i]\<rparr> else break_strip c2)"

definition scan_link_end :: "chrome_scan \<Rightarrow> chrome_scan" where
  "scan_link_end c =
     (if \<not> cs_a_open c then c
      else let c1 =
        (if \<not> cs_a_text c \<and> 2 \<le> length (cs_a_imgs c)
         then break_strip (c\<lparr>cs_chrome := cs_chrome c @ cs_a_imgs c\<rparr>)
         else if \<not> cs_a_text c \<and> length (cs_a_imgs c) = 1
         then (let c0 = (if cs_live c then c else flush_chain c) in
           c0\<lparr>cs_chain := cs_chain c0 @ [hd (cs_a_imgs c)], cs_live := True\<rparr>)
         else break_strip c)
      in c1\<lparr>cs_a_open := False, cs_a_imgs := []\<rparr>)"

definition scan_tag :: "bool \<Rightarrow> nat \<Rightarrow> string \<Rightarrow> chrome_scan \<Rightarrow> chrome_scan" where
  "scan_tag doc_has_text i rest c =
     (if starts_tag rest ''<img'' then scan_img doc_has_text i c
      else if starts_tag rest ''</a'' then scan_link_end c
      else if starts_tag rest ''<a'' then c\<lparr>cs_a_open := True, cs_a_text := False, cs_a_imgs := []\<rparr>
      else if starts_tag rest ''<br'' then c
      else let c' = break_strip c in if starts_tag rest ''<li'' then c'\<lparr>cs_li_leading := True\<rparr> else c')"

function chrome_scan_from :: "bool \<Rightarrow> nat \<Rightarrow> string \<Rightarrow> chrome_scan \<Rightarrow> chrome_scan" where
  "chrome_scan_from doc_has_text i s c = (case s of
     [] \<Rightarrow> flush_chain c
   | a # _ \<Rightarrow>
       if a \<noteq> CHR ''<'' then (case blank_unit_len s of
           Some n \<Rightarrow> chrome_scan_from doc_has_text (i + n) (drop n s) c
         | None \<Rightarrow> chrome_scan_from doc_has_text (i + char_len a) (drop (char_len a) s) (scan_text c))
       else chrome_scan_from doc_has_text (i + tag_len s) (drop (tag_len s) s) (scan_tag doc_has_text i s c))"
  by pat_completeness auto
termination by (relation "measure (\<lambda>(_, _, s, _). length s)") (auto dest: blank_unit_len_pos)

declare chrome_scan_from.simps [simp del]

definition chrome_image_offsets :: "string \<Rightarrow> nat list" where
  "chrome_image_offsets html = cs_chrome (chrome_scan_from (has_visible_text html) 0 html
     \<lparr>cs_chrome = [], cs_seen_text = False, cs_li_leading = False, cs_a_open = False, cs_a_text = False,
      cs_a_imgs = [], cs_chain = [], cs_live = False\<rparr>)"

text \<open>The \<^verbatim>\<open><img\<close> tags of a text: what precedes each, its offset and the tag; and the rest.\<close>

function img_tags :: "nat \<Rightarrow> string \<Rightarrow> (string \<times> nat \<times> string) list \<times> string" where
  "img_tags i s = (case find_ci s ''<img'' of
     None \<Rightarrow> ([], s)
   | Some r \<Rightarrow>
       let rest = drop r s; n = tag_len rest in
       (case img_tags (i + r + n) (drop n rest) of
          (l, t) \<Rightarrow> ((take r s, i + r, take n rest) # l, t)))"
  by pat_completeness auto
termination
proof (relation "measure (length \<circ> snd)")
  fix i s r rest and n :: nat
  assume "find_ci s ''<img'' = Some r" "rest = drop r s" "n = tag_len rest"
  then have "r < length s" using find_ci_bound by fastforce
  moreover have "0 < n" using \<open>r < length s\<close> \<open>n = _\<close> \<open>rest = _\<close> tag_len_nonempty [of rest] by simp
  ultimately show "((i + r + n, drop n rest), i, s) \<in> measure (length \<circ> snd)"
    using \<open>rest = _\<close> by simp
qed simp

declare img_tags.simps [simp del]

definition is_remote :: "string \<Rightarrow> bool" where
  "is_remote src \<longleftrightarrow> (let lower = to_ascii_lowercase (trim src) in
     starts_with lower ''http://'' \<or> starts_with lower ''https://'')"

definition add_remote :: "nat list \<Rightarrow> remote_img list \<Rightarrow> string \<times> nat \<times> string \<Rightarrow> remote_img list" where
  "add_remote chrome out t = (case t of (_, start, tag) \<Rightarrow> (case tag_attr tag ''src'' of
     None \<Rightarrow> out
   | Some (src, _) \<Rightarrow>
       if is_remote src \<and> \<not> list_ex (\<lambda>r. ri_url r = src) out
       then out @ [\<lparr>ri_url = src, ri_decorative = (is_decorative_img tag \<or> List.member chrome start)\<rparr>]
       else out))"

definition extract_remote_images :: "string \<Rightarrow> remote_img list" where
  "extract_remote_images html =
     foldl (add_remote (chrome_image_offsets html)) [] (fst (img_tags 0 html))"

definition img_marker :: string where
  "img_marker = utf8_encode 0x1F5BC @ utf8_encode 0xFE0F"

definition earns_marker :: "nat list \<Rightarrow> nat \<Rightarrow> string \<Rightarrow> bool" where
  "earns_marker chrome start tag \<longleftrightarrow>
     is_remote (case tag_attr tag ''src'' of None \<Rightarrow> [] | Some (v, _) \<Rightarrow> v)
     \<and> \<not> is_decorative_img tag \<and> \<not> List.member chrome start"

definition placeholder_remote_images :: "string \<Rightarrow> string" where
  "placeholder_remote_images html = (case img_tags 0 html of (l, t) \<Rightarrow>
     concat (map (\<lambda>(before, start, tag). before @
       (if earns_marker (chrome_image_offsets html) start tag then img_marker else [])) l) @ t)"

definition rewrite_img :: "(string \<times> string) list \<Rightarrow> string \<Rightarrow> string" where
  "rewrite_img url_to_mxc tag = (case tag_attr tag ''src'' of
     None \<Rightarrow> tag
   | Some (src, a, b) \<Rightarrow> (case map_of url_to_mxc src of
       None \<Rightarrow> tag
     | Some mxc \<Rightarrow> take a tag @ mxc @ drop b tag))"

definition rewrite_images :: "(string \<times> string) list \<Rightarrow> string \<Rightarrow> string" where
  "rewrite_images url_to_mxc html = (case img_tags 0 html of (l, t) \<Rightarrow>
     concat (map (\<lambda>(before, _, tag). before @ rewrite_img url_to_mxc tag) l) @ t)"

end
