(* ===== verification/Content_Text.thy ===== *)
theory Content_Text
  imports Rust_Str
begin

text \<open>
  The plain-text half of \<^verbatim>\<open>src/src/services/content.rs\<close>: tidying converted text, cleaning a
  subject into a room name, fitting a body into a Matrix event, and the pair that adds and
  strips a reply quote.
\<close>

section \<open>Invisible padding\<close>

definition invisible_chars :: "string list" where
  "invisible_chars = map utf8_encode
     [0x00AD, 0x034F, 0x200B, 0x200C, 0x200D, 0x2060, 0xFEFF, 0x180E]"

definition strip_invisibles :: "string \<Rightarrow> string" where
  "strip_invisibles s =
     (if list_ex (\<lambda>c. c \<in> set invisible_chars) (str_chars s)
      then concat (filter (\<lambda>c. c \<notin> set invisible_chars) (str_chars s)) else s)"

lemma strip_invisibles_filter:
  "strip_invisibles s = concat (filter (\<lambda>c. c \<notin> set invisible_chars) (str_chars s))"
proof (cases "list_ex (\<lambda>c. c \<in> set invisible_chars) (str_chars s)")
  case False
  then have "filter (\<lambda>c. c \<notin> set invisible_chars) (str_chars s) = str_chars s"
    by (auto simp: list_ex_iff filter_id_conv)
  with False show ?thesis by (simp add: strip_invisibles_def)
qed (simp add: strip_invisibles_def)

section \<open>Normalising converted text\<close>

fun norm_lines :: "nat \<Rightarrow> string list \<Rightarrow> string" where
  "norm_lines blank_run [] = []"
| "norm_lines blank_run (l # ls) = (let line = trim_end l in
     if line = [] then (if blank_run + 1 \<le> 1 then nl else []) @ norm_lines (blank_run + 1) ls
     else line @ nl @ norm_lines 0 ls)"

definition normalize_plain :: "string \<Rightarrow> string" where
  "normalize_plain s = trim (norm_lines 0 (str_lines (strip_invisibles s)))"

section \<open>Subjects as room names\<close>

definition reply_prefixes :: "string list" where
  "reply_prefixes = [''re:'', ''fwd:'', ''fw:'']"

definition reply_prefix :: "string \<Rightarrow> string option" where
  "reply_prefix s = find (starts_with (to_ascii_lowercase s)) reply_prefixes"

function strip_reply_prefixes :: "string \<Rightarrow> string" where
  "strip_reply_prefixes s = (case reply_prefix s of
     None \<Rightarrow> s
   | Some p \<Rightarrow> strip_reply_prefixes (trim_start (drop (length p) s)))"
  by pat_completeness auto
termination
proof (relation "measure length")
  fix s p
  assume "reply_prefix s = Some p"
  then have "starts_with (to_ascii_lowercase s) p" "p \<noteq> []"
    by (auto simp: reply_prefix_def reply_prefixes_def split: if_splits)
  then have "0 < length p" "length p \<le> length s"
    by (auto simp: starts_with_def to_ascii_lowercase_def)
      (metis length_map length_take min.cobounded1)
  then show "(trim_start (drop (length p) s), s) \<in> measure length"
    using length_trim_start [of "drop (length p) s"] by (cases p) auto
qed simp

declare strip_reply_prefixes.simps [simp del]

definition clean_subject :: "string \<Rightarrow> string" where
  "clean_subject subject = (let s = strip_reply_prefixes (trim subject) in
     if s = [] then trim subject else s)"

lemma strip_reply_prefixes_done: "reply_prefix (strip_reply_prefixes s) = None"
proof (induction s rule: strip_reply_prefixes.induct)
  case (1 s)
  then show ?case
    by (cases "reply_prefix s") (simp_all add: strip_reply_prefixes.simps [of s])
qed

section \<open>Fitting the Matrix size limit\<close>

definition matrix_body_budget :: nat where
  "matrix_body_budget = 57000"

definition matrix_truncation_notice :: string where
  "matrix_truncation_notice = nl @ nl @ ''[Message truncated '' @ em_dash @
     '' too large for Matrix; view the full email in your mail client.]''"

primrec back_to_boundary :: "string \<Rightarrow> nat \<Rightarrow> nat" where
  "back_to_boundary s 0 = 0"
| "back_to_boundary s (Suc n) = (if is_char_boundary s (Suc n) then Suc n else back_to_boundary s n)"

definition clamp_utf8 :: "string \<Rightarrow> nat \<Rightarrow> string" where
  "clamp_utf8 s max_bytes =
     (if length s \<le> max_bytes then s
      else let end0 = back_to_boundary s max_bytes;
               end1 = (case rfind_in {CHR '' '', CHR 0x0A} (take end0 s) of
                 None \<Rightarrow> end0
               | Some ws \<Rightarrow> if end0 - ws < 200 then ws else end0)
           in trim_end (take end1 s))"

definition clamp_to_matrix_limit :: "string \<Rightarrow> string option \<Rightarrow> string \<times> string option" where
  "clamp_to_matrix_limit plain html0 =
     (let html = (case html0 of Some h \<Rightarrow> if length h \<le> matrix_body_budget then Some h else None | None \<Rightarrow> None);
          allowance = matrix_body_budget - (case html of Some h \<Rightarrow> length h | None \<Rightarrow> 0)
      in if length plain \<le> allowance then (plain, html)
         else (clamp_utf8 plain (allowance - length matrix_truncation_notice) @ matrix_truncation_notice, html))"

lemma back_to_boundary_le: "back_to_boundary s n \<le> n"
  by (induction n) auto

lemma back_to_boundary_ok: "is_char_boundary s (back_to_boundary s n)"
  by (induction n) (auto simp: is_char_boundary_def)

lemma clamp_utf8_length: "length (clamp_utf8 s n) \<le> n"
proof -
  have "length (trim_end (take e s)) \<le> n" if "e \<le> n" for e
    using that length_trim_end [of "take e s"] by auto
  moreover have "i \<le> n" if "rfind_in C (take (back_to_boundary s n) s) = Some i" for i C
    using rfind_in_less [OF that] back_to_boundary_le [of s n] by auto
  ultimately show ?thesis
    using back_to_boundary_le [of s n]
    by (auto simp: clamp_utf8_def Let_def split: option.split)
qed

lemma clamp_utf8_prefix: "\<exists>k. clamp_utf8 s n = take k s"
proof -
  have "\<exists>k. trim_end (take e s) = take k s" for e
    using trim_end_prefix [of "take e s"] by (auto simp: take_take)
  then show ?thesis
    by (auto simp: clamp_utf8_def Let_def intro: exI [of _ "length s"])
qed

lemma notice_length: "length matrix_truncation_notice = 88"
  by (simp add: matrix_truncation_notice_def em_dash_def utf8_encode_def nl_def)

section \<open>Reply quotes\<close>

definition is_attribution :: "string \<Rightarrow> bool" where
  "is_attribution line \<longleftrightarrow> (let t = trim line in
     (starts_with t ''On '' \<and> ends_with t ''wrote:'')
     \<or> eq_ignore_ascii_case t ''-----original message-----'')"

definition strip_quoted_reply :: "string \<Rightarrow> string" where
  "strip_quoted_reply s = trim_end (join nl (takeWhile (\<lambda>l. \<not> is_attribution l) (str_lines s)))"

definition quote_line :: "string \<Rightarrow> string" where
  "quote_line l = (if l = [] then ''>'' else ''> '' @ l)"

definition format_reply_quote :: "string \<Rightarrow> string \<Rightarrow> string \<Rightarrow> string" where
  "format_reply_quote sender date body = ''On '' @ date @ '', '' @ sender @ '' wrote:'' @ nl @
     join nl (map quote_line (str_lines body))"

text \<open>The attribution line is one line, and is recognised.\<close>

lemma trim_attribution:
  "trim (''On '' @ x @ ''wrote:'') = ''On '' @ x @ ''wrote:''"
proof -
  have "trim_start (''On '' @ x @ ''wrote:'') = ''On '' @ x @ ''wrote:''"
    by (rule trim_start_id) (simp add: ws1_def ws2_def ws3_def split: list.split)
  moreover have "trim_end (''On '' @ x @ ''wrote:'') = ''On '' @ x @ ''wrote:''"
    unfolding trim_end_def by (subst trim_rev_id) (simp_all add: ws1_def ws2_def ws3_def)
  ultimately show ?thesis by (simp add: trim_def)
qed

lemma attribution_recognised: "is_attribution (''On '' @ x @ ''wrote:'')"
  unfolding is_attribution_def Let_def trim_attribution
  by (simp add: starts_with_def ends_with_def)

text \<open>A carriage return at the end of a line does not change what it is.\<close>

lemma ws_len_snoc_cr: "s \<noteq> [] \<Longrightarrow> ws_len (s @ [CHR 0x0D]) = ws_len s"
  by (cases s; cases "tl s"; cases "tl (tl s)") (auto simp: ws2_def ws3_def)

lemma trim_start_snoc_cr:
  "trim_start (s @ [CHR 0x0D]) = (if trim_start s = [] then [] else trim_start s @ [CHR 0x0D])"
proof (induction s rule: trim_start.induct)
  case (1 s)
  have cr: "trim_start [CHR 0x0D] = []"
    by (subst trim_start.simps) (simp add: ws1_def)
  show ?case
  proof (cases "ws_len s = 0")
    case True
    then show ?thesis
      using cr by (cases "s = []") (simp_all add: trim_start_id ws_len_snoc_cr)
  next
    case False
    then have "s \<noteq> []" by auto
    then have w: "ws_len (s @ [CHR 0x0D]) = ws_len s" by (rule ws_len_snoc_cr)
    have "trim_start (s @ [CHR 0x0D]) = trim_start (drop (ws_len s) s @ [CHR 0x0D])"
      using False w ws_len_le [of s] by (subst trim_start.simps) simp
    moreover have "trim_start s = trim_start (drop (ws_len s) s)"
      using False by (subst trim_start.simps) simp
    ultimately show ?thesis using 1 [OF False] by simp
  qed
qed

lemma trim_snoc_cr: "trim (s @ [CHR 0x0D]) = trim s"
  using trim_end_snoc_ws [of "CHR 0x0D" "trim_start s"]
  by (simp add: trim_def trim_start_snoc_cr ws1_def)

lemma is_attribution_strip_cr: "is_attribution (strip_cr l) = is_attribution l"
proof (cases "l \<noteq> [] \<and> last l = CHR 0x0D")
  case True
  then have l: "l = butlast l @ [CHR 0x0D]" by (metis append_butlast_last_id)
  then have "trim l = trim (butlast l)" by (metis trim_snoc_cr)
  with True show ?thesis by (simp add: is_attribution_def strip_cr_def)
qed (auto simp: strip_cr_def)

lemma empty_no_attribution: "\<not> is_attribution []"
  by (simp add: is_attribution_def starts_with_def eq_ignore_ascii_case_def to_ascii_lowercase_def)

text \<open>
  What is kept of the lines of a text depends on its pieces at LF only up to carriage returns
  and empty pieces at the end, which the final trim removes.
\<close>

definition kept :: "string list \<Rightarrow> string list" where
  "kept = takeWhile (\<lambda>l. \<not> is_attribution l)"

lemma trim_end_join_cr: "trim_end (join nl (xs @ [strip_cr l])) = trim_end (join nl (xs @ [l]))"
proof (cases "l \<noteq> [] \<and> last l = CHR 0x0D")
  case True
  then have l: "l = strip_cr l @ [CHR 0x0D]"
    by (auto simp: strip_cr_def) (metis append_butlast_last_id)
  have "join nl (xs @ [y @ [c]]) = join nl (xs @ [y]) @ [c]" for y c
    by (cases "xs = []") (simp_all add: join_append)
  then have "join nl (xs @ [l]) = join nl (xs @ [strip_cr l]) @ [CHR 0x0D]"
    using l by metis
  then show ?thesis by (simp add: trim_end_snoc_ws ws1_def)
qed (auto simp: strip_cr_def)

lemma trim_end_join_empty: "trim_end (join nl (xs @ [[]])) = trim_end (join nl xs)"
proof (cases "xs = []")
  case False
  then have "join nl (xs @ [[]]) = join nl xs @ nl" by (simp add: join_append)
  then show ?thesis by (simp add: nl_def trim_end_snoc_ws ws1_def)
qed simp

lemma kept_append: "kept (xs @ ys) = (if \<exists>x \<in> set xs. is_attribution x then kept xs else xs @ kept ys)"
  by (auto simp: kept_def takeWhile_append takeWhile_append1)

lemma strip_quoted_reply_kept: "strip_quoted_reply s = trim_end (join nl (kept (str_lines s)))"
  by (simp add: strip_quoted_reply_def kept_def)

lemma trim_end_kept_lines:
  assumes "is_attribution a"
  shows "trim_end (join nl (kept (map strip_cr ps @ [[]] @ a # rest))) = trim_end (join nl (kept (lines_of ps)))"
proof (cases ps rule: rev_cases)
  case Nil
  with assms show ?thesis
    by (simp add: kept_def empty_no_attribution)
next
  case (snoc xs l)
  let ?xs = "map strip_cr xs"
  have k: "kept (map strip_cr ps @ [[]] @ a # rest) =
      (if \<exists>x \<in> set ?xs. is_attribution x then kept ?xs
       else if is_attribution l then ?xs else ?xs @ [strip_cr l] @ [[]])"
    using assms snoc
    by (simp add: kept_append) (simp add: kept_def is_attribution_strip_cr empty_no_attribution)
  have r: "kept (lines_of ps) =
      (if \<exists>x \<in> set ?xs. is_attribution x then kept ?xs
       else if l = [] \<or> is_attribution l then ?xs else ?xs @ [l])"
    using snoc by (simp add: lines_of_snoc kept_append) (simp add: kept_def)
  have e: "trim_end (join nl (?xs @ [strip_cr l] @ [[]])) = trim_end (join nl (?xs @ [l]))"
    using trim_end_join_empty [of "?xs @ [strip_cr l]"] trim_end_join_cr [of ?xs l] by simp
  have z: "l = [] \<Longrightarrow> trim_end (join nl (?xs @ [l])) = trim_end (join nl ?xs)"
    using trim_end_join_empty [of ?xs] by simp
  show ?thesis unfolding k r using e z by (auto simp: empty_no_attribution)
qed

lemma quote_lines:
  assumes "CHR 0x0A \<notin> set sender" and "CHR 0x0A \<notin> set date"
  shows "\<exists>rest. lines_of (split_char (CHR 0x0A) (format_reply_quote sender date body)) =
    (''On '' @ date @ '', '' @ sender @ '' wrote:'') # rest"
proof -
  let ?a = "''On '' @ date @ '', '' @ sender @ '' wrote:''"
  have a: "CHR 0x0A \<notin> set ?a" using assms by simp
  have "last ?a = CHR '':''" by simp
  then have cr: "strip_cr ?a = ?a" by (simp add: strip_cr_def)
  have "split_char (CHR 0x0A) (format_reply_quote sender date body) =
      ?a # split_char (CHR 0x0A) (join nl (map quote_line (str_lines body)))"
    using split_char_append [of "CHR 0x0A" ?a] split_char_none [OF a]
    by (simp add: format_reply_quote_def nl_def)
  with cr show ?thesis
    using lines_of_append [of "split_char (CHR 0x0A) (join nl (map quote_line (str_lines body)))" "[?a]"]
    by simp
qed

lemma strip_appended_quote:
  assumes "CHR 0x0A \<notin> set sender" and "CHR 0x0A \<notin> set date"
  shows "strip_quoted_reply (body @ nl @ nl @ format_reply_quote sender date original) = strip_quoted_reply body"
proof -
  let ?c = "CHR 0x0A"
  let ?a = "''On '' @ date @ '', '' @ sender @ '' wrote:''"
  let ?q = "format_reply_quote sender date original"
  obtain rest where q: "lines_of (split_char ?c ?q) = ?a # rest"
    using quote_lines [OF assms] by blast
  have att: "is_attribution ?a"
    using attribution_recognised [of "date @ '', '' @ sender @ '' ''"] by simp
  have "split_char ?c (body @ nl @ nl @ ?q) = split_char ?c body @ [[]] @ split_char ?c ?q"
    using split_char_append [of ?c body "nl @ ?q"] by (simp add: nl_def)
  then have "str_lines (body @ nl @ nl @ ?q) = map strip_cr (split_char ?c body) @ [[]] @ ?a # rest"
    using lines_of_append [of "split_char ?c ?q" "split_char ?c body @ [[]]"] q
    by (simp add: str_lines_def strip_cr_def)
  with trim_end_kept_lines [OF att] show ?thesis
    by (simp add: strip_quoted_reply_kept str_lines_def)
qed

end
