(* ===== verification/Localpart.thy ===== *)
theory Localpart
  imports Rust_Str
begin

text \<open>
  The Matrix localpart of a contact's ghost user, \<^verbatim>\<open>email_to_localpart\<close> of
  \<^verbatim>\<open>src/src/ghost.rs\<close>, on the characters of the lower-cased address.
\<close>

definition hex_digit :: "nat \<Rightarrow> char" where
  "hex_digit n = char_of (if n < 10 then 48 + n else 87 + n)"

fun show_hex :: "nat \<Rightarrow> string" where
  "show_hex n = (if n < 16 then [hex_digit n] else show_hex (n div 16) @ [hex_digit (n mod 16)])"

declare show_hex.simps [simp del]

text \<open>\<^verbatim>\<open>{:02x}\<close>: at least two digits.\<close>

definition hex02 :: "nat \<Rightarrow> string" where
  "hex02 n = (if n < 16 then CHR ''0'' # show_hex n else show_hex n)"

definition plain_char :: "nat \<Rightarrow> bool" where
  "plain_char c \<longleftrightarrow> (97 \<le> c \<and> c \<le> 122) \<or> (48 \<le> c \<and> c \<le> 57) \<or> c = 46 \<or> c = 95 \<or> c = 45"

definition localpart_char :: "nat \<Rightarrow> string" where
  "localpart_char c = (if plain_char c then [char_of c] else CHR ''='' # hex02 c)"

definition localpart_of_chars :: "nat list \<Rightarrow> string" where
  "localpart_of_chars cs = ''_jmap_'' @ concat (map localpart_char cs)"

definition email_to_localpart :: "(string \<Rightarrow> string) \<Rightarrow> string \<Rightarrow> string" where
  "email_to_localpart lower email = localpart_of_chars (utf8_chars (lower email))"

section \<open>The alphabet and the decoder\<close>

definition localpart_alphabet :: "char \<Rightarrow> bool" where
  "localpart_alphabet c \<longleftrightarrow> plain_char (of_char c) \<or> c = CHR ''=''"

lemma of_char_hex_digit: "n < 16 \<Longrightarrow> (of_char (hex_digit n) :: nat) = (if n < 10 then 48 + n else 87 + n)"
  by (simp add: hex_digit_def)

lemma show_hex_alphabet: "\<forall>c \<in> set (show_hex n). plain_char (of_char c)"
proof (induction n rule: show_hex.induct)
  case (1 n)
  have h: "m < 16 \<Longrightarrow> plain_char (of_char (hex_digit m))" for m
    by (auto simp: of_char_hex_digit plain_char_def)
  show ?case
    using 1 h by (subst show_hex.simps) auto
qed

lemma hex02_alphabet: "c \<in> set (hex02 n) \<Longrightarrow> plain_char (of_char c)"
  using show_hex_alphabet [of n] by (auto simp: hex02_def plain_char_def split: if_splits)

lemma localpart_char_alphabet: "c \<in> set (localpart_char n) \<Longrightarrow> localpart_alphabet c"
proof (cases "plain_char n")
  case True
  then have "n < 256" by (auto simp: plain_char_def)
  then have "of_char (char_of n :: char) = n" by simp
  moreover assume "c \<in> set (localpart_char n)"
  ultimately show ?thesis using True by (simp add: localpart_char_def localpart_alphabet_def)
next
  case False
  moreover assume "c \<in> set (localpart_char n)"
  ultimately show ?thesis
    by (auto simp: localpart_char_def localpart_alphabet_def dest: hex02_alphabet)
qed

text \<open>For code points below 256 the escape has exactly two digits, so it can be read back.\<close>

definition unhex :: "char \<Rightarrow> nat" where
  "unhex c = (let n = (of_char c :: nat) in if n < 58 then n - 48 else n - 87)"

fun decode_chars :: "string \<Rightarrow> nat list" where
  "decode_chars [] = []"
| "decode_chars (c # s) = (if c = CHR ''='' then (case s of h # l # t \<Rightarrow> (16 * unhex h + unhex l) # decode_chars t | _ \<Rightarrow> [])
     else of_char c # decode_chars s)"

lemma unhex_hex_digit [simp]: "n < 16 \<Longrightarrow> unhex (hex_digit n) = n"
  by (simp add: unhex_def of_char_hex_digit)

lemma hex02_byte: "n < 256 \<Longrightarrow> hex02 n = [hex_digit (n div 16), hex_digit (n mod 16)]"
proof -
  assume n: "n < 256"
  have z: "hex_digit 0 = CHR ''0''" by code_simp
  show ?thesis
  proof (cases "n < 16")
    case True
    then show ?thesis by (simp add: hex02_def show_hex.simps [of n] z)
  next
    case False
    with n have "n div 16 < 16" "n div 16 > 0" by auto
    with False show ?thesis
      by (simp add: hex02_def show_hex.simps [of n] show_hex.simps [of "n div 16"])
  qed
qed

lemma decode_localpart_char:
  assumes "n < 256"
  shows "decode_chars (localpart_char n @ s) = n # decode_chars s"
proof (cases "plain_char n")
  case True
  with assms have "of_char (char_of n :: char) = n" by simp
  moreover from True have "n \<noteq> 61" by (auto simp: plain_char_def)
  moreover have "(of_char (CHR ''='') :: nat) = 61" by simp
  ultimately have "char_of n \<noteq> CHR ''=''" by metis
  with True \<open>of_char (char_of n :: char) = n\<close> show ?thesis
    by (simp add: localpart_char_def)
next
  case False
  with assms show ?thesis
    by (simp add: localpart_char_def hex02_byte)
qed

lemma decode_localpart_chars:
  "\<forall>c \<in> set cs. c < 256 \<Longrightarrow> decode_chars (concat (map localpart_char cs)) = cs"
  by (induction cs) (auto simp: decode_localpart_char)

end
