(* ===== verification/Matrix_Client.thy ===== *)
theory Matrix_Client
  imports Store Localpart
begin

text \<open>
  The homeserver client, \<^verbatim>\<open>src/src/matrix.rs\<close>: each method as the request it builds and what
  it makes of the answer. How ruma turns a request into bytes and parses a response is in
  \<^verbatim>\<open>l_resp\<close> (the one field the code reads), and which ids are well formed in
  \<^verbatim>\<open>l_user_ok\<close>, \<^verbatim>\<open>l_room_ok\<close> and \<^verbatim>\<open>l_event_ok\<close>. A response body is its text after
  \<^verbatim>\<open>from_utf8_lossy\<close>. Two methods go through the
  SDK's own client, whose joining and whose view of the joined rooms are arguments.
\<close>

section \<open>Identity helpers\<close>

definition is_ghost_not_joined :: "err \<Rightarrow> bool" where
  "is_ghost_not_joined e = (contains (err_text e) ''M_FORBIDDEN'' \<and> contains (err_text e) ''is not `join`'')"

definition bot_mxid :: "string \<Rightarrow> mxid" where
  "bot_mxid domain = ''@_jmap_bot:'' @ domain"

definition bot_user_id :: "mxid act" where
  "bot_user_id = asks (\<lambda>E. bot_mxid (c_domain (e_cfg E)))"

definition local_mxid :: "string \<Rightarrow> string \<Rightarrow> mxid" where
  "local_mxid localpart domain = ''@'' @ localpart @ '':'' @ domain"

definition ghost_mxid :: "addr \<Rightarrow> mxid act" where
  "ghost_mxid email = asks (\<lambda>E. local_mxid (email_to_localpart (l_lower (e_lib E)) email) (c_domain (e_cfg E)))"

definition status_text :: "nat \<Rightarrow> string act" where
  "status_text st = asks (\<lambda>E. l_status (e_lib E) st)"

definition parse_user :: "mxid \<Rightarrow> unit act" where
  "parse_user u = bind (asks (\<lambda>E. l_user_ok (e_lib E) u)) (\<lambda>ok. ensure ok ''invalid user ID'')"

definition parse_room :: "string \<Rightarrow> room_id \<Rightarrow> unit act" where
  "parse_room c r = bind (asks (\<lambda>E. l_room_ok (e_lib E) r)) (\<lambda>ok. ensure ok c)"

definition parse_event :: "string \<Rightarrow> event_id \<Rightarrow> unit act" where
  "parse_event c e = bind (asks (\<lambda>E. l_event_ok (e_lib E) e)) (\<lambda>ok. ensure ok c)"

definition parse_event_opt :: "string \<Rightarrow> event_id option \<Rightarrow> unit act" where
  "parse_event_opt c e = (case e of None \<Rightarrow> ret () | Some v \<Rightarrow> parse_event c v)"

definition txn_id :: "string act" where
  "txn_id = fresh e_uuid"

text \<open>A raw HTTP call whose answer only matters by its status.\<close>

definition expect_success :: "string \<Rightarrow> http_out \<Rightarrow> unit act" where
  "expect_success what r = (case r of
     HttpErr m \<Rightarrow> fail (Other m)
   | HttpResp st _ _ \<Rightarrow> bind (status_text st) (\<lambda>t. ensure (is_success st) (what @ t)))"

section \<open>Room state as the bot\<close>

fun state_type :: "state_body \<Rightarrow> string" where
  "state_type (SName _) = ''m.room.name''"
| "state_type (STopic _) = ''m.room.topic''"
| "state_type (SAvatar _) = ''m.room.avatar''"
| "state_type (SSpaceChild _) = ''m.space.child''"
| "state_type (SSpaceParent _) = ''m.space.parent''"

text \<open>The URL of a state event; how the segments are escaped and joined is the \<^verbatim>\<open>url\<close> crate's.\<close>

definition state_url :: "room_id \<Rightarrow> string \<Rightarrow> string \<Rightarrow> string act" where
  "state_url room event_type key =
     bind (asks (\<lambda>E. l_extend_path (e_lib E) (c_homeserver (e_cfg E))
       [''_matrix'', ''client'', ''v3'', ''rooms'', room, ''state'', event_type, key])) (\<lambda>r. case r of
       Inl e \<Rightarrow> fail (Other e)
     | Inr url \<Rightarrow> ret url)"

definition put_state :: "room_id \<Rightarrow> string \<Rightarrow> state_body \<Rightarrow> unit act" where
  "put_state room key body =
     bind (state_url room (state_type body) key) (\<lambda>_.
     bind (mx_call (PutState room key body))
       (expect_success (''PUT '' @ state_type body @ '' state failed: '')))"

definition set_room_name :: "room_id \<Rightarrow> string \<Rightarrow> unit act" where
  "set_room_name room nm = put_state room [] (SName nm)"

definition set_room_topic :: "room_id \<Rightarrow> string \<Rightarrow> unit act" where
  "set_room_topic room topic = put_state room [] (STopic topic)"

definition set_room_avatar :: "room_id \<Rightarrow> string \<Rightarrow> unit act" where
  "set_room_avatar room mxc = put_state room [] (SAvatar mxc)"

definition room_name :: "room_id \<Rightarrow> string option act" where
  "room_name room =
     bind (attempt (state_url room ''m.room.name'' [])) (\<lambda>url. case url of
       Inl _ \<Rightarrow> ret None
     | Inr _ \<Rightarrow>
         bind (mx_call (GetRoomName room)) (\<lambda>r. case r of
           HttpErr _ \<Rightarrow> ret None
         | HttpResp st _ body \<Rightarrow> if \<not> is_success st then ret None
           else bind (asks (\<lambda>E. l_json (e_lib E) body)) (\<lambda>j. ret (case j of
             None \<Rightarrow> None
           | Some v \<Rightarrow> (case as_str (jat v ''name'') of
               Some s \<Rightarrow> if s = [] then None else Some s
             | None \<Rightarrow> None)))))"

definition add_room_to_space :: "room_id \<Rightarrow> room_id \<Rightarrow> unit act" where
  "add_room_to_space space child =
     bind (asks (c_domain \<circ> e_cfg)) (\<lambda>via.
     andthen (put_state space child (SSpaceChild via))
       (put_state child space (SSpaceParent via)))"

section \<open>Requests on behalf of bridge users\<close>

definition send_as_ghost :: "ghost_req \<Rightarrow> mxid \<Rightarrow> nat option \<Rightarrow> string act" where
  "send_as_ghost req user ts =
     bind (mx_call (AsGhost req user ts)) (\<lambda>r. case r of
       HttpErr m \<Rightarrow> fail (Other m)
     | HttpResp st _ body \<Rightarrow>
         if is_success st
         then bind (asks (\<lambda>E. l_resp (e_lib E) req body)) (\<lambda>p. case p of
           Inl m \<Rightarrow> fail (Other (''Matrix API error: '' @ m))
         | Inr field \<Rightarrow> ret field)
         else bind (status_text st) (\<lambda>t.
           fail (Other (''Matrix API error ['' @ t @ '']: '' @ body))))"

text \<open>\<^verbatim>\<open>true\<close> when the user was created, \<^verbatim>\<open>false\<close> when it was there.\<close>

definition ensure_user_exists :: "string \<Rightarrow> bool act" where
  "ensure_user_exists localpart =
     bind (asks (\<lambda>E. local_mxid localpart (c_domain (e_cfg E)))) (\<lambda>user.
     andthen (parse_user user)
     (bind (mx_call (RegisterUser localpart)) (\<lambda>r. case r of
       HttpErr m \<Rightarrow> fail (Other m)
     | HttpResp st _ body \<Rightarrow>
         if is_success st then ret True
         else if st = 400 then
           (if contains body ''M_USER_IN_USE'' then ret False
            else fail (Other (''Failed to register user '' @ localpart @ '': 400 Bad Request - '' @ body)))
         else bind (status_text st) (\<lambda>t.
           fail (Other (''Failed to register user '' @ localpart @ '': '' @ t @ '' - '' @ body))))))"

definition set_display_name :: "mxid \<Rightarrow> string \<Rightarrow> unit act" where
  "set_display_name user nm =
     andthen (parse_user user)
     (bind (send_as_ghost (GDisplayName user nm) user None) (\<lambda>_. ret ()))"

definition set_avatar :: "mxid \<Rightarrow> string \<Rightarrow> string \<Rightarrow> string act" where
  "set_avatar user bytes mime =
     andthen (parse_user user)
     (bind (send_as_ghost (GUpload mime bytes) user None) (\<lambda>mxc.
     bind (send_as_ghost (GAvatar user mxc) user None) (\<lambda>_. ret mxc)))"

definition upload_media :: "mxid \<Rightarrow> string \<Rightarrow> string \<Rightarrow> string act" where
  "upload_media user bytes mime =
     andthen (parse_user user) (send_as_ghost (GUpload mime bytes) user None)"

definition upload_media_stream :: "mxid \<Rightarrow> string \<Rightarrow> string \<Rightarrow> string act" where
  "upload_media_stream user mime file_name =
     andthen (parse_user user)
     (bind (mx_call (UploadStream user mime file_name)) (\<lambda>r. case r of
       HttpErr m \<Rightarrow> fail (Other m)
     | HttpResp st _ body \<Rightarrow>
         if is_success st
         then bind (asks (\<lambda>E. l_resp (e_lib E) (GUpload mime []) body)) (\<lambda>p. case p of
           Inl m \<Rightarrow> fail (Other m) | Inr mxc \<Rightarrow> ret mxc)
         else bind (status_text st) (\<lambda>t.
           fail (Other (''Matrix media upload failed: '' @ t @ '' - '' @ body)))))"

text \<open>
  A download gives the bytes, the declared file name and the content type. The file name is what follows the first \<^verbatim>\<open>filename=\<close> up to the next one, without
  surrounding quotes.
\<close>

fun trim_quotes_start :: "string \<Rightarrow> string" where
  "trim_quotes_start [] = []"
| "trim_quotes_start (c # s) = (if c = CHR 0x22 then trim_quotes_start s else c # s)"

definition trim_quotes :: "string \<Rightarrow> string" where
  "trim_quotes s = rev (trim_quotes_start (rev (trim_quotes_start s)))"

definition disposition_filename :: "string \<Rightarrow> string" where
  "disposition_filename cd = (case str_find cd ''filename='' of
     None \<Rightarrow> ''attachment''
   | Some i \<Rightarrow> (let rest = drop (i + 9) cd in
       trim_quotes (case str_find rest ''filename='' of None \<Rightarrow> rest | Some j \<Rightarrow> take j rest)))"

definition header :: "string \<Rightarrow> (string \<times> string) list \<Rightarrow> string option" where
  "header k hs = map_of hs k"

text \<open>The whole of a media file at once; the program uses the stream below instead.\<close>

definition download_media :: "string \<Rightarrow> string act" where
  "download_media mxc =
     bind (asks (\<lambda>E. l_mxc_ok (e_lib E) mxc)) (\<lambda>ok.
     andthen (ensure ok ''Invalid MXC URL'')
     (bind (mx_call (DownloadMedia mxc)) (\<lambda>r. case r of
       HttpErr m \<Rightarrow> fail (Other m)
     | HttpResp st _ bytes \<Rightarrow>
         if 400 \<le> st \<and> st < 600 then fail (Other ''Failed to download media'') else ret bytes)))"

definition download_media_stream :: "string \<Rightarrow> (string \<times> string \<times> string) act" where
  "download_media_stream mxc =
     bind (asks (\<lambda>E. l_mxc_ok (e_lib E) mxc)) (\<lambda>ok.
     andthen (ensure ok ''Invalid MXC URL'')
     (bind (mx_call (DownloadMedia mxc)) (\<lambda>r. case r of
       HttpErr m \<Rightarrow> fail (Other m)
     | HttpResp st hs bytes \<Rightarrow>
         if 400 \<le> st \<and> st < 600 then fail (Other ''Failed to download media'')
         else ret (bytes, disposition_filename (case header ''content-disposition'' hs of Some v \<Rightarrow> v | None \<Rightarrow> []),
           case header ''content-type'' hs of Some v \<Rightarrow> v | None \<Rightarrow> ''application/octet-stream''))))"

section \<open>Rooms\<close>

definition join_room_as :: "room_id \<Rightarrow> mxid \<Rightarrow> unit act" where
  "join_room_as room user =
     andthen (parse_room ''invalid room ID'' room)
     (andthen (parse_user user)
     (bind (send_as_ghost (GJoin room) user None) (\<lambda>_. ret ())))"

definition leave_room :: "room_id \<Rightarrow> mxid \<Rightarrow> unit act" where
  "leave_room room user =
     andthen (parse_room ''invalid room ID'' room)
     (andthen (parse_user user)
     (bind (send_as_ghost (GLeave room) user None) (\<lambda>_. ret ())))"

definition invite_to_room :: "room_id \<Rightarrow> mxid \<Rightarrow> unit act" where
  "invite_to_room room user =
     andthen (parse_room ''invalid room ID'' room)
     (andthen (parse_user user)
     (bind bot_user_id (\<lambda>bot.
     andthen (parse_user bot)
     (bind (send_as_ghost (GInvite room user) bot None) (\<lambda>_. ret ())))))"

definition create_room :: "room_spec \<Rightarrow> room_id act" where
  "create_room spec =
     andthen (for_each (rs_invite spec) parse_user)
     (bind bot_user_id (\<lambda>bot.
     andthen (parse_user bot)
     (send_as_ghost (GCreateRoom spec) bot None)))"

definition create_space :: "string \<Rightarrow> string \<Rightarrow> mxid \<Rightarrow> room_id act" where
  "create_space nm topic invite = create_room
     \<lparr>rs_name = nm, rs_topic = topic, rs_invite = [invite], rs_direct = False,
      rs_space = True, rs_no_guests = False\<rparr>"

definition create_dm_room :: "string \<Rightarrow> string \<Rightarrow> mxid list \<Rightarrow> room_id act" where
  "create_dm_room nm topic invites = create_room
     \<lparr>rs_name = nm, rs_topic = topic, rs_invite = invites, rs_direct = True,
      rs_space = False, rs_no_guests = True\<rparr>"

definition create_room_for_thread :: "string \<Rightarrow> mxid \<Rightarrow> room_id act" where
  "create_room_for_thread subject user = create_dm_room subject (''Email Thread: '' @ subject) [user]"

definition create_room_for_contact :: "string \<Rightarrow> addr \<Rightarrow> mxid \<Rightarrow> room_id act" where
  "create_room_for_contact nm email user =
     bind (ghost_mxid email) (\<lambda>ghost.
     create_dm_room nm (''Conversation with '' @ email) [user, ghost])"

definition create_room_for_mailbox :: "string \<Rightarrow> room_id act" where
  "create_room_for_mailbox nm = create_room
     \<lparr>rs_name = nm, rs_topic = ''Mailbox: '' @ nm, rs_invite = [], rs_direct = False,
      rs_space = False, rs_no_guests = True\<rparr>"

section \<open>Messages\<close>

text \<open>
  A send that fails because the ghost is not joined is repaired by inviting and joining it and
  sending once more; \<open>build\<close> makes the request anew, with its own transaction id.
\<close>

definition send_as_ghost_joining ::
    "room_id \<Rightarrow> mxid \<Rightarrow> nat option \<Rightarrow> ghost_req act \<Rightarrow> event_id act" where
  "send_as_ghost_joining room sender ts build =
     bind build (\<lambda>req.
     bind (attempt (send_as_ghost req sender ts)) (\<lambda>r. case r of
       Inr ev \<Rightarrow> ret ev
     | Inl e \<Rightarrow>
         if is_ghost_not_joined e
         then andthen (ignore (invite_to_room room sender))
           (andthen (join_room_as room sender)
           (bind build (\<lambda>req'. send_as_ghost req' sender ts)))
         else fail e))"

definition build_send :: "room_id \<Rightarrow> out_content \<Rightarrow> ghost_req act" where
  "build_send room content = bind txn_id (\<lambda>t. ret (GSend room t content))"

definition thread_relation :: "event_id option \<Rightarrow> event_id option \<Rightarrow> (event_id \<times> event_id) option" where
  "thread_relation root latest = map_option
     (\<lambda>r. (r, case latest of Some l \<Rightarrow> l | None \<Rightarrow> r)) root"

definition send_message_as ::
    "room_id \<Rightarrow> string \<Rightarrow> string option \<Rightarrow> event_id option \<Rightarrow> event_id option \<Rightarrow> mxid \<Rightarrow> nat option
     \<Rightarrow> event_id act" where
  "send_message_as room body html root latest sender ts =
     andthen (parse_room ''Invalid Room ID'' room)
     (andthen (parse_event_opt ''Invalid Thread Root ID'' root)
     (andthen (parse_event_opt ''Invalid Thread Latest Event ID'' latest)
     (andthen (parse_user sender)
     (send_as_ghost_joining room sender ts
       (build_send room (OText body html (thread_relation root latest)))))))"

definition send_message :: "room_id \<Rightarrow> string \<Rightarrow> event_id act" where
  "send_message room body =
     bind bot_user_id (\<lambda>bot. send_message_as room body None None None bot None)"

text \<open>
  \<^verbatim>\<open>join_room\<close> and \<^verbatim>\<open>notify_user\<close>, which nothing in the program calls: \<open>sdk_join\<close> is the SDK's
  joining, and \<open>joined\<close> its joined rooms with their members, where they could be read.
\<close>

definition join_room :: "(room_id \<Rightarrow> unit act) \<Rightarrow> room_id \<Rightarrow> unit act" where
  "join_room sdk_join room = andthen (parse_room ''invalid room ID'' room) (sdk_join room)"

primrec notify_in :: "mxid \<Rightarrow> string \<Rightarrow> (room_id \<times> mxid list option) list \<Rightarrow> bool act" where
  "notify_in user msg [] = ret False"
| "notify_in user msg (j # joined) = (case j of (room, members) \<Rightarrow>
     if (case members of Some ms \<Rightarrow> user \<in> set ms | None \<Rightarrow> False)
     then bind (attempt (send_message room msg)) (\<lambda>sent. case sent of
         Inr _ \<Rightarrow> ret True
       | Inl _ \<Rightarrow> notify_in user msg joined)
     else notify_in user msg joined)"

definition notify_user :: "(room_id \<times> mxid list option) list \<Rightarrow> mxid \<Rightarrow> string \<Rightarrow> unit act" where
  "notify_user joined user msg =
     andthen (contextual ''Invalid Matrix User ID'' (parse_user user))
     (bind (notify_in user msg joined) (\<lambda>found. if found then ret ()
       else bind (create_dm_room ''JMAP Bridge Bot'' ''Authentication Notification'' [user]) (\<lambda>room.
         bind (send_message room msg) (\<lambda>_. ret ()))))"

definition send_reaction :: "room_id \<Rightarrow> event_id \<Rightarrow> string \<Rightarrow> event_id act" where
  "send_reaction room target key =
     andthen (parse_room ''Invalid Room ID'' room)
     (andthen (parse_event ''Invalid target event id'' target)
     (bind bot_user_id (\<lambda>bot.
     andthen (parse_user bot)
     (send_as_ghost_joining room bot None (build_send room (OReaction target key))))))"

definition send_edit_as :: "room_id \<Rightarrow> event_id \<Rightarrow> string \<Rightarrow> string \<Rightarrow> mxid \<Rightarrow> event_id act" where
  "send_edit_as room target body html sender =
     andthen (parse_room ''Invalid Room ID'' room)
     (andthen (parse_event ''Invalid target Event ID'' target)
     (andthen (parse_user sender)
     (send_as_ghost_joining room sender None (build_send room (OEdit target body html)))))"

definition send_file_as ::
    "room_id \<Rightarrow> string \<Rightarrow> string \<Rightarrow> string \<Rightarrow> event_id option \<Rightarrow> event_id option \<Rightarrow> mxid \<Rightarrow> nat option
     \<Rightarrow> event_id act" where
  "send_file_as room mxc file_name mime root latest sender ts =
     andthen (parse_room ''Invalid Room ID'' room)
     (andthen (parse_event_opt ''Invalid Thread Root ID'' root)
     (andthen (parse_event_opt ''Invalid Thread Latest Event ID'' latest)
     (andthen (parse_user sender)
     (send_as_ghost_joining room sender ts
       (build_send room (OFile file_name mxc mime (thread_relation root latest)))))))"

definition redact_event :: "room_id \<Rightarrow> event_id \<Rightarrow> string \<Rightarrow> unit act" where
  "redact_event room event reason =
     andthen (parse_room ''invalid room ID'' room)
     (andthen (parse_event ''invalid event ID'' event)
     (bind txn_id (\<lambda>t.
     bind bot_user_id (\<lambda>bot.
     andthen (parse_user bot)
     (bind (send_as_ghost (GRedact room event t reason) bot None) (\<lambda>_. ret ()))))))"

definition send_read_receipt :: "room_id \<Rightarrow> event_id \<Rightarrow> string \<Rightarrow> unit act" where
  "send_read_receipt room event token =
     bind (mx_call (ReadReceipt room event token)) (expect_success ''read receipt failed: '')"

definition set_marked_unread :: "mxid \<Rightarrow> room_id \<Rightarrow> bool \<Rightarrow> string \<Rightarrow> unit act" where
  "set_marked_unread user room unread token =
     bind (mx_call (MarkedUnread user room unread token)) (expect_success ''set marked_unread failed: '')"

text \<open>\<^verbatim>\<open>notify\<close> of \<^verbatim>\<open>src/src/services/transactions.rs\<close>: a notice in a room, best effort.\<close>

definition notify :: "room_id option \<Rightarrow> string \<Rightarrow> unit act" where
  "notify room msg = (case room of
     None \<Rightarrow> ret ()
   | Some r \<Rightarrow> ignore (send_message r msg))"

section \<open>Frames\<close>

abbreviation allows_mx :: "(label \<Rightarrow> bool) \<Rightarrow> mx_req \<Rightarrow> bool" where
  "allows_mx K r \<equiv> K (LEv (EvMx r))"

text \<open>
  \<open>allows_ghost K room user reqs\<close>: the requests \<open>send_as_ghost_joining\<close> may make for a send.
\<close>

definition allows_ghost :: "(label \<Rightarrow> bool) \<Rightarrow> bool" where
  "allows_ghost K \<longleftrightarrow> (\<forall>q u t. allows_mx K (AsGhost q u t))"

lemmas parsers = parse_user_def parse_room_def parse_event_def parse_event_opt_def status_text_def
  bot_user_id_def ghost_mxid_def txn_id_def

lemma parsers_evolve [frame_rules]:
  "within (evolves K) (parse_user u)" "within (evolves K) (parse_room c r)"
  "within (evolves K) (parse_event c e)" "within (evolves K) (parse_event_opt c eo)"
  "within (evolves K) (status_text st)" "within (evolves K) bot_user_id"
  "within (evolves K) (ghost_mxid a)" "within (evolves K) txn_id"
  unfolding parsers by (intro frame_rules)+

lemma expect_success_evolves [frame_rules]: "within (evolves K) (expect_success c r)"
  unfolding expect_success_def by (intro frame_rules)

lemma state_url_evolves [frame_rules]: "within (evolves K) (state_url r t k)"
  unfolding state_url_def by (intro frame_rules)

lemma put_state_evolves:
  "allows_mx K (PutState r k b) \<Longrightarrow> within (evolves K) (put_state r k b)"
  unfolding put_state_def by (intro frame_rules)

lemma room_state_evolves [frame_rules]:
  "allows_mx K (PutState r [] (SName n)) \<Longrightarrow> within (evolves K) (set_room_name r n)"
  "allows_mx K (PutState r [] (STopic t)) \<Longrightarrow> within (evolves K) (set_room_topic r t)"
  "allows_mx K (PutState r [] (SAvatar m)) \<Longrightarrow> within (evolves K) (set_room_avatar r m)"
  "allows_mx K (GetRoomName r) \<Longrightarrow> within (evolves K) (room_name r)"
  unfolding set_room_name_def set_room_topic_def set_room_avatar_def room_name_def
  by (intro frame_rules put_state_evolves; assumption)+

lemma add_room_to_space_evolves [frame_rules]:
  "(\<And>v. allows_mx K (PutState s c (SSpaceChild v))) \<Longrightarrow>
   (\<And>v. allows_mx K (PutState c s (SSpaceParent v))) \<Longrightarrow> within (evolves K) (add_room_to_space s c)"
  unfolding add_room_to_space_def by (intro frame_rules put_state_evolves)

lemma send_as_ghost_evolves [frame_rules]:
  "allows_mx K (AsGhost q u t) \<Longrightarrow> within (evolves K) (send_as_ghost q u t)"
  unfolding send_as_ghost_def by (intro frame_rules)

lemma ensure_user_exists_evolves [frame_rules]:
  "allows_mx K (RegisterUser l) \<Longrightarrow> within (evolves K) (ensure_user_exists l)"
  unfolding ensure_user_exists_def by (intro frame_rules)

lemma profile_evolves [frame_rules]:
  "allows_mx K (AsGhost (GDisplayName u n) u None) \<Longrightarrow> within (evolves K) (set_display_name u n)"
  "allows_ghost K \<Longrightarrow> within (evolves K) (set_avatar u b m)"
  "allows_mx K (AsGhost (GUpload m b) u None) \<Longrightarrow> within (evolves K) (upload_media u b m)"
  unfolding set_display_name_def set_avatar_def upload_media_def
  by (intro frame_rules; simp add: allows_ghost_def)+

lemma media_evolves [frame_rules]:
  "allows_mx K (UploadStream u m f) \<Longrightarrow> within (evolves K) (upload_media_stream u m f)"
  "allows_mx K (DownloadMedia x) \<Longrightarrow> within (evolves K) (download_media_stream x)"
  "allows_mx K (DownloadMedia x) \<Longrightarrow> within (evolves K) (download_media x)"
  unfolding upload_media_stream_def download_media_stream_def download_media_def by (intro frame_rules; assumption)+

lemma membership_evolves [frame_rules]:
  "allows_mx K (AsGhost (GJoin r) u None) \<Longrightarrow> within (evolves K) (join_room_as r u)"
  "allows_mx K (AsGhost (GLeave r) u None) \<Longrightarrow> within (evolves K) (leave_room r u)"
  "(\<And>b. allows_mx K (AsGhost (GInvite r u) b None)) \<Longrightarrow> within (evolves K) (invite_to_room r u)"
  unfolding join_room_as_def leave_room_def invite_to_room_def by (intro frame_rules; assumption)+

lemma create_room_evolves:
  "(\<And>b. allows_mx K (AsGhost (GCreateRoom s) b None)) \<Longrightarrow> within (evolves K) (create_room s)"
  unfolding create_room_def by (intro frame_rules)

lemma create_rooms_evolve [frame_rules]:
  "allows_ghost K \<Longrightarrow> within (evolves K) (create_space n t u)"
  "allows_ghost K \<Longrightarrow> within (evolves K) (create_dm_room n t us)"
  "allows_ghost K \<Longrightarrow> within (evolves K) (create_room_for_thread n u)"
  "allows_ghost K \<Longrightarrow> within (evolves K) (create_room_for_contact n a u)"
  "allows_ghost K \<Longrightarrow> within (evolves K) (create_room_for_mailbox n)"
  unfolding create_space_def create_dm_room_def create_room_for_thread_def
    create_room_for_contact_def create_room_for_mailbox_def
  by (intro frame_rules create_room_evolves; simp add: allows_ghost_def)+

lemma build_send_evolves [frame_rules]: "within (evolves K) (build_send r c)"
  unfolding build_send_def by (intro frame_rules)

text \<open>What a joining send may request: the send itself, and the repair of the membership.\<close>

definition allows_send :: "(label \<Rightarrow> bool) \<Rightarrow> room_id \<Rightarrow> mxid \<Rightarrow> out_content \<Rightarrow> bool" where
  "allows_send K room user content \<longleftrightarrow> (\<forall>t ts. allows_mx K (AsGhost (GSend room t content) user ts))
     \<and> (\<forall>b. allows_mx K (AsGhost (GInvite room user) b None))
     \<and> allows_mx K (AsGhost (GJoin room) user None)"

lemma send_joining_evolves:
  "allows_send K r u c \<Longrightarrow> within (evolves K) (send_as_ghost_joining r u ts (build_send r c))"
  unfolding send_as_ghost_joining_def build_send_def allows_send_def bind_assoc bind_ret
  by (intro frame_rules) simp_all

lemma send_message_as_evolves:
  "allows_send K r u (OText b h (thread_relation ro l)) \<Longrightarrow>
   within (evolves K) (send_message_as r b h ro l u ts)"
  unfolding send_message_as_def by (intro frame_rules send_joining_evolves)

lemma sends_evolve [frame_rules]:
  "allows_ghost K \<Longrightarrow> within (evolves K) (send_message_as r b h ro l u ts)"
  "allows_ghost K \<Longrightarrow> within (evolves K) (send_message r b)"
  "allows_ghost K \<Longrightarrow> within (evolves K) (send_reaction r e k)"
  "allows_ghost K \<Longrightarrow> within (evolves K) (send_edit_as r e b k u)"
  "allows_ghost K \<Longrightarrow> within (evolves K) (send_file_as r k b m ro l u ts)"
  "allows_ghost K \<Longrightarrow> within (evolves K) (redact_event r e k)"
  "allows_ghost K \<Longrightarrow> within (evolves K) (notify rr b)"
  unfolding send_message_def send_reaction_def send_edit_as_def send_file_as_def redact_event_def
    notify_def
  by (intro frame_rules send_joining_evolves send_message_as_evolves;
      simp add: allows_ghost_def allows_send_def)+

lemma read_state_evolves [frame_rules]:
  "allows_mx K (ReadReceipt r e t) \<Longrightarrow> within (evolves K) (send_read_receipt r e t)"
  "allows_mx K (MarkedUnread u r b t) \<Longrightarrow> within (evolves K) (set_marked_unread u r b t)"
  unfolding send_read_receipt_def set_marked_unread_def by (intro frame_rules; assumption)+

text \<open>No request to the homeserver panics or waits for ever.\<close>

lemma parsers_calm [calm_rules]:
  "calm (parse_user u)" "calm (parse_room c r)" "calm (parse_event c e)" "calm (parse_event_opt c eo)"
  "calm (status_text st)" "calm bot_user_id" "calm (ghost_mxid a)" "calm txn_id"
  unfolding parsers by (intro calm_rules)+

lemma requests_calm [calm_rules]:
  "calm (expect_success c h)" "calm (put_state r k sb)" "calm (set_room_name r n)"
  "calm (set_room_topic r n)" "calm (set_room_avatar r n)" "calm (room_name r)"
  "calm (add_room_to_space r r')" "calm (send_as_ghost q u ts)" "calm (ensure_user_exists l)"
  "calm (build_send r oc)" "calm (send_read_receipt r e t)" "calm (set_marked_unread u r b t)"
  "calm (upload_media_stream u m f)" "calm (download_media_stream x)" "calm (download_media x)"
  "calm (state_url r et k)"
  unfolding expect_success_def state_url_def put_state_def download_media_def set_room_name_def set_room_topic_def set_room_avatar_def
    room_name_def add_room_to_space_def send_as_ghost_def ensure_user_exists_def build_send_def
    send_read_receipt_def set_marked_unread_def upload_media_stream_def download_media_stream_def
  by (intro calm_rules)+

lemma ghost_requests_calm [calm_rules]:
  "calm (set_display_name u n)" "calm (set_avatar u b m)" "calm (upload_media u b m)"
  "calm (join_room_as r u)" "calm (leave_room r u)" "calm (invite_to_room r u)" "calm (create_room s)"
  unfolding set_display_name_def set_avatar_def upload_media_def join_room_as_def leave_room_def
    invite_to_room_def create_room_def
  by (intro calm_rules)+

lemma room_creations_calm [calm_rules]:
  "calm (create_space n t u)" "calm (create_dm_room n t us)" "calm (create_room_for_thread n u)"
  "calm (create_room_for_contact n a u)" "calm (create_room_for_mailbox n)"
  unfolding create_space_def create_dm_room_def create_room_for_thread_def
    create_room_for_contact_def create_room_for_mailbox_def
  by (intro calm_rules)+

lemma send_joining_calm [calm_rules]: "calm b \<Longrightarrow> calm (send_as_ghost_joining r u ts b)"
  unfolding send_as_ghost_joining_def by (intro calm_rules)

lemma sends_calm [calm_rules]:
  "calm (send_message_as r b h ro l u ts)" "calm (send_message r b)" "calm (send_reaction r e k)"
  "calm (send_edit_as r e b k u)" "calm (send_file_as r k b m ro l u ts)" "calm (redact_event r e k)"
  "calm (notify rr b)"
  unfolding send_message_as_def send_message_def send_reaction_def send_edit_as_def send_file_as_def
    redact_event_def notify_def
  by (intro calm_rules)+

lemma notify_in_calm [calm_rules]: "calm (notify_in u m joined)"
proof (induction joined)
  case (Cons j joined)
  show ?case unfolding notify_in.simps by (intro calm_rules Cons.IH)
qed (simp add: calm_rules)

lemma notify_user_calm [calm_rules]: "calm (notify_user joined u m)"
  unfolding notify_user_def by (intro calm_rules)

lemma notify_user_evolves:
  assumes "allows_ghost K"
  shows "within (evolves K) (notify_user joined u m)"
proof -
  have "within (evolves K) (notify_in u m joined)"
  proof (induction joined)
    case (Cons j joined)
    show ?case unfolding notify_in.simps by (intro frame_rules Cons.IH assms)
  qed (auto intro: frame_rules)
  then show ?thesis unfolding notify_user_def using assms by (intro frame_rules)
qed

end
