(* ===== verification/Content.thy ===== *)
theory Content
  imports Content_Html Content_Text Matrix_Client
begin

text \<open>
  How an email becomes a Matrix message, \<^verbatim>\<open>src/src/services/content.rs\<close>: the choice of the
  body, the cleaning pipeline around the HTML sanitizer (a parameter), and the attachments.
\<close>

section \<open>The formatted body\<close>

text \<open>
  The Matrix subset of HTML. An image survives only with a source that was uploaded to the
  homeserver.
\<close>

definition matrix_tags :: "string list" where
  "matrix_tags = [''del'', ''h1'', ''h2'', ''h3'', ''h4'', ''h5'', ''h6'', ''p'', ''a'', ''ul'', ''ol'', ''sup'', ''sub'',
     ''li'', ''b'', ''i'', ''u'', ''strong'', ''em'', ''s'', ''code'', ''hr'', ''br'', ''div'', ''span'', ''img'', ''pre'',
     ''details'', ''summary'', ''blockquote'']"

definition only_mxc_images :: "string \<Rightarrow> string \<Rightarrow> string \<Rightarrow> string option" where
  "only_mxc_images element attribute value =
     (if element = ''img'' \<and> attribute = ''src'' \<and> \<not> starts_with value ''mxc://'' then None else Some value)"

definition matrix_sanitizer :: "bool \<Rightarrow> sanitizer" where
  "matrix_sanitizer links_mode = \<lparr>
     sz_tags = (if links_mode then filter (\<lambda>t. t \<notin> set [''img'', ''div'', ''span'']) matrix_tags else matrix_tags),
     sz_clean_content_tags = [''script'', ''style'', ''head'', ''title''],
     sz_tag_attributes = [(''a'', [''href'', ''target'']), (''img'', [''src'', ''width'', ''height'', ''alt'', ''title'']),
       (''ol'', [''start'']), (''code'', [''class''])],
     sz_generic_attributes = [], sz_generic_prefixes = [''data-mx-''],
     sz_url_schemes = [''https'', ''http'', ''ftp'', ''mailto'', ''magnet'', ''mxc''],
     sz_relative_denied = True, sz_link_rel = Some ''noopener'', sz_attribute_filter = only_mxc_images\<rparr>"

text \<open>\<^verbatim>\<open>sanitize_for_matrix\<close>; \<open>links\<close> is \<^verbatim>\<open>RenderMode::Links\<close>.\<close>

definition sanitize_for_matrix :: "crates \<Rightarrow> bool \<Rightarrow> string \<Rightarrow> string" where
  "sanitize_for_matrix L links html =
     (let pre = strip_reply_blockquotes html;
          pre = (if links then placeholder_remote_images pre else pre);
          pre = separate_table_blocks links pre;
          cleaned = l_sanitize L (matrix_sanitizer links) pre;
          cleaned = strip_invisibles cleaned;
          cleaned = unwrap_li_paragraphs cleaned;
          cleaned = prune_br_only_links cleaned;
          cleaned = prune_empty_elements cleaned;
          cleaned = collapse_blank_runs cleaned;
          cleaned = strip_block_adjacent_breaks cleaned
      in collapse_breaks cleaned)"

definition render_inline_images :: "crates \<Rightarrow> string \<Rightarrow> (string \<times> string) list \<Rightarrow> string" where
  "render_inline_images L html url_to_mxc = sanitize_for_matrix L False (rewrite_images url_to_mxc html)"

definition parse_render_mode :: "string \<Rightarrow> render_mode option" where
  "parse_render_mode s = (let t = to_ascii_lowercase (trim s) in
     if t = ''plain'' then Some RenderPlain
     else if t = ''links'' then Some RenderLinks
     else if t = ''rich'' \<or> t = ''html'' then Some RenderRich
     else None)"

section \<open>Choosing the body\<close>

record email_body =
  eb_plain :: string
  eb_html :: "string option"

definition no_subject :: string where
  "no_subject = ''(No Subject)''"

definition extract_body :: "email \<Rightarrow> body_part list \<Rightarrow> (string \<times> bool \<times> string option) option" where
  "extract_body e parts = (case parts of
     [] \<Rightarrow> None
   | p # _ \<Rightarrow> Option.bind (bp_part_id p) (\<lambda>i.
       map_option (\<lambda>v. (bv_value v, bv_truncated v, bp_type p)) (map_of (em_values e) i)))"

definition is_html_part :: "string \<Rightarrow> string option \<Rightarrow> bool" where
  "is_html_part text ctype \<longleftrightarrow> ctype = Some ''text/html'' \<or> looks_like_html text"

definition plain_candidate :: "email \<Rightarrow> (string \<times> bool) option" where
  "plain_candidate e = (case Option.bind (em_text_body e) (extract_body e) of
     None \<Rightarrow> None
   | Some (text, truncated, ctype) \<Rightarrow> if is_html_part text ctype then None else Some (text, truncated))"

definition html_candidate :: "email \<Rightarrow> (string \<times> bool) option" where
  "html_candidate e =
     (let from_text = (case Option.bind (em_text_body e) (extract_body e) of
          None \<Rightarrow> None
        | Some (text, truncated, ctype) \<Rightarrow> if is_html_part text ctype then Some (text, truncated) else None)
      in case Option.bind (em_html_body e) (extract_body e) of
          Some (html, truncated, ctype) \<Rightarrow> if is_html_part html ctype then Some (html, truncated) else from_text
        | None \<Rightarrow> from_text)"

definition original_html :: "email \<Rightarrow> string option" where
  "original_html e = map_option fst (html_candidate e)"

definition truncated_plain :: string where
  "truncated_plain = nl @ nl @ ''[Email truncated by server due to size limit]''"

definition truncated_html :: string where
  "truncated_html = ''<br><br><strong>[Email truncated by server due to size limit]</strong>''"

definition plain_of :: "crates \<Rightarrow> email \<Rightarrow> string" where
  "plain_of L e =
     (let (raw, is_truncated) = (case plain_candidate e of
          Some (text, trunc) \<Rightarrow> (text, trunc)
        | None \<Rightarrow> (case html_candidate e of
            Some (html, trunc) \<Rightarrow> ((case l_html2text L html of Some t \<Rightarrow> t | None \<Rightarrow> html), trunc)
          | None \<Rightarrow> ((case em_subject e of Some s \<Rightarrow> s | None \<Rightarrow> no_subject), False)))
      in normalize_plain (strip_quoted_reply raw @ (if is_truncated then truncated_plain else [])))"

definition html_of :: "crates \<Rightarrow> render_mode \<Rightarrow> email \<Rightarrow> string option" where
  "html_of L mode e = (if mode = RenderPlain then None
     else map_option (\<lambda>(html, trunc). sanitize_for_matrix L (mode = RenderLinks)
         (html @ (if trunc then truncated_html else []))) (html_candidate e))"

definition from_email :: "crates \<Rightarrow> email \<Rightarrow> render_mode \<Rightarrow> email_body" where
  "from_email L e mode = (case clamp_to_matrix_limit (plain_of L e) (html_of L mode e) of
     (plain, html) \<Rightarrow> \<lparr>eb_plain = plain, eb_html = html\<rparr>)"

section \<open>Attachments\<close>

definition attachment_fallback_name :: string where
  "attachment_fallback_name = utf8_encode 0x1F4CE @ '' attachment''"

text \<open>The bytes that are escaped in a value put into the download template, beside those outside ASCII.\<close>

definition url_template_value :: "char \<Rightarrow> bool" where
  "url_template_value c \<longleftrightarrow> (let n = (of_char c :: nat) in n < 32 \<or> n = 127) \<or>
     c \<in> set ('' #%/<>?^`{|}'' @ [CHR 0x22, CHR 0x5C])"

definition blob_url :: "crates \<Rightarrow> string \<Rightarrow> string \<Rightarrow> string \<Rightarrow> string \<Rightarrow> string" where
  "blob_url L template account blob file_name =
     (let enc = l_percent L url_template_value in
      str_replace (str_replace (str_replace template ''{accountId}'' (enc account))
        ''{blobId}'' (enc blob)) ''{name}'' (enc file_name))"

definition max_attachment :: nat where
  "max_attachment = 50 * 1024 * 1024"

definition bridge_attachment ::
    "mxid \<Rightarrow> body_part \<Rightarrow> jclient \<Rightarrow> room_id \<Rightarrow> event_id option \<Rightarrow> event_id option \<Rightarrow> mxid \<Rightarrow> nat option
     \<Rightarrow> event_id act" where
  "bridge_attachment user part c room root latest sender ts =
     bind (need ''No blobId'' (bp_blob_id part)) (\<lambda>blob.
     let mime = (case bp_type part of Some t \<Rightarrow> t | None \<Rightarrow> ''application/octet-stream'');
         file_name = (case bp_name part of Some n \<Rightarrow> n | None \<Rightarrow> attachment_fallback_name) in
     bind (asks (\<lambda>E. blob_url (e_lib E) (jc_download_url c) (jc_account c) blob file_name)) (\<lambda>url.
     andthen (ensure (bp_size part \<le> max_attachment) ''Attachment too large'')
     (bind (get_user user) (\<lambda>u.
     bind (need ''User session credentials missing from store'' u) (\<lambda>creds.
     bind (call (EvBlobGet url (ru_name creds) (ru_token creds)) (\<lambda>E. e_blob (e_net E))) (\<lambda>r. case r of
       HttpErr m \<Rightarrow> fail (Other m)
     | HttpResp st _ _ \<Rightarrow>
         andthen (ensure (is_success st) ''Download failed'')
         (bind (upload_media_stream sender mime file_name) (\<lambda>mxc.
         send_file_as room mxc file_name mime root latest sender ts))))))))"

text \<open>Each attachment follows the last one that was bridged; a failure is logged and skipped.\<close>

primrec bridge_all ::
    "mxid \<Rightarrow> body_part list \<Rightarrow> thread_id option \<Rightarrow> jclient \<Rightarrow> room_id \<Rightarrow> event_id option \<Rightarrow> event_id option
     \<Rightarrow> mxid \<Rightarrow> nat option \<Rightarrow> unit act" where
  "bridge_all user [] thread c room root latest sender ts = ret ()"
| "bridge_all user (p # ps) thread c room root latest sender ts =
     bind (attempt (bridge_attachment user p c room root latest sender ts)) (\<lambda>r. case r of
       Inr ev \<Rightarrow>
         andthen (case thread of
             Some tid \<Rightarrow> ignore (update_thread_latest_event tid ev)
           | None \<Rightarrow> ret ())
         (bridge_all user ps thread c room root (Some ev) sender ts)
     | Inl _ \<Rightarrow> bridge_all user ps thread c room root latest sender ts)"

definition handle_attachments ::
    "jclient \<Rightarrow> mxid \<Rightarrow> email \<Rightarrow> room_id \<Rightarrow> event_id option \<Rightarrow> event_id option \<Rightarrow> mxid \<Rightarrow> nat option \<Rightarrow> unit act" where
  "handle_attachments c user e room root latest sender ts =
     bridge_all user (case em_attachments e of Some l \<Rightarrow> l | None \<Rightarrow> []) (em_thread e) c room root latest sender ts"

definition append_user_signature :: "mxid \<Rightarrow> string \<Rightarrow> string act" where
  "append_user_signature user body =
     bind (get_user_signature user) (\<lambda>sig. ret (case sig of
       Some s \<Rightarrow> if s \<noteq> [] then body @ nl @ nl @ ''-- '' @ nl @ s else body
     | None \<Rightarrow> body))"

section \<open>Frames\<close>

definition allows_attach :: "(label \<Rightarrow> bool) \<Rightarrow> bool" where
  "allows_attach K \<longleftrightarrow> allows_ghost K \<and> (\<forall>u n t. K (LEv (EvBlobGet u n t))) \<and>
     (\<forall>u m f. allows_mx K (UploadStream u m f)) \<and> (\<forall>t e. K (LDb (SetLatest t e)))"

lemma bridge_attachment_evolves [frame_rules]:
  "allows_attach K \<Longrightarrow> within (evolves K) (bridge_attachment u p c r ro l s t)"
  unfolding bridge_attachment_def Let_def
  by (intro frame_rules; simp add: allows_attach_def)

lemma attachments_evolve [frame_rules]:
  "allows_attach K \<Longrightarrow> within (evolves K) (handle_attachments c u e r ro l s t)"
proof -
  assume K: "allows_attach K"
  have "within (evolves K) (bridge_all u ps th c r ro l s t)" for ps th l
    by (induction ps arbitrary: l) (use K in \<open>auto intro!: frame_rules simp: allows_attach_def\<close>)
  then show ?thesis by (simp add: handle_attachments_def)
qed

lemma signature_evolves [frame_rules]: "within (evolves K) (append_user_signature u b)"
  unfolding append_user_signature_def by (intro frame_rules)

lemma attachments_calm [calm_rules]:
  "calm (handle_attachments c u e r ro l s t)" "calm (append_user_signature u b)"
proof -
  have "calm (bridge_attachment u p c r ro l s t)" for p l
    unfolding bridge_attachment_def by (intro calm_rules)
  then have "calm (bridge_all u ps th c r ro l s t)" for ps th l
    by (induction ps arbitrary: l) (auto intro!: calm_rules)
  then show "calm (handle_attachments c u e r ro l s t)" by (simp add: handle_attachments_def)
  show "calm (append_user_signature u b)" unfolding append_user_signature_def by (intro calm_rules)
qed

end
