(* ===== verification/Sender.thy ===== *)
theory Sender
  imports Matrix_Client Content_Text
begin

text \<open>
  Sending mail over JMAP, \<^verbatim>\<open>src/src/sender.rs\<close>: building and submitting a message, the
  threading headers and the optional quote of a reply, marking mail seen or unseen, moving a
  thread, and passing Matrix media on to the mail server. A \<^verbatim>\<open>JmapSender\<close> is its client
  and its \<^verbatim>\<open>quote_replies\<close> flag, passed as arguments.
\<close>

section \<open>Sizes and times in messages\<close>

text \<open>
  \<^verbatim>\<open>human_bytes\<close> divides a double by 1024 up to four times. The conversion to a double rounds a
  size of 53 bits or more to the nearest even 53-bit significand; the divisions are exact, so
  after \<open>k\<close> of them the value is that number over \<open>1024 ^ k\<close>. Formatting rounds the exact value, ties to
  even. \<^verbatim>\<open>0.05\<close> stands for the double next to it.
\<close>

function excess_bits :: "nat \<Rightarrow> nat" where
  "excess_bits n = (if n < 2 ^ 53 then 0 else Suc (excess_bits (n div 2)))"
  by pat_completeness auto
termination by (relation "measure id") auto

definition round_half_even :: "nat \<Rightarrow> nat \<Rightarrow> nat" where
  "round_half_even n d = (let q = n div d; r = n mod d in
     if d < 2 * r \<or> (2 * r = d \<and> odd q) then q + 1 else q)"

definition as_f64 :: "nat \<Rightarrow> nat" where
  "as_f64 n = (let k = excess_bits n in round_half_even n (2 ^ k) * 2 ^ k)"

definition byte_units :: "string list" where
  "byte_units = [''B'', ''KB'', ''MB'', ''GB'', ''TB'']"

fun unit_index :: "nat \<Rightarrow> nat \<Rightarrow> nat \<Rightarrow> nat" where
  "unit_index 0 k sz = k"
| "unit_index (Suc left) k sz = (if sz < 1024 * 1024 ^ k then k else unit_index left (Suc k) sz)"

definition nearly_whole :: "nat \<Rightarrow> nat \<Rightarrow> bool" where
  "nearly_whole sz d \<longleftrightarrow> (sz mod d) * 2 ^ 56 < 3602879701896397 * d"

definition human_bytes :: "nat \<Rightarrow> string" where
  "human_bytes bytes = (let sz = as_f64 bytes; k = unit_index 4 0 sz; d = 1024 ^ k in
     if nearly_whole sz d then show_nat (round_half_even sz d) @ '' '' @ byte_units ! k
     else let t = round_half_even (10 * sz) d in
       show_nat (t div 10) @ ''.'' @ show_nat (t mod 10) @ '' '' @ byte_units ! k)"

lemma unit_index_bound: "unit_index left k sz \<le> left + k"
  by (induction left k sz rule: unit_index.induct) auto

text \<open>A time that \<^verbatim>\<open>jiff\<close> cannot represent prints as nothing.\<close>

definition format_utc :: "crates \<Rightarrow> int \<Rightarrow> string" where
  "format_utc L epoch = (case l_strftime L ''%Y-%m-%d %H:%M UTC'' epoch of Some s \<Rightarrow> s | None \<Rightarrow> [])"

section \<open>Lookups\<close>

definition mailbox_id_for_role :: "jclient \<Rightarrow> mailbox_role \<Rightarrow> string option act" where
  "mailbox_id_for_role c role =
     bind (jcall c (QMailboxRole role) e_ids) (\<lambda>r.
     bind (junwrap ''Empty response for Mailbox/query'' r) (\<lambda>ids.
     ret (case ids of [] \<Rightarrow> None | i # _ \<Rightarrow> Some i)))"

fun first_identity :: "identity list \<Rightarrow> (string option \<times> string option \<times> addr) option" where
  "first_identity [] = None"
| "first_identity (i # is) = (case id_email i of
     Some e \<Rightarrow> Some (id_id i, id_name i, e) | None \<Rightarrow> first_identity is)"

definition primary_identity :: "jclient \<Rightarrow> (string option \<times> string option \<times> addr) option act" where
  "primary_identity c = bind (jcall c GIdentity e_identities) (\<lambda>r.
     ret (Option.bind (jok r) first_identity))"

text \<open>The thread's email ids, oldest first; empty on any failure.\<close>

definition thread_email_ids :: "jclient \<Rightarrow> thread_id \<Rightarrow> email_id list act" where
  "thread_email_ids c thread = bind (jcall c (GThread thread) e_threads) (\<lambda>r.
     ret (case jok r of Some (ids # _) \<Rightarrow> ids | _ \<Rightarrow> []))"

section \<open>Submitting\<close>

definition filing_mailbox :: "jclient \<Rightarrow> string act" where
  "filing_mailbox c =
     bind (mailbox_id_for_role c RoleSent) (\<lambda>sent. case sent of
       Some i \<Rightarrow> ret i
     | None \<Rightarrow> bind (mailbox_id_for_role c RoleDrafts)
         (need ''Account has neither a Sent nor a Drafts mailbox''))"

text \<open>
  Both halves of the answer are checked: the message must have been created with an id, and
  the submission must have been created too.
\<close>

definition unpack_submission :: "string + submit_out \<Rightarrow> email_id act" where
  "unpack_submission r = (case r of
     Inl m \<Rightarrow> fail (Other m)
   | Inr (email_set, submission_set) \<Rightarrow> (case email_set of
       CUnwrapErr m \<Rightarrow> fail (Other m)
     | CRejected m \<Rightarrow> fail (Other m)
     | CCreated i \<Rightarrow>
         bind (need ''JMAP response did not include an ID for the created email'' i) (\<lambda>email_id.
         case submission_set of
           CUnwrapErr m \<Rightarrow> fail (Other m)
         | CRejected m \<Rightarrow> fail (Other
             ''email saved to Sent but the JMAP submission was rejected (not delivered)'')
         | CCreated _ \<Rightarrow> ret email_id)))"

definition submit ::
    "jclient \<Rightarrow> addr \<Rightarrow> string \<Rightarrow> string \<Rightarrow> string option \<Rightarrow> string list \<Rightarrow> attachment_info list
     \<Rightarrow> email_id act" where
  "submit c to subject body in_reply_to references attachments =
     bind (filing_mailbox c) (\<lambda>mailbox.
     bind (primary_identity c) (\<lambda>ident.
     case (case ident of Some t \<Rightarrow> t | None \<Rightarrow> (None, None, jc_username c)) of
       (identity_id, from_name, from_email) \<Rightarrow>
     bind (jcall c (Submit \<lparr>dr_mailbox = mailbox, dr_subject = subject,
         dr_from = (from_name, from_email), dr_to = to, dr_in_reply_to = in_reply_to,
         dr_references = references, dr_body = body, dr_attachments = attachments,
         dr_identity = identity_id, dr_envelope = (from_email, [to])\<rparr>) e_submit)
       unpack_submission))"

definition send_email :: "jclient \<Rightarrow> addr \<Rightarrow> string \<Rightarrow> string \<Rightarrow> attachment_info list \<Rightarrow> email_id act" where
  "send_email c to subject body attachments = submit c to subject body None [] attachments"

section \<open>Replies\<close>

fun reply_chain ::
    "email list \<Rightarrow> email_id list \<Rightarrow> string option \<times> string list \<Rightarrow> string option \<times> string list" where
  "reply_chain emails [] acc = acc"
| "reply_chain emails (i # is) (irt, refs) =
     (case find (\<lambda>e. em_id e = Some i) emails of
        Some e \<Rightarrow> (case em_message_id e of
          Some (mid # _) \<Rightarrow> reply_chain emails is
            (Some mid, if mid \<in> set refs then refs else refs @ [mid])
        | _ \<Rightarrow> reply_chain emails is (irt, refs))
      | None \<Rightarrow> reply_chain emails is (irt, refs))"

definition reply_headers :: "jclient \<Rightarrow> thread_id \<Rightarrow> (string option \<times> string list) act" where
  "reply_headers c thread =
     bind (thread_email_ids c thread) (\<lambda>ids.
     if ids = [] then ret (None, [])
     else bind (jcall c (GEmails GetMessageIds ids) e_emails) (\<lambda>r. case r of
       JSendErr _ \<Rightarrow> ret (None, [])
     | _ \<Rightarrow> ret (reply_chain (case jok r of Some l \<Rightarrow> l | None \<Rightarrow> []) ids (None, []))))"

definition quote_sender :: "email \<Rightarrow> string" where
  "quote_sender e = (case em_from e of
     Some (a # _) \<Rightarrow> (case ea_name a of Some n \<Rightarrow> n @ '' <'' @ ea_email a @ ''>'' | None \<Rightarrow> ea_email a)
   | _ \<Rightarrow> [])"

definition first_text_value :: "email \<Rightarrow> string option" where
  "first_text_value e = (case em_text_body e of
     Some (p # _) \<Rightarrow> Option.bind (bp_part_id p) (\<lambda>i. map_option bv_value (map_of (em_values e) i))
   | _ \<Rightarrow> None)"

definition reply_quote :: "jclient \<Rightarrow> thread_id \<Rightarrow> string option act" where
  "reply_quote c thread =
     bind (thread_email_ids c thread) (\<lambda>ids.
     if ids = [] then ret None
     else bind (jcall c (GEmails GetQuote [last ids]) e_emails) (\<lambda>r.
     bind (asks (format_utc \<circ> e_lib)) (\<lambda>utc.
     ret (case jok r of
       Some (e # _) \<Rightarrow>
         (case (case em_sent e of Some t \<Rightarrow> Some t | None \<Rightarrow> em_received e) of
            Some t \<Rightarrow> (case first_text_value e of
              Some body \<Rightarrow> Some (format_reply_quote (quote_sender e) (utc t) body)
            | None \<Rightarrow> None)
          | None \<Rightarrow> None)
     | _ \<Rightarrow> None))))"

definition reply_to_email ::
    "jclient \<Rightarrow> bool \<Rightarrow> addr \<Rightarrow> string \<Rightarrow> string \<Rightarrow> thread_id \<Rightarrow> attachment_info list \<Rightarrow> email_id act" where
  "reply_to_email c quote_replies to subject body thread attachments =
     bind (reply_headers c thread) (\<lambda>(in_reply_to, refs).
     bind (if quote_replies then reply_quote c thread else ret None) (\<lambda>quoted.
     submit c to subject (case quoted of Some q \<Rightarrow> body @ nl @ nl @ q | None \<Rightarrow> body)
       in_reply_to refs attachments))"

section \<open>Flags and folders\<close>

definition jset :: "jclient \<Rightarrow> jmap_req \<Rightarrow> unit act" where
  "jset c r = bind (jcall c r e_set) (\<lambda>e. case e of Some m \<Rightarrow> fail (Other m) | None \<Rightarrow> ret ())"

definition set_seen :: "jclient \<Rightarrow> email_id \<Rightarrow> bool \<Rightarrow> unit act" where
  "set_seen c email seen = jset c (SetSeen email seen)"

definition mark_as_read :: "jclient \<Rightarrow> email_id \<Rightarrow> unit act" where
  "mark_as_read c email = set_seen c email True"

definition mark_as_unread :: "jclient \<Rightarrow> email_id \<Rightarrow> unit act" where
  "mark_as_unread c email = set_seen c email False"

definition move_thread_to_role :: "jclient \<Rightarrow> thread_id \<Rightarrow> mailbox_role \<Rightarrow> bool act" where
  "move_thread_to_role c thread role =
     bind (mailbox_id_for_role c role) (\<lambda>target. case target of
       None \<Rightarrow> ret False
     | Some t \<Rightarrow>
         bind (thread_email_ids c thread) (\<lambda>ids.
         if ids = [] then ret True
         else andthen (jset c (MoveEmails ids t)) (ret True)))"

text \<open>\<^verbatim>\<open>try_resolve_thread\<close> of \<^verbatim>\<open>src/src/ghost.rs\<close>.\<close>

definition try_resolve_thread :: "jclient \<Rightarrow> email_id \<Rightarrow> thread_id option act" where
  "try_resolve_thread c email =
     bind (jcall c (GEmails GetThreadOf [email]) e_emails) (\<lambda>r.
     bind (junwrap ''Empty JMAP response'' r) (\<lambda>emails.
     ret (case emails of [] \<Rightarrow> None | e # _ \<Rightarrow> em_thread e)))"

section \<open>Media\<close>

definition max_upload_size :: "jclient \<Rightarrow> nat" where
  "max_upload_size c = (case jc_max_upload c of Some n \<Rightarrow> n | None \<Rightarrow> 0)"

fun media_of :: "msgtype \<Rightarrow> media option" where
  "media_of (MImage m) = Some m"
| "media_of (MFile m) = Some m"
| "media_of (MAudio m) = Some m"
| "media_of (MVideo m) = Some m"
| "media_of _ = None"

definition plain_source :: "msgtype \<Rightarrow> string option" where
  "plain_source t = (case media_of t of
     Some m \<Rightarrow> (case md_source m of PlainMedia url \<Rightarrow> Some url | EncryptedMedia \<Rightarrow> None)
   | None \<Rightarrow> None)"

text \<open>
  The bytes go on as a stream that fails once it passes the limit, which fails the upload.
\<close>

definition upload_attachment_stream :: "jclient \<Rightarrow> string \<Rightarrow> string \<Rightarrow> nat \<Rightarrow> string act" where
  "upload_attachment_stream c bytes mime limit =
     bind (call (EvJmap c (UploadBlob mime)) (\<lambda>E. e_upload (e_net E))) (\<lambda>r.
     if 0 < limit \<and> limit < length bytes
     then fail (Other ''File transfer exceeded maximum JMAP upload limit'')
     else (case r of Inl m \<Rightarrow> fail (Other m) | Inr blob \<Rightarrow> ret blob))"

text \<open>The same for bytes at hand, with the limit checked before anything is sent.\<close>

definition upload_attachment :: "jclient \<Rightarrow> string \<Rightarrow> string \<Rightarrow> string act" where
  "upload_attachment c bytes mime = (let limit = max_upload_size c in
     if 0 < limit \<and> limit < length bytes
     then fail (Other (''Attachment too large ('' @ show_nat (length bytes) @ '' bytes). The JMAP server limit is ''
       @ show_nat limit @ '' ('' @ human_bytes limit @ '').''))
     else bind (call (EvJmap c (UploadBlob mime)) (\<lambda>E. e_upload (e_net E))) (\<lambda>r. case r of
         Inl m \<Rightarrow> fail (Other m)
       | Inr blob \<Rightarrow> ret blob))"

definition upload_matrix_media :: "jclient \<Rightarrow> message_content \<Rightarrow> attachment_info act" where
  "upload_matrix_media c content =
     bind (need ''No plain media URL found (or encrypted media is unsupported)''
       (plain_source (mc_type content))) (\<lambda>url.
     let declared = Option.bind (media_of (mc_type content)) md_size in
     if (case declared of Some n \<Rightarrow> 0 < max_upload_size c \<and> max_upload_size c < n | None \<Rightarrow> False)
     then fail (Other (''Media attachment exceeds the maximum size allowed by the JMAP mail server (limit: ''
       @ human_bytes (max_upload_size c) @ ''). Upload aborted.''))
     else bind (download_media_stream url) (\<lambda>(bytes, file_name, mime).
       let name_to_use = (if file_name = [] \<or> file_name = ''attachment''
             then msg_body (mc_type content) else file_name);
           mime_to_use = (if mime = ''application/octet-stream''
             then (case Option.bind (media_of (mc_type content)) md_mime of Some m \<Rightarrow> m | None \<Rightarrow> mime)
             else mime)
       in bind (upload_attachment_stream c bytes mime_to_use (max_upload_size c)) (\<lambda>blob.
          ret \<lparr>at_blob = blob, at_name = name_to_use, at_mime = mime_to_use\<rparr>)))"

section \<open>What sending guarantees\<close>

text \<open>
  The draft that a submission sends is fixed by the arguments but for the mailbox, the
  identity and the sender.
\<close>

definition carries :: "addr \<Rightarrow> string \<Rightarrow> string \<Rightarrow> attachment_info list \<Rightarrow> draft \<Rightarrow> bool" where
  "carries to subject body atts d \<longleftrightarrow> dr_to d = to \<and> dr_subject d = subject \<and> dr_body d = body
     \<and> dr_attachments d = atts \<and> snd (dr_envelope d) = [to] \<and> fst (dr_envelope d) = snd (dr_from d)"

lemma jcall_Ok: "jcall c r f E w = (Ok x, w') \<longleftrightarrow> x = f (e_jmap E) (EvJmap c r # w_trace w)
   \<and> w' = tick E (emit (EvJmap c r) w)"
  by (auto simp: jcall_def call_def)

text \<open>
  A submission that succeeds ended with the batch going out, with the server creating both the
  message and the submission.
\<close>

lemma unpack_submission_Ok:
  "unpack_submission r E w = (Ok i, w') \<longleftrightarrow> r = Inr (CCreated (Some i), CCreated ()) \<and> w' = w"
proof (cases r)
  case (Inl m)
  then show ?thesis by (simp add: unpack_submission_def fail_def)
next
  case (Inr p)
  obtain x y where "p = (x, y)" by (cases p)
  with Inr show ?thesis
    by (cases x; cases y) (auto simp: unpack_submission_def bind_def need_def ret_def fail_def split: option.split)
qed

section \<open>Frames\<close>

text \<open>Which method calls each operation makes.\<close>

definition jmap_lookup :: "jmap_req \<Rightarrow> bool" where
  "jmap_lookup r \<longleftrightarrow> (case r of SetSeen _ _ \<Rightarrow> False | MoveEmails _ _ \<Rightarrow> False | Submit _ \<Rightarrow> False
     | UploadBlob _ \<Rightarrow> False | _ \<Rightarrow> True)"

definition allows_jread :: "(label \<Rightarrow> bool) \<Rightarrow> bool" where
  "allows_jread K \<longleftrightarrow> (\<forall>c r. jmap_lookup r \<longrightarrow> K (LEv (EvJmap c r)))"

lemma jread_evolves [frame_rules]:
  "allows_jread K \<Longrightarrow> jmap_lookup r \<Longrightarrow> within (evolves K) (jcall c r f)"
  by (rule jcall_evolves) (simp add: allows_jread_def)

lemma jmap_lookups [simp]:
  "jmap_lookup (QMailboxRole ro)" "jmap_lookup QMailboxes" "jmap_lookup (GMailboxes ids)"
  "jmap_lookup MailboxState" "jmap_lookup (MailboxChanges s)" "jmap_lookup (GThread t)"
  "jmap_lookup (GEmails g ids)" "jmap_lookup EmailState" "jmap_lookup (QEmails a b n)"
  "jmap_lookup (EmailChanges s)" "jmap_lookup GIdentity"
  by (simp_all add: jmap_lookup_def)

lemma lookups_evolve [frame_rules]:
  "allows_jread K \<Longrightarrow> within (evolves K) (mailbox_id_for_role c ro)"
  "allows_jread K \<Longrightarrow> within (evolves K) (primary_identity c)"
  "allows_jread K \<Longrightarrow> within (evolves K) (thread_email_ids c t)"
  "allows_jread K \<Longrightarrow> within (evolves K) (reply_headers c t)"
  "allows_jread K \<Longrightarrow> within (evolves K) (reply_quote c t)"
  "allows_jread K \<Longrightarrow> within (evolves K) (try_resolve_thread c i)"
  unfolding mailbox_id_for_role_def primary_identity_def thread_email_ids_def reply_headers_def
    reply_quote_def try_resolve_thread_def
  by (intro frame_rules; simp add: allows_jread_def)+

lemma filing_evolves: "allows_jread K \<Longrightarrow> within (evolves K) (filing_mailbox c)"
  unfolding filing_mailbox_def by (intro frame_rules)

lemma allows_jread_True: "allows_jread (\<lambda>_. True)"
  by (simp add: allows_jread_def)

lemma within_created:
  "(\<And>m. v = CUnwrapErr m \<Longrightarrow> within R (f m)) \<Longrightarrow> (\<And>m. v = CRejected m \<Longrightarrow> within R (g m)) \<Longrightarrow>
   (\<And>x. v = CCreated x \<Longrightarrow> within R (h x)) \<Longrightarrow>
   within R (case v of CUnwrapErr m \<Rightarrow> f m | CRejected m \<Rightarrow> g m | CCreated x \<Rightarrow> h x)"
  by (cases v) auto

lemma submit_evolves:
  "allows_jread K \<Longrightarrow> (\<And>d. carries to su b a d \<Longrightarrow> K (LEv (EvJmap c (Submit d)))) \<Longrightarrow>
   within (evolves K) (submit c to su b irt refs a)"
  unfolding submit_def unpack_submission_def filing_mailbox_def
  by (intro frame_rules within_created; simp add: allows_jread_def carries_def)+

lemma submit_Ok:
  assumes "submit c to subject body irt refs atts E w = (Ok i, w')"
  shows "\<exists>d t. w_trace w' = EvJmap c (Submit d) # t @ w_trace w \<and> carries to subject body atts d
    \<and> dr_in_reply_to d = irt \<and> dr_references d = refs
    \<and> e_submit (e_jmap E) (w_trace w') = Inr (CCreated (Some i), CCreated ())"
proof -
  obtain mailbox ident w0 w1 where fm: "filing_mailbox c E w = (Ok mailbox, w0)"
    and pi: "primary_identity c E w0 = (Ok ident, w1)" and s: "(case (case ident of Some t \<Rightarrow> t | None \<Rightarrow> (None, None, jc_username c)) of
       (identity_id, from_name, from_email) \<Rightarrow>
     bind (jcall c (Submit \<lparr>dr_mailbox = mailbox, dr_subject = subject,
         dr_from = (from_name, from_email), dr_to = to, dr_in_reply_to = irt,
         dr_references = refs, dr_body = body, dr_attachments = atts,
         dr_identity = identity_id, dr_envelope = (from_email, [to])\<rparr>) e_submit)
       unpack_submission) E w1 = (Ok i, w')"
    using assms unfolding submit_def bind_eq_Ok by blast
  obtain iid nm ad where t: "(case ident of Some t \<Rightarrow> t | None \<Rightarrow> (None, None, jc_username c)) = (iid, nm, ad)"
    by (cases "case ident of Some t \<Rightarrow> t | None \<Rightarrow> (None, None, jc_username c)")
  define d where "d = \<lparr>dr_mailbox = mailbox, dr_subject = subject, dr_from = (nm, ad), dr_to = to,
      dr_in_reply_to = irt, dr_references = refs, dr_body = body, dr_attachments = atts,
      dr_identity = iid, dr_envelope = (ad, [to])\<rparr>"
  have "bind (jcall c (Submit d) e_submit) unpack_submission E w1 = (Ok i, w')"
    using s by (simp add: t d_def)
  then have "e_submit (e_jmap E) (EvJmap c (Submit d) # w_trace w1) = Inr (CCreated (Some i), CCreated ())"
    and "w' = tick E (emit (EvJmap c (Submit d)) w1)"
    by (auto simp: bind_eq_Ok jcall_Ok unpack_submission_Ok)
  moreover have "carries to subject body atts d" "dr_in_reply_to d = irt" "dr_references d = refs"
    by (simp_all add: d_def carries_def)
  moreover have "evolves (\<lambda>_. True) w w0" "evolves (\<lambda>_. True) w0 w1"
    using lookups_evolve(2) filing_evolves fm pi withinD by (blast intro: allows_jread_True)+
  then obtain v where "w_trace w1 = v @ w_trace w" using evolves_trace evolves_trans by blast
  ultimately show ?thesis by auto
qed

definition allows_submit :: "(label \<Rightarrow> bool) \<Rightarrow> jclient \<Rightarrow> bool" where
  "allows_submit K c \<longleftrightarrow> (\<forall>d. K (LEv (EvJmap c (Submit d))))"

lemma sends_mail_evolve [frame_rules]:
  "allows_jread K \<Longrightarrow> allows_submit K c \<Longrightarrow> within (evolves K) (send_email c to su b a)"
  "allows_jread K \<Longrightarrow> allows_submit K c \<Longrightarrow> within (evolves K) (reply_to_email c q to su b t a)"
  unfolding send_email_def reply_to_email_def
  by (intro frame_rules submit_evolves; simp add: allows_submit_def)+

lemma jset_evolves [frame_rules]: "K (LEv (EvJmap c r)) \<Longrightarrow> within (evolves K) (jset c r)"
  unfolding jset_def by (intro frame_rules)

lemma flags_evolve [frame_rules]:
  "K (LEv (EvJmap c (SetSeen i True))) \<Longrightarrow> within (evolves K) (mark_as_read c i)"
  "K (LEv (EvJmap c (SetSeen i False))) \<Longrightarrow> within (evolves K) (mark_as_unread c i)"
  unfolding mark_as_read_def mark_as_unread_def set_seen_def by (intro frame_rules; assumption)+

lemma move_evolves [frame_rules]:
  "allows_jread K \<Longrightarrow> (\<And>ids m. K (LEv (EvJmap c (MoveEmails ids m)))) \<Longrightarrow>
   within (evolves K) (move_thread_to_role c t ro)"
  unfolding move_thread_to_role_def by (intro frame_rules)

lemma upload_matrix_media_evolves [frame_rules]:
  "(\<And>u. allows_mx K (DownloadMedia u)) \<Longrightarrow> (\<And>m. K (LEv (EvJmap c (UploadBlob m)))) \<Longrightarrow>
   within (evolves K) (upload_matrix_media c mc)"
  unfolding upload_matrix_media_def upload_attachment_stream_def Let_def
  by (intro frame_rules; assumption?)

text \<open>Nothing the sender does panics or waits for ever.\<close>

lemma within_created_calm [calm_rules]:
  "(\<And>m. v = CUnwrapErr m \<Longrightarrow> calm (f m)) \<Longrightarrow> (\<And>m. v = CRejected m \<Longrightarrow> calm (g m)) \<Longrightarrow>
   (\<And>x. v = CCreated x \<Longrightarrow> calm (h x)) \<Longrightarrow>
   calm (case v of CUnwrapErr m \<Rightarrow> f m | CRejected m \<Rightarrow> g m | CCreated x \<Rightarrow> h x)"
  by (cases v) auto

lemma sender_reads_calm [calm_rules]:
  "calm (mailbox_id_for_role c ro)" "calm (primary_identity c)" "calm (thread_email_ids c t)"
  "calm (filing_mailbox c)" "calm (unpack_submission u)" "calm (reply_headers c t)"
  "calm (reply_quote c t)" "calm (try_resolve_thread c i)" "calm (jset c rq)"
  unfolding mailbox_id_for_role_def primary_identity_def thread_email_ids_def filing_mailbox_def
    unpack_submission_def reply_headers_def reply_quote_def try_resolve_thread_def jset_def
  by (intro calm_rules)+

lemma sender_writes_calm [calm_rules]:
  "calm (submit c to su b irt refs a)" "calm (send_email c to su b a)"
  "calm (reply_to_email c q to su b t a)" "calm (mark_as_read c i)" "calm (mark_as_unread c i)"
  "calm (move_thread_to_role c t ro)" "calm (upload_matrix_media c mc)"
  unfolding submit_def send_email_def reply_to_email_def mark_as_read_def mark_as_unread_def
    set_seen_def move_thread_to_role_def upload_matrix_media_def upload_attachment_stream_def
  by (intro calm_rules)+

end
