(* ===== verification/Puppet_Login.thy ===== *)
theory Puppet_Login
  imports Matrix_Client
begin

text \<open>
  The requests the bridge makes as the real user, from \<^verbatim>\<open>src/src/puppet.rs\<close>: password and
  shared-secret login, \<^verbatim>\<open>whoami\<close>, joining a room, and the set of users a puppet task runs
  for.
\<close>

fun drop_ats :: "string \<Rightarrow> string" where
  "drop_ats [] = []"
| "drop_ats (c # s) = (if c = CHR ''@'' then drop_ats s else c # s)"

definition mx_localpart :: "mxid \<Rightarrow> string" where
  "mx_localpart mxid = (case split_once (drop_ats mxid) (CHR '':'') of
     Some (lp, _) \<Rightarrow> lp | None \<Rightarrow> mxid)"

text \<open>
  A JSON answer: the body must parse whatever the status, then the status must be a success,
  then the field must be a string.
\<close>

definition json_field :: "string \<Rightarrow> string \<Rightarrow> string \<Rightarrow> http_out \<Rightarrow> string act" where
  "json_field what field missing r = (case r of
     HttpErr m \<Rightarrow> fail (Other m)
   | HttpResp st _ body \<Rightarrow>
       bind (asks (\<lambda>E. l_json (e_lib E) body)) (\<lambda>parsed.
       bind (need ''error decoding response body'' parsed) (\<lambda>v.
       bind (status_text st) (\<lambda>t.
       bind (asks (\<lambda>E. l_show_json (e_lib E) v)) (\<lambda>shown.
       andthen (ensure (is_success st) (what @ '' failed ('' @ t @ ''): '' @ shown))
       (need missing (as_str (jat v field))))))))"

definition login_password :: "mxid \<Rightarrow> string \<Rightarrow> string act" where
  "login_password mxid password =
     bind (mx_call (LoginPassword (mx_localpart mxid) password))
       (json_field ''login'' ''access_token'' ''login response missing access_token'')"

definition shared_secret_password :: "(string \<Rightarrow> string \<Rightarrow> string) \<Rightarrow> string \<Rightarrow> mxid \<Rightarrow> string" where
  "shared_secret_password hmac secret mxid = concat (map (\<lambda>b. hex02 (of_char b)) (hmac secret mxid))"

definition mint_via_shared_secret :: "mxid \<Rightarrow> string \<Rightarrow> string act" where
  "mint_via_shared_secret mxid secret =
     bind (asks (\<lambda>E. shared_secret_password (l_hmac (e_crypt E)) secret mxid)) (login_password mxid)"

definition whoami :: "string \<Rightarrow> mxid act" where
  "whoami token =
     bind (mx_call (WhoAmI token))
       (json_field ''whoami'' ''user_id'' ''whoami response missing user_id'')"

definition join_room_via_token :: "string \<Rightarrow> room_id \<Rightarrow> unit act" where
  "join_room_via_token token room =
     bind (mx_call (PuppetJoin room token)) (\<lambda>r. case r of
       HttpErr m \<Rightarrow> fail (Other m)
     | HttpResp st _ _ \<Rightarrow> bind (status_text st) (\<lambda>t.
         ensure (is_success st) (''join of '' @ room @ '' failed ('' @ t @ '')'')))"

text \<open>At most one puppet task per user: the set is checked and filled under its mutex.\<close>

definition ensure_running :: "mxid \<Rightarrow> string \<Rightarrow> unit act" where
  "ensure_running mxid token =
     bind (gets w_puppets) (\<lambda>running.
     if mxid \<in> set running then ret ()
     else andthen (mem (AddPuppet mxid)) (mem (Spawn (TPuppet mxid token))))"

lemma json_field_evolves [frame_rules]: "within (evolves K) (json_field a b c r)"
  unfolding json_field_def by (intro frame_rules)

lemma puppet_login_evolves [frame_rules]:
  "(\<And>p. allows_mx K (LoginPassword (mx_localpart m) p)) \<Longrightarrow> within (evolves K) (login_password m pw)"
  "(\<And>p. allows_mx K (LoginPassword (mx_localpart m) p)) \<Longrightarrow> within (evolves K) (mint_via_shared_secret m s)"
  "allows_mx K (WhoAmI t) \<Longrightarrow> within (evolves K) (whoami t)"
  "allows_mx K (PuppetJoin r t) \<Longrightarrow> within (evolves K) (join_room_via_token t r)"
  "K (LMem (AddPuppet m)) \<Longrightarrow> K (LMem (Spawn (TPuppet m t))) \<Longrightarrow> within (evolves K) (ensure_running m t)"
  unfolding login_password_def mint_via_shared_secret_def whoami_def join_room_via_token_def
    ensure_running_def
  by (intro frame_rules; assumption?)+

end
