(* ===== verification/Rooms.thy ===== *)
theory Rooms
  imports Puppet_Login
begin

text \<open>
  Provisioning rooms, the first half of \<^verbatim>\<open>src/src/ghost.rs\<close>: a contact room with its ghost,
  the user's email space behind a creation lock, and the repair that files rooms into it.
\<close>

definition generic_subject :: string where
  "generic_subject = ''Matrix Conversation''"

definition fresh_email_subject :: "string option \<Rightarrow> string" where
  "fresh_email_subject room = (case map_option trim room of
     Some s \<Rightarrow> if s = [] then generic_subject else s
   | None \<Rightarrow> generic_subject)"

section \<open>The email space\<close>

definition user_label :: "mxid \<Rightarrow> string" where
  "user_label mxid = hd (split_char (CHR '':'') (drop_ats mxid))"

definition space_topic :: "string \<Rightarrow> string" where
  "space_topic label = ''Bridged email for '' @ label @ ''. Every room in this space is one email conversation, '' @
     ''mirrored to and from your mailbox by the JMAP bridge. Reply in a room to answer by '' @
     ''email, or use !compose <address> to start a new one.''"

definition create_email_space :: "mxid \<Rightarrow> room_id act" where
  "create_email_space user =
     bind (get_user_email user) (\<lambda>known.
     let label = (case known of Some l \<Rightarrow> l | None \<Rightarrow> user_label user) in
     bind (create_space label (space_topic label) user) (\<lambda>space.
     bind (attempt (get_bridge_state ''bot_avatar'')) (\<lambda>avatar.
     andthen (case avatar of
         Inl _ \<Rightarrow> ret ()
       | Inr st \<Rightarrow> (case st of
           None \<Rightarrow> ret ()
         | Some s \<Rightarrow> (case split_whitespace s of
             _ # mxc # _ \<Rightarrow> ignore (set_room_avatar space mxc)
           | _ \<Rightarrow> ret ())))
       (ret space))))"

definition space_lock_key :: "mxid \<Rightarrow> string" where
  "space_lock_key user = ''email_space:'' @ user"

text \<open>Under the lock: look again, else create the space and record it.\<close>

definition space_under_lock :: "mxid \<Rightarrow> room_id act" where
  "space_under_lock user =
     bind (get_email_space_room user) (\<lambda>again. case again of
       Some space \<Rightarrow> ret space
     | None \<Rightarrow>
         bind (create_email_space user) (\<lambda>space.
         andthen (set_email_space_room user space) (ret space)))"

text \<open>
  The loop polls until the space is known or the lock is free; the fuel bounds the number of
  polls.
\<close>

primrec ensure_space_loop :: "nat \<Rightarrow> mxid \<Rightarrow> room_id act" where
  "ensure_space_loop 0 user = hang"
| "ensure_space_loop (Suc n) user =
     bind (get_email_space_room user) (\<lambda>known. case known of
       Some space \<Rightarrow> ret space
     | None \<Rightarrow>
         bind (try_acquire_room_creation_lock (space_lock_key user)) (\<lambda>got.
         if got
         then guarded (release_room_creation_lock (space_lock_key user)) (space_under_lock user)
         else andthen (sleep 0) (ensure_space_loop n user)))"

definition ensure_email_space :: "mxid \<Rightarrow> room_id act" where
  "ensure_email_space user = bind (asks e_fuel) (\<lambda>n. ensure_space_loop n user)"

definition ensure_room_in_email_space :: "mxid \<Rightarrow> room_id \<Rightarrow> unit act" where
  "ensure_room_in_email_space user room =
     bind (ensure_email_space user) (\<lambda>space. add_room_to_space space room)"

definition repair_email_space :: "mxid \<Rightarrow> unit act" where
  "repair_email_space user =
     bind (get_user_room_ids user) (\<lambda>rooms.
     if rooms = [] then ret ()
     else bind (ensure_email_space user) (\<lambda>space.
       for_each rooms (\<lambda>room. ignore (add_room_to_space space room))))"

section \<open>Contact rooms\<close>

definition create_contact_room :: "mxid \<Rightarrow> addr \<Rightarrow> string \<Rightarrow> room_id act" where
  "create_contact_room user email display_name =
     bind (asks (\<lambda>E. email_to_localpart (l_lower (e_lib E)) email)) (\<lambda>localpart.
     bind (asks (\<lambda>E. local_mxid localpart (c_domain (e_cfg E)))) (\<lambda>ghost.
     bind (ensure_user_exists localpart) (\<lambda>created.
     andthen (if created then ignore (set_display_name ghost display_name) else ret ())
     (bind (create_room_for_contact display_name email user) (\<lambda>room.
     andthen (save_room_ghost_mapping room email user)
     (andthen (ignore (join_room_as room ghost))
     (bind (attempt (get_matrix_puppet_token user)) (\<lambda>tok.
     andthen (case tok of
         Inl _ \<Rightarrow> ret ()
       | Inr t \<Rightarrow> (case t of
           None \<Rightarrow> ret ()
         | Some token \<Rightarrow> ignore (join_room_via_token token room)))
     (andthen (ignore (ensure_room_in_email_space user room))
     (ret room))))))))))"

section \<open>Frames\<close>

text \<open>
  What provisioning may do: requests to the homeserver, the lock of the space, the two key-value rows of
  the user, and one binding of a room to the contact.
\<close>

definition allows_rooms :: "(label \<Rightarrow> bool) \<Rightarrow> mxid \<Rightarrow> bool" where
  "allows_rooms K user \<longleftrightarrow> (\<forall>r. allows_mx K r) \<and> K (LDb (TakeLock (space_lock_key user))) \<and> K (LDb (DropLock (space_lock_key user)))
     \<and> (\<forall>r. K (LDb (PutKv user ''email_space_room'' r))) \<and> (\<forall>r a. K (LDb (PutGhost r a user)))"

lemma allows_rooms_ghost: "allows_rooms K u \<Longrightarrow> allows_ghost K"
  by (simp add: allows_rooms_def allows_ghost_def)

lemma create_email_space_evolves [frame_rules]:
  "(\<forall>r. allows_mx K r) \<Longrightarrow> within (evolves K) (create_email_space u)"
  unfolding create_email_space_def Let_def
  by (intro frame_rules; simp add: allows_ghost_def)

lemma ensure_space_loop_evolves:
  "allows_rooms K u \<Longrightarrow> within (evolves K) (ensure_space_loop n u)"
proof (induction n)
  case (Suc n)
  then show ?case
    unfolding ensure_space_loop.simps space_under_lock_def
    by (intro frame_rules; simp add: allows_rooms_def)
qed (auto intro: frame_rules)

lemma ensure_email_space_evolves [frame_rules]:
  "allows_rooms K u \<Longrightarrow> within (evolves K) (ensure_email_space u)"
  unfolding ensure_email_space_def by (intro frame_rules ensure_space_loop_evolves)

lemma spaces_evolve [frame_rules]:
  "allows_rooms K u \<Longrightarrow> within (evolves K) (ensure_room_in_email_space u r)"
  "allows_rooms K u \<Longrightarrow> within (evolves K) (repair_email_space u)"
  unfolding ensure_room_in_email_space_def repair_email_space_def
  by (intro frame_rules; simp add: allows_rooms_def)+

lemma create_contact_room_evolves [frame_rules]:
  "allows_rooms K u \<Longrightarrow> within (evolves K) (create_contact_room u a d)"
  unfolding create_contact_room_def
  by (intro frame_rules; simp add: allows_rooms_def allows_ghost_def)

section \<open>What provisioning achieves\<close>

text \<open>
  A call that gave a space leaves it recorded, so the next call finds it with one query and
  makes no request.
\<close>

definition space_of :: "mxid \<Rightarrow> db \<Rightarrow> room_id option" where
  "space_of u d = map_option sr_val (find_row (\<lambda>r. sr_pk r = (u, ''email_space_room'')) (t_state d))"

lemma exec_put_kv_get:
  "exec t (PutKv u k v) d = Inr (n, d') \<Longrightarrow>
   map_option sr_val (find_row (\<lambda>r. sr_pk r = (u, k)) (t_state d')) = Some v"
  by (auto simp: find_row_put_same split: if_splits)

lemma exec_drop_lock_state: "exec t (DropLock k) d = Inr (n, d') \<Longrightarrow> t_state d' = t_state d"
  by auto

lemma release_state:
  "t_state (w_db (snd (release_room_creation_lock k E w))) = t_state (w_db w)"
  by (auto simp: release_room_creation_lock_def exec_unit_def bind_def run_def Let_def ret_def
      split: option.split)

lemma get_space_Ok:
  "get_email_space_room u E w = (Ok k, w') \<longleftrightarrow>
   e_fault (e_net E) (w_step w) = None \<and> k = space_of u (w_db w) \<and> w' = tick E w"
  by (auto simp: get_email_space_room_def get_jmap_state_def query_Ok space_of_def)

lemma set_space_Ok:
  "set_email_space_room u s E w = (Ok x, w') \<Longrightarrow> space_of u (w_db w') = Some s"
  using exec_put_kv_get
  by (auto simp: set_email_space_room_def save_jmap_state_def exec_unit_Ok run_Ok space_of_def
      simp del: exec.simps)

lemma space_under_lock_records:
  "space_under_lock u E w = (Ok s, w') \<Longrightarrow> space_of u (w_db w') = Some s"
  by (auto simp: space_under_lock_def bind_eq_Ok get_space_Ok andthen_def ret_def
      split: option.splits dest: set_space_Ok)

lemma guarded_Ok:
  "guarded n m E w = (Ok x, w') \<longleftrightarrow> (\<exists>w1. m E w = (Ok x, w1) \<and> w' = snd (n E w1))"
  by (auto simp: guarded_def split: prod.splits outcome.splits)

lemma ensure_space_loop_records:
  "ensure_space_loop n u E w = (Ok s, w') \<Longrightarrow> space_of u (w_db w') = Some s"
proof (induction n arbitrary: w)
  case 0
  then show ?case by (simp add: hang_def)
next
  case (Suc n)
  have keep: "space_of u (w_db (snd (release_room_creation_lock k E w1))) = space_of u (w_db w1)" for k w1
    by (simp add: space_of_def release_state)
  from Suc show ?case
    by (auto simp: bind_eq_Ok get_space_Ok andthen_def ret_def guarded_Ok keep
        split: option.splits if_splits dest: space_under_lock_records)
qed

lemma space_known_get:
  assumes "space_of u (w_db w) = Some s" and "e_fault (e_net E) (w_step w) = None" and "0 < e_fuel E"
  shows "ensure_email_space u E w = (Ok s, tick E w)"
proof -
  have "get_email_space_room u E w = (Ok (Some s), tick E w)"
    using assms(1,2) by (simp add: get_space_Ok)
  then show ?thesis
    using assms(3) by (cases "e_fuel E") (auto simp: ensure_email_space_def bind_def asks_def ret_def)
qed

end
