(* ===== verification/Sync_Email.thy ===== *)
theory Sync_Email
  imports Content Sender Rooms
begin

text \<open>
  The inbound direction, \<^verbatim>\<open>src/src/sync/email.rs\<close>: the walk over \<^verbatim>\<open>Email/changes\<close>, one
  room per email thread, and the mirroring of the read state; and the anchor of a windowed
  backfill from \<^verbatim>\<open>sync/backfill.rs\<close>, which the first page shares. The poller belongs to one
  user and one client.
\<close>

section \<open>Who an email is from and for\<close>

definition unknown_sender :: string where
  "unknown_sender = ''unknown@sender''"

definition should_skip_inbound :: "addr option \<Rightarrow> addr option \<Rightarrow> bool" where
  "should_skip_inbound sender own \<longleftrightarrow> (case sender of
     None \<Rightarrow> True
   | Some a \<Rightarrow> (case own of None \<Rightarrow> False | Some o' \<Rightarrow> eq_ignore_ascii_case o' a))"

definition ghost_display_name :: "string option \<Rightarrow> addr \<Rightarrow> string" where
  "ghost_display_name nm email = (case map_option trim nm of
     None \<Rightarrow> email
   | Some n \<Rightarrow> if n = [] then email else n @ '' ('' @ email @ '')'')"

definition before_at :: "string \<Rightarrow> string" where
  "before_at a = hd (split_char (CHR ''@'') a)"

definition choose_recipient :: "addr list \<Rightarrow> addr list \<Rightarrow> addr option \<Rightarrow> addr option" where
  "choose_recipient to cc own =
     (case Option.bind own (\<lambda>e. find (\<lambda>a. eq_ignore_ascii_case (before_at a) (before_at e)) (to @ cc)) of
        Some a \<Rightarrow> Some a
      | None \<Rightarrow> (case to of a # _ \<Rightarrow> Some a | [] \<Rightarrow> own))"

definition addresses :: "email_addr list option \<Rightarrow> addr list" where
  "addresses l = map ea_email (case l of Some xs \<Rightarrow> xs | None \<Rightarrow> [])"

definition recipient_alias :: "email \<Rightarrow> addr option \<Rightarrow> addr option" where
  "recipient_alias e own = choose_recipient (addresses (em_to e)) (addresses (em_cc e)) own"

definition first_from :: "email \<Rightarrow> email_addr option" where
  "first_from e = (case em_from e of Some (a # _) \<Rightarrow> Some a | _ \<Rightarrow> None)"

record ghost_user =
  gu_email :: addr
  gu_id :: mxid

definition resolve_ghost :: "email \<Rightarrow> ghost_user act" where
  "resolve_ghost e =
     (let sender = first_from e;
          email_addr = (case sender of Some a \<Rightarrow> ea_email a | None \<Rightarrow> unknown_sender) in
      bind (asks (\<lambda>E. email_to_localpart (l_lower (e_lib E)) email_addr)) (\<lambda>localpart.
      bind (asks (\<lambda>E. local_mxid localpart (c_domain (e_cfg E)))) (\<lambda>user_id.
      bind (ensure_user_exists localpart) (\<lambda>created.
      andthen (if created
        then ignore (set_display_name user_id (ghost_display_name (Option.bind sender ea_name) email_addr))
        else ret ())
      (ret \<lparr>gu_email = email_addr, gu_id = user_id\<rparr>)))))"

text \<open>\<^verbatim>\<open>u64::try_from(t).unwrap_or(0).saturating_mul(1000)\<close>\<close>

definition millis :: "int \<Rightarrow> nat" where
  "millis t = min (nat t * 1000) (2 ^ 64 - 1)"

definition timestamp_of :: "email \<Rightarrow> nat option" where
  "timestamp_of e = map_option millis (em_received e)"

section \<open>Read state\<close>

definition read_synced_key :: "email_id \<Rightarrow> string" where
  "read_synced_key i = ''read_synced:'' @ i"

definition is_seen :: "email \<Rightarrow> bool" where
  "is_seen e = List.member (em_keywords e) ''$seen''"

definition mirror_read :: "mxid \<Rightarrow> email_id \<Rightarrow> room_id \<Rightarrow> string \<Rightarrow> unit act" where
  "mirror_read user email room token =
     bind (attempt (get_event_id_by_email email)) (\<lambda>ev. case ev of
       Inr (Some event) \<Rightarrow>
         bind (attempt (send_read_receipt room event token)) (\<lambda>sent. case sent of
           Inl _ \<Rightarrow> ret ()
         | Inr _ \<Rightarrow>
             andthen (ignore (set_marked_unread user room False token))
             (ignore (save_jmap_state user (read_synced_key email) ''1'')))
     | _ \<Rightarrow> ret ())"

definition mirror_unread :: "mxid \<Rightarrow> email_id \<Rightarrow> room_id \<Rightarrow> string \<Rightarrow> unit act" where
  "mirror_unread user email room token =
     bind (attempt (set_marked_unread user room True token)) (\<lambda>sent. case sent of
       Inl _ \<Rightarrow> ret ()
     | Inr _ \<Rightarrow> ignore (delete_jmap_state user (read_synced_key email)))"

definition mirror_edge :: "mxid \<Rightarrow> email \<Rightarrow> email_id \<Rightarrow> unit act" where
  "mirror_edge user e email =
     bind (attempt (get_matrix_puppet_token user)) (\<lambda>tok. case tok of
       Inr (Some token) \<Rightarrow> (case em_thread e of
         None \<Rightarrow> ret ()
       | Some thread \<Rightarrow>
           bind (attempt (get_thread_info thread)) (\<lambda>info. case info of
             Inr (Some (_, room, _)) \<Rightarrow>
               (if is_seen e then mirror_read user email room token else mirror_unread user email room token)
           | _ \<Rightarrow> ret ()))
     | _ \<Rightarrow> ret ())"

definition sync_read_state :: "mxid \<Rightarrow> email \<Rightarrow> unit act" where
  "sync_read_state user e = (case em_id e of
     None \<Rightarrow> ret ()
   | Some email \<Rightarrow>
       bind (attempt (get_jmap_state user (read_synced_key email))) (\<lambda>r.
       let synced_read = (case r of Inr (Some _) \<Rightarrow> True | _ \<Rightarrow> False) in
       if is_seen e = synced_read then ret () else mirror_edge user e email))"

section \<open>Bridging one email\<close>

definition process_reply :: "mxid \<Rightarrow> jclient \<Rightarrow> email \<Rightarrow> ghost_user \<Rightarrow> email_body \<Rightarrow> room_id \<Rightarrow> unit act" where
  "process_reply user c e ghost body room =
     bind (send_message_as room (eb_plain body) (eb_html body) None None (gu_id ghost) (timestamp_of e)) (\<lambda>event.
     case (em_thread e, em_id e) of
       (Some thread, Some email) \<Rightarrow>
         andthen (save_message_mapping email event)
         (andthen (ignore (update_thread_latest_event thread event))
         (handle_attachments c user e room None None (gu_id ghost) (timestamp_of e)))
     | _ \<Rightarrow> ret ())"

definition thread_topic :: "email \<Rightarrow> addr \<Rightarrow> addr option \<Rightarrow> string" where
  "thread_topic e from_addr own = (case recipient_alias e own of
     None \<Rightarrow> ''Email from '' @ from_addr
   | Some to \<Rightarrow> ''Email from '' @ from_addr @ '' to '' @ to)"

definition open_thread_room ::
    "mxid \<Rightarrow> jclient \<Rightarrow> email \<Rightarrow> ghost_user \<Rightarrow> email_body \<Rightarrow> thread_id \<Rightarrow> email_id \<Rightarrow> unit act" where
  "open_thread_room user c e ghost body thread email =
     (let subject = (case em_subject e of Some s \<Rightarrow> s | None \<Rightarrow> no_subject) in
      bind (create_contact_room user (gu_email ghost)
        (ghost_display_name (Option.bind (first_from e) ea_name) (gu_email ghost))) (\<lambda>room.
      andthen (ignore (set_room_name room (clean_subject subject)))
      (bind (get_user_email user) (\<lambda>own.
      andthen (ignore (set_room_topic room (thread_topic e (gu_email ghost) own)))
      (bind (send_message_as room (eb_plain body) (eb_html body) None None (gu_id ghost) (timestamp_of e)) (\<lambda>event.
      andthen (save_thread_mapping_atomic thread event room subject)
      (andthen (save_message_mapping email event)
      (handle_attachments c user e room None None (gu_id ghost) (timestamp_of e)))))))))"

definition thread_lock_key :: "thread_id \<Rightarrow> string" where
  "thread_lock_key thread = ''thread:'' @ thread"

definition new_thread_locked ::
    "mxid \<Rightarrow> jclient \<Rightarrow> email \<Rightarrow> ghost_user \<Rightarrow> email_body \<Rightarrow> thread_id \<Rightarrow> email_id \<Rightarrow> unit act" where
  "new_thread_locked user c e ghost body thread email =
     bind (get_thread_info thread) (\<lambda>again. case again of
       Some (_, room, _) \<Rightarrow> process_reply user c e ghost body room
     | None \<Rightarrow> open_thread_room user c e ghost body thread email)"

text \<open>The wait for the lock; the fuel bounds the polls.\<close>

primrec new_thread_loop ::
    "nat \<Rightarrow> mxid \<Rightarrow> jclient \<Rightarrow> email \<Rightarrow> ghost_user \<Rightarrow> email_body \<Rightarrow> thread_id \<Rightarrow> email_id \<Rightarrow> unit act" where
  "new_thread_loop 0 user c e ghost body thread email = hang"
| "new_thread_loop (Suc n) user c e ghost body thread email =
     bind (get_thread_info thread) (\<lambda>known. case known of
       Some (_, room, _) \<Rightarrow> process_reply user c e ghost body room
     | None \<Rightarrow>
         bind (try_acquire_room_creation_lock (thread_lock_key thread)) (\<lambda>got.
         if got
         then guarded (release_room_creation_lock (thread_lock_key thread))
           (new_thread_locked user c e ghost body thread email)
         else andthen (sleep 0) (new_thread_loop n user c e ghost body thread email)))"

definition process_new_thread :: "mxid \<Rightarrow> jclient \<Rightarrow> email \<Rightarrow> ghost_user \<Rightarrow> email_body \<Rightarrow> unit act" where
  "process_new_thread user c e ghost body = (case (em_thread e, em_id e) of
     (Some thread, Some email) \<Rightarrow>
       bind (asks e_fuel) (\<lambda>n. new_thread_loop n user c e ghost body thread email)
   | _ \<Rightarrow> ret ())"

definition bridge_inbound :: "mxid \<Rightarrow> jclient \<Rightarrow> email \<Rightarrow> thread_id \<Rightarrow> unit act" where
  "bridge_inbound user c e thread =
     bind (resolve_ghost e) (\<lambda>ghost.
     bind (asks (\<lambda>E. from_email (e_lib E) e (c_render_mode (e_cfg E)))) (\<lambda>body.
     bind (get_thread_info thread) (\<lambda>info.
     andthen (case info of
         Some (_, room, _) \<Rightarrow> process_reply user c e ghost body room
       | None \<Rightarrow> process_new_thread user c e ghost body)
     (sync_read_state user e))))"

definition process_email :: "mxid \<Rightarrow> jclient \<Rightarrow> email \<Rightarrow> unit act" where
  "process_email user c e =
     bind (need ''Email missing id'' (em_id e)) (\<lambda>email.
     bind (has_message_mapped email) (\<lambda>mapped.
     if mapped then sync_read_state user e
     else bind (get_user_email user) (\<lambda>own.
       if should_skip_inbound (map_option ea_email (first_from e)) own then ret ()
       else bind (need ''Email missing threadId'' (em_thread e)) (\<lambda>thread.
         bridge_inbound user c e thread))))"

section \<open>The walk over changes\<close>

definition fetch_emails :: "jclient \<Rightarrow> email_id list \<Rightarrow> email list act" where
  "fetch_emails c ids = bind (jcall c (GEmails GetFull ids) e_emails) (junwrap ''Email/get failed'')"

definition backfill_cutoff_key :: string where
  "backfill_cutoff_key = ''backfill_cutoff''"

definition anchor_cutoff :: "mxid \<Rightarrow> string \<Rightarrow> int option act" where
  "anchor_cutoff user window =
     bind now (\<lambda>t. bind (asks (\<lambda>E. l_sub_window (e_lib E) t window)) (\<lambda>cut. case cut of
       None \<Rightarrow> ret None
     | Some cutoff \<Rightarrow>
         andthen (ignore (save_jmap_state user backfill_cutoff_key (show_int cutoff))) (ret (Some cutoff))))"

definition resolve_backfill_cutoff :: "mxid \<Rightarrow> int option act" where
  "resolve_backfill_cutoff user =
     bind (asks (c_window \<circ> e_cfg)) (\<lambda>w. case w of
       None \<Rightarrow> ret None
     | Some window \<Rightarrow>
         bind (attempt (get_jmap_state user backfill_cutoff_key)) (\<lambda>saved.
         case (case saved of Inr (Some s) \<Rightarrow> parse_i64 s | _ \<Rightarrow> None) of
           Some cutoff \<Rightarrow> ret (Some cutoff)
         | None \<Rightarrow> anchor_cutoff user window))"

text \<open>The first page: the oldest emails in the window, and the state to continue from.\<close>

definition first_page :: "mxid \<Rightarrow> jclient \<Rightarrow> (email_id list \<times> string) act" where
  "first_page user c =
     bind (resolve_backfill_cutoff user) (\<lambda>cutoff.
     bind (asks (c_sync_limit \<circ> e_cfg)) (\<lambda>limit.
     bind (jcall c (QEmails cutoff None limit) e_query) (\<lambda>r.
     bind (junwrap ''Empty response for Email/query'' r) (\<lambda>(query_state, ids).
     andthen (if length ids = limit
       then ignore (save_jmap_state user ''backfill_position'' (show_nat limit)) else ret ())
     (andthen (ignore (save_jmap_state user ''query'' query_state))
     (bind (jcall c EmailState e_state) (\<lambda>g.
     bind (junwrap ''Empty response for Email/get state bootstrap'' g) (\<lambda>changes_state.
     ret (ids, changes_state)))))))))"

definition process_ids :: "mxid \<Rightarrow> jclient \<Rightarrow> email_id list \<Rightarrow> unit act" where
  "process_ids user c ids = (if ids = [] then ret ()
     else bind (fetch_emails c ids) (\<lambda>emails. for_each emails (\<lambda>e. ignore (process_email user c e))))"

definition cannot_calculate :: "'a jres \<Rightarrow> bool" where
  "cannot_calculate r = (case r of JMethodErr b _ \<Rightarrow> b | _ \<Rightarrow> False)"

text \<open>
  The loop of \<^verbatim>\<open>sync_emails\<close>: \<open>state\<close> is the state to ask for changes since, and the result
  is the state to save. How often it goes round is up to the server; the fuel bounds it.
\<close>

primrec sync_loop :: "nat \<Rightarrow> mxid \<Rightarrow> jclient \<Rightarrow> string option \<Rightarrow> string act" where
  "sync_loop 0 user c st = hang"
| "sync_loop (Suc n) user c st = (case st of
     None \<Rightarrow> bind (first_page user c) (\<lambda>(ids, new_state).
       andthen (process_ids user c ids) (ret new_state))
   | Some since \<Rightarrow> bind (jcall c (EmailChanges since) e_changes) (\<lambda>r.
       if cannot_calculate r
       then andthen (delete_jmap_state user ''changes'') (sync_loop n user c None)
       else bind (junwrap ''Empty response for Email/changes'' r) (\<lambda>ch.
         andthen (for_each (ch_destroyed ch) (\<lambda>i. ignore (mark_email_destroyed i)))
         (andthen (process_ids user c (ch_created ch @ ch_updated ch))
         (if ch_more ch then sync_loop n user c (Some (ch_new_state ch)) else ret (ch_new_state ch))))))"

definition sync_emails :: "mxid \<Rightarrow> jclient \<Rightarrow> unit act" where
  "sync_emails user c =
     bind (get_jmap_state user ''changes'') (\<lambda>last_state.
     bind (asks e_fuel) (\<lambda>n.
     bind (sync_loop n user c last_state) (\<lambda>final_state.
     save_jmap_state user ''changes'' final_state)))"

section \<open>Frames\<close>

text \<open>What mirroring the read state may do, for one user and one email.\<close>

definition allows_read_state :: "(label \<Rightarrow> bool) \<Rightarrow> mxid \<Rightarrow> email_id option \<Rightarrow> bool" where
  "allows_read_state K user i \<longleftrightarrow> (\<forall>r e t. allows_mx K (ReadReceipt r e t)) \<and> (\<forall>u r b t. allows_mx K (MarkedUnread u r b t))
     \<and> (\<forall>j. i = Some j \<longrightarrow> K (LDb (PutKv user (read_synced_key j) ''1'')) \<and> K (LDb (DelKv user (read_synced_key j))))"

lemma read_state_mirror_evolves [frame_rules]:
  "allows_read_state K u (em_id e) \<Longrightarrow> within (evolves K) (sync_read_state u e)"
  unfolding sync_read_state_def mirror_edge_def mirror_read_def mirror_unread_def Let_def
  by (intro frame_rules; simp add: allows_read_state_def)

text \<open>
  What inbound bridging of emails may do for one user: of its key-value rows all but the sync state
  and the position of the backfill; and what the sync as a whole may do.
\<close>

definition allows_email :: "(label \<Rightarrow> bool) \<Rightarrow> mxid \<Rightarrow> bool" where
  "allows_email K user \<longleftrightarrow> allows_rooms K user \<and> allows_attach K \<and> allows_jread K
     \<and> (\<forall>k. K (LDb (TakeLock k)) \<and> K (LDb (DropLock k)))
     \<and> (\<forall>k v. k \<noteq> ''changes'' \<and> k \<noteq> ''backfill_position'' \<longrightarrow> K (LDb (PutKv user k v)) \<and> K (LDb (DelKv user k)))
     \<and> (\<forall>i e. K (LDb (PutMessage i e))) \<and> (\<forall>t e r s. K (LDb (PutThreadAndSubject t e r s)))
     \<and> (\<forall>i. K (LDb (MarkDestroyed i)))"

definition allows_sync :: "(label \<Rightarrow> bool) \<Rightarrow> mxid \<Rightarrow> bool" where
  "allows_sync K user \<longleftrightarrow> allows_rooms K user \<and> allows_attach K \<and> allows_jread K
     \<and> (\<forall>k. K (LDb (TakeLock k)) \<and> K (LDb (DropLock k)))
     \<and> (\<forall>k v. K (LDb (PutKv user k v)) \<and> K (LDb (DelKv user k)))
     \<and> (\<forall>i e. K (LDb (PutMessage i e))) \<and> (\<forall>t e r s. K (LDb (PutThreadAndSubject t e r s)))
     \<and> (\<forall>i. K (LDb (MarkDestroyed i))) \<and> (\<forall>m r. K (LDb (PutMailbox m r)))"

lemma allows_sync_parts:
  "allows_sync K u \<Longrightarrow> allows_rooms K u" "allows_sync K u \<Longrightarrow> allows_attach K"
  "allows_sync K u \<Longrightarrow> allows_jread K" "allows_sync K u \<Longrightarrow> allows_read_state K u i"
  "allows_sync K u \<Longrightarrow> allows_ghost K" "allows_sync K u \<Longrightarrow> allows_mx K r"
  "allows_sync K u \<Longrightarrow> allows_email K u"
  by (auto simp: allows_sync_def allows_email_def allows_read_state_def allows_rooms_def allows_ghost_def)

lemma allows_email_parts:
  "allows_email K u \<Longrightarrow> allows_rooms K u" "allows_email K u \<Longrightarrow> allows_attach K"
  "allows_email K u \<Longrightarrow> allows_jread K" "allows_email K u \<Longrightarrow> allows_read_state K u i"
  "allows_email K u \<Longrightarrow> allows_ghost K" "allows_email K u \<Longrightarrow> allows_mx K r"
  by (auto simp: allows_email_def allows_read_state_def allows_rooms_def allows_ghost_def read_synced_key_def)

lemma resolve_ghost_evolves [frame_rules]:
  "allows_email K u \<Longrightarrow> within (evolves K) (resolve_ghost e)"
  unfolding resolve_ghost_def Let_def by (intro frame_rules; simp add: allows_email_parts)

lemma process_reply_evolves [frame_rules]:
  "allows_email K u \<Longrightarrow> within (evolves K) (process_reply u c e g b r)"
  unfolding process_reply_def
  by (intro frame_rules; simp add: allows_email_parts) (auto simp: allows_email_def allows_attach_def)

lemma open_thread_room_evolves [frame_rules]:
  "allows_email K u \<Longrightarrow> within (evolves K) (open_thread_room u c e g b t i)"
  unfolding open_thread_room_def Let_def
  by (intro frame_rules; simp add: allows_email_parts; simp add: allows_email_def)

lemma new_thread_loop_evolves:
  "allows_email K u \<Longrightarrow> within (evolves K) (new_thread_loop n u c e g b t i)"
proof (induction n)
  case (Suc n)
  then show ?case
    unfolding new_thread_loop.simps new_thread_locked_def
    by (intro frame_rules; simp add: allows_email_parts; simp add: allows_email_def allows_rooms_def)
qed (auto intro: frame_rules)

lemma process_email_evolves [frame_rules]:
  "allows_email K u \<Longrightarrow> within (evolves K) (process_email u c e)"
  unfolding process_email_def bridge_inbound_def process_new_thread_def
  by (intro frame_rules new_thread_loop_evolves; simp add: allows_email_parts)

lemma cutoff_evolves [frame_rules]:
  "allows_email K u \<Longrightarrow> within (evolves K) (resolve_backfill_cutoff u)"
  unfolding resolve_backfill_cutoff_def anchor_cutoff_def backfill_cutoff_key_def
  by (intro frame_rules; simp add: allows_email_def)

lemma fetch_emails_evolves [frame_rules]: "allows_jread K \<Longrightarrow> within (evolves K) (fetch_emails c ids)"
  unfolding fetch_emails_def by (intro frame_rules; simp)

lemma process_ids_evolves [frame_rules]:
  "allows_email K u \<Longrightarrow> within (evolves K) (process_ids u c ids)"
  unfolding process_ids_def by (intro frame_rules; simp add: allows_email_parts)

lemma first_page_evolves [frame_rules]:
  "allows_email K u \<Longrightarrow> (\<forall>v. K (LDb (PutKv u ''backfill_position'' v))) \<Longrightarrow> within (evolves K) (first_page u c)"
  unfolding first_page_def by (intro frame_rules; simp add: allows_email_parts; simp add: allows_email_def)

lemma sync_loop_evolves:
  "allows_email K u \<Longrightarrow> K (LDb (DelKv u ''changes'')) \<Longrightarrow> (\<forall>v. K (LDb (PutKv u ''backfill_position'' v))) \<Longrightarrow>
   within (evolves K) (sync_loop n u c st)"
proof (induction n arbitrary: st)
  case (Suc n)
  have jr: "allows_jread K" using Suc.prems(1) by (rule allows_email_parts)
  show ?case
    unfolding sync_loop.simps
    using Suc.prems by (intro frame_rules jr Suc.IH; (assumption | simp add: allows_email_def)?)
qed (auto intro: frame_rules)

lemma sync_emails_evolves [frame_rules]: "allows_sync K u \<Longrightarrow> within (evolves K) (sync_emails u c)"
  unfolding sync_emails_def
  by (intro frame_rules sync_loop_evolves; (simp add: allows_sync_parts; fail)?; simp add: allows_sync_def)

end
