(* ===== verification/Poller.thy ===== *)
theory Poller
  imports Sync_Email
begin

text \<open>
  The rest of the poller, \<^verbatim>\<open>src/src/sync/mailbox.rs\<close>, \<^verbatim>\<open>backfill.rs\<close> and
  \<^verbatim>\<open>mod.rs\<close>: mailbox rooms, the backfill task, and one poll.
\<close>

section \<open>Mailboxes\<close>

definition map_mailbox :: "mxid \<Rightarrow> mailbox \<Rightarrow> unit act" where
  "map_mailbox user mb = (case (mb_id mb, mb_name mb) of
     (Some i, Some nm) \<Rightarrow>
       bind (get_room_id i) (\<lambda>known.
       bind (case known of
           Some room \<Rightarrow> ret room
         | None \<Rightarrow> bind (create_room_for_mailbox nm) (\<lambda>room.
             andthen (save_room_mapping i room) (ret room))) (\<lambda>room.
       ignore (ensure_room_in_email_space user room)))
   | _ \<Rightarrow> ret ())"

definition fetch_and_map_mailboxes :: "mxid \<Rightarrow> jclient \<Rightarrow> string list \<Rightarrow> unit act" where
  "fetch_and_map_mailboxes user c ids =
     bind (jcall c (GMailboxes ids) e_mailboxes) (\<lambda>r.
     bind (junwrap ''Empty response for Mailbox/get'' r) (\<lambda>l. for_each l (map_mailbox user)))"

definition all_mailboxes :: "jclient \<Rightarrow> (string list \<times> string) act" where
  "all_mailboxes c =
     bind (jcall c QMailboxes e_ids) (\<lambda>r.
     bind (junwrap ''Empty response for Mailbox/query'' r) (\<lambda>ids.
     bind (jcall c MailboxState e_state) (\<lambda>g.
     bind (junwrap ''Empty response for Mailbox/get state bootstrap'' g) (\<lambda>st. ret (ids, st)))))"

text \<open>The ids of all changed mailboxes and the state to save; the fuel bounds the rounds.\<close>

primrec mailbox_loop :: "nat \<Rightarrow> mxid \<Rightarrow> jclient \<Rightarrow> string option \<Rightarrow> string list \<Rightarrow> (string list \<times> string) act" where
  "mailbox_loop 0 user c st acc = hang"
| "mailbox_loop (Suc n) user c st acc = (case st of
     None \<Rightarrow> bind (all_mailboxes c) (\<lambda>(ids, new_state). ret (acc @ ids, new_state))
   | Some since \<Rightarrow> bind (jcall c (MailboxChanges since) e_changes) (\<lambda>r.
       if cannot_calculate r
       then andthen (delete_jmap_state user ''mailbox'') (mailbox_loop n user c None acc)
       else bind (junwrap ''Empty response for Mailbox/changes'' r) (\<lambda>ch.
         let acc' = acc @ ch_created ch @ ch_updated ch in
         if ch_more ch then mailbox_loop n user c (Some (ch_new_state ch)) acc'
         else ret (acc', ch_new_state ch))))"

definition sync_mailboxes :: "mxid \<Rightarrow> jclient \<Rightarrow> unit act" where
  "sync_mailboxes user c =
     bind (get_jmap_state user ''mailbox'') (\<lambda>last_state.
     bind (asks e_fuel) (\<lambda>n.
     bind (mailbox_loop n user c last_state []) (\<lambda>(ids, final_state).
     andthen (if ids = [] then ret () else fetch_and_map_mailboxes user c ids)
     (save_jmap_state user ''mailbox'' final_state))))"

section \<open>One poll\<close>

definition poll :: "mxid \<Rightarrow> jclient \<Rightarrow> unit act" where
  "poll user c =
     bind (asks (c_bridge_mailboxes \<circ> e_cfg)) (\<lambda>mailboxes.
     andthen (if mailboxes then contextual ''Mailbox sync failed'' (sync_mailboxes user c) else ret ())
     (andthen (contextual ''Email sync failed'' (sync_emails user c))
     (bind now (\<lambda>t. bind (asks (\<lambda>E. l_now_text (e_lib E) t)) (\<lambda>text.
     ignore (set_last_sync user text))))))"

section \<open>Backfill\<close>

definition i32_max :: nat where
  "i32_max = 2147483647"

text \<open>\<open>True\<close> when there may be more.\<close>

definition backfill_batch :: "mxid \<Rightarrow> jclient \<Rightarrow> nat \<Rightarrow> bool act" where
  "backfill_batch user c pos =
     bind (resolve_backfill_cutoff user) (\<lambda>cutoff.
     andthen (ensure (pos \<le> i32_max) ''Position overflow'')
     (bind (asks (c_sync_limit \<circ> e_cfg)) (\<lambda>limit.
     bind (jcall c (QEmails cutoff (Some pos) limit) e_query) (\<lambda>r.
     bind (junwrap ''Empty response for Email/query (backfill)'' r) (\<lambda>(_, ids).
     if ids = [] then ret False
     else bind (fetch_emails c ids) (\<lambda>emails.
       andthen (for_each emails (\<lambda>e. ignore (process_email user c e)))
       (if length ids < limit then ret False
        else andthen (save_jmap_state user ''backfill_position'' (show_nat (pos + length ids))) (ret True))))))))"

definition backfill_done :: "mxid \<Rightarrow> unit act" where
  "backfill_done user = andthen (ignore (delete_jmap_state user ''backfill_position''))
     (ignore (delete_jmap_state user backfill_cutoff_key))"

text \<open>One turn of the task's loop; \<open>False\<close> ends the task.\<close>

definition backfill_turn :: "mxid \<Rightarrow> jclient \<Rightarrow> bool act" where
  "backfill_turn user c =
     bind (attempt (get_jmap_state user ''changes'')) (\<lambda>chg.
     let has_initial_sync = (case chg of Inr (Some _) \<Rightarrow> True | _ \<Rightarrow> False) in
     bind (attempt (get_jmap_state user ''backfill_position'')) (\<lambda>p.
     case (case p of Inr v \<Rightarrow> v | Inl _ \<Rightarrow> None) of
       None \<Rightarrow> if has_initial_sync then ret False else andthen (sleep 30) (ret True)
     | Some pos_str \<Rightarrow> (case parse_usize pos_str of
         None \<Rightarrow> andthen (ignore (delete_jmap_state user ''backfill_position'')) (ret True)
       | Some pos \<Rightarrow> bind (attempt (backfill_batch user c pos)) (\<lambda>r. case r of
           Inl _ \<Rightarrow> andthen (sleep 30) (ret True)
         | Inr has_more \<Rightarrow> if has_more then andthen (sleep 5) (ret True)
             else andthen (backfill_done user) (ret False)))))"

primrec backfill_turns :: "nat \<Rightarrow> mxid \<Rightarrow> jclient \<Rightarrow> bool act" where
  "backfill_turns 0 user c = ret True"
| "backfill_turns (Suc n) user c = bind (backfill_turn user c) (\<lambda>go.
     if go then backfill_turns n user c else ret False)"

text \<open>The task: its first \<open>n\<close> turns; \<open>True\<close> when it has not ended by then.\<close>

definition run_backfill :: "nat \<Rightarrow> mxid \<Rightarrow> jclient \<Rightarrow> bool act" where
  "run_backfill n user c = andthen (sleep 5) (backfill_turns n user c)"

text \<open>The loop itself may go on forever, which is the value \<open>None\<close>.\<close>

partial_function (option) backfill_loop :: "mxid \<Rightarrow> jclient \<Rightarrow> env \<Rightarrow> world \<Rightarrow> (unit outcome \<times> world) option" where
  "backfill_loop user c E w = (case backfill_turn user c E w of
     (Ok go, w1) \<Rightarrow> if go then backfill_loop user c E w1 else Some (Ok (), w1)
   | (Err e, w1) \<Rightarrow> Some (Err e, w1)
   | (Panic p, w1) \<Rightarrow> Some (Panic p, w1)
   | (Hang, w1) \<Rightarrow> Some (Hang, w1))"

definition run_backfill_loop :: "mxid \<Rightarrow> jclient \<Rightarrow> env \<Rightarrow> world \<Rightarrow> (unit outcome \<times> world) option" where
  "run_backfill_loop user c E w = backfill_loop user c E (snd (sleep 5 E w))"

lemma turns_then_loop: "backfill_turns n u c E w = (Ok True, w1) \<Longrightarrow> backfill_loop u c E w = backfill_loop u c E w1"
proof (induction n arbitrary: w)
  case (Suc n)
  then show ?case
    by (subst backfill_loop.simps) (auto simp: bind_def ret_def split: prod.splits outcome.splits if_splits)
qed (simp add: ret_def)

lemma turns_end_loop: "backfill_turns n u c E w = (Ok False, w1) \<Longrightarrow> backfill_loop u c E w = Some (Ok (), w1)"
proof (induction n arbitrary: w)
  case (Suc n)
  then show ?case
    by (subst backfill_loop.simps) (auto simp: bind_def ret_def split: prod.splits outcome.splits if_splits)
qed (simp add: ret_def)

lemma loop_turns:
  assumes "backfill_loop u c E w = Some r"
  shows "fst r = Ok () \<longrightarrow> (\<exists>n. backfill_turns n u c E w = (Ok False, snd r))"
proof (rule backfill_loop.raw_induct [OF _ assms])
  fix loop u c E w r
  assume IH: "\<And>u c E w r. loop u c E w = Some r \<Longrightarrow> fst r = Ok () \<longrightarrow> (\<exists>n. backfill_turns n u c E w = (Ok False, snd r))"
    and r: "(case backfill_turn u c E w of (Ok go, w1) \<Rightarrow> if go then loop u c E w1 else Some (Ok (), w1)
      | (Err e, w1) \<Rightarrow> Some (Err e, w1) | (Panic p, w1) \<Rightarrow> Some (Panic p, w1) | (Hang, w1) \<Rightarrow> Some (Hang, w1)) = Some r"
  obtain a w1 where t: "backfill_turn u c E w = (a, w1)" by fastforce
  show "fst r = Ok () \<longrightarrow> (\<exists>n. backfill_turns n u c E w = (Ok False, snd r))"
  proof (cases "a = Ok True")
    case True
    then have "fst r = Ok () \<longrightarrow> (\<exists>n. backfill_turns n u c E w1 = (Ok False, snd r))" using IH r t by simp
    moreover have "backfill_turns (Suc n) u c E w = backfill_turns n u c E w1" for n using t True by (simp add: bind_def)
    ultimately show ?thesis by metis
  next
    case False
    then have "fst r = Ok () \<longrightarrow> a = Ok False \<and> w1 = snd r" using r t by (cases a) (auto split: if_splits)
    then show ?thesis using t by (auto intro!: exI [of _ 1] simp: bind_def ret_def)
  qed
qed

section \<open>Frames\<close>

lemma map_mailbox_evolves [frame_rules]:
  "allows_sync K u \<Longrightarrow> within (evolves K) (map_mailbox u mb)"
  unfolding map_mailbox_def by (intro frame_rules; simp add: allows_sync_parts; simp add: allows_sync_def)

lemma mailbox_loop_evolves: "allows_sync K u \<Longrightarrow> within (evolves K) (mailbox_loop n u c st acc)"
proof (induction n arbitrary: st acc)
  case (Suc n)
  have jr: "allows_jread K" using Suc.prems by (rule allows_sync_parts)
  show ?case
    unfolding mailbox_loop.simps all_mailboxes_def Let_def
    using Suc.prems by (intro frame_rules jr Suc.IH; (assumption | simp add: allows_sync_def)?)
qed (auto intro: frame_rules)

lemma sync_mailboxes_evolves [frame_rules]: "allows_sync K u \<Longrightarrow> within (evolves K) (sync_mailboxes u c)"
  unfolding sync_mailboxes_def fetch_and_map_mailboxes_def
  by (intro frame_rules mailbox_loop_evolves; simp add: allows_sync_parts; simp add: allows_sync_def)

lemma poll_evolves [frame_rules]: "allows_sync K u \<Longrightarrow> within (evolves K) (poll u c)"
  unfolding poll_def by (intro frame_rules; simp add: allows_sync_def)

lemma backfill_turn_evolves [frame_rules]: "allows_sync K u \<Longrightarrow> within (evolves K) (backfill_turn u c)"
  unfolding backfill_turn_def backfill_batch_def backfill_done_def Let_def
  by (intro frame_rules; simp add: allows_sync_parts; simp add: allows_sync_def)

lemma run_backfill_evolves [frame_rules]:
  assumes "allows_sync K u"
  shows "within (evolves K) (run_backfill n u c)"
proof -
  have "within (evolves K) (backfill_turns n u c)"
    by (induction n) (use assms in \<open>auto intro!: frame_rules\<close>)
  then show ?thesis unfolding run_backfill_def by (intro frame_rules)
qed

end
