(* ===== verification/Sessions.thy ===== *)
theory Sessions
  imports Rooms Sender
begin

text \<open>
  The JMAP sessions of the users, \<^verbatim>\<open>src/src/client_manager.rs\<close>: connecting, logging in and
  out, the client and poller maps, and the effective send delay. The poll itself is in
  \<^theory_text>\<open>Sync_Email\<close>, the push-event loop in \<^theory_text>\<open>Event_Loop\<close>.
\<close>

section \<open>Settings\<close>

definition max_send_delay_secs :: int where
  "max_send_delay_secs = 300"

definition clamp :: "int \<Rightarrow> int \<Rightarrow> int \<Rightarrow> int" where
  "clamp lo hi x = (if x < lo then lo else if hi < x then hi else x)"

definition with_send_delay_default :: "int \<Rightarrow> config \<Rightarrow> config" where
  "with_send_delay_default secs cfg = cfg\<lparr>c_send_delay := clamp 0 max_send_delay_secs secs\<rparr>"

definition send_delay_for :: "mxid \<Rightarrow> int act" where
  "send_delay_for user =
     bind (attempt (get_send_delay user)) (\<lambda>r.
     bind (asks (c_send_delay \<circ> e_cfg)) (\<lambda>dflt.
     ret (clamp 0 max_send_delay_secs (case r of Inr (Some v) \<Rightarrow> v | _ \<Rightarrow> dflt))))"

section \<open>Clients and pollers\<close>

definition client_of :: "mxid \<Rightarrow> world \<Rightarrow> jclient option" where
  "client_of user w = map_of (w_clients w) user"

definition get_client :: "mxid \<Rightarrow> jclient option act" where
  "get_client user = gets (client_of user)"

definition abort_poller :: "mxid \<Rightarrow> unit act" where
  "abort_poller user = mem (DropPoller user)"

definition shutdown :: "unit act" where
  "shutdown = bind (gets w_pollers) (\<lambda>users. for_each users abort_poller)"

definition start_session :: "mxid \<Rightarrow> jclient \<Rightarrow> unit act" where
  "start_session user c =
     andthen (mem (SetClient user c))
     (andthen (mem (Spawn (TEventLoop user c)))
     (mem (AddPoller user)))"

definition connect_jmap :: "string \<Rightarrow> string \<Rightarrow> string \<Rightarrow> jclient act" where
  "connect_jmap username token url =
     bind (call (EvConnect url username token) (\<lambda>E. e_connect (e_net E))) (\<lambda>r. case r of
       Inl m \<Rightarrow> fail (Other (''Failed to connect to JMAP: '' @ m))
     | Inr c \<Rightarrow> ret c)"

definition spawn_user :: "registered_user \<Rightarrow> unit act" where
  "spawn_user u =
     bind (connect_jmap (ru_name u) (ru_token u) (ru_url u)) (\<lambda>c.
     andthen (abort_poller (ru_mxid u)) (start_session (ru_mxid u) c))"

section \<open>Login and logout\<close>

fun first_email :: "identity list \<Rightarrow> addr option" where
  "first_email [] = None"
| "first_email (i # is) = (case id_email i of Some e \<Rightarrow> Some e | None \<Rightarrow> first_email is)"

definition fetch_primary_email :: "jclient \<Rightarrow> addr option act" where
  "fetch_primary_email c = bind (jcall c GIdentity e_identities) (\<lambda>r.
     ret (Option.bind (jok r) first_email))"

definition login :: "mxid \<Rightarrow> string \<Rightarrow> string \<Rightarrow> string \<Rightarrow> unit act" where
  "login user username token url =
     bind (connect_jmap username token url) (\<lambda>c.
     andthen (save_user \<lparr>ru_mxid = user, ru_name = username, ru_token = token, ru_url = url\<rparr>)
     (bind (fetch_primary_email c) (\<lambda>email.
     andthen (case email of
         Some e \<Rightarrow> ignore (set_user_email user e)
       | None \<Rightarrow> ret ())
     (andthen (abort_poller user) (start_session user c)))))"

definition logout :: "mxid \<Rightarrow> unit act" where
  "logout user =
     andthen (abort_poller user)
     (andthen (mem (DropClient user))
     (andthen (clear_user_credentials user)
     (clear_outbound_queue user)))"

section \<open>Frames\<close>

lemma sessions_evolve [frame_rules]:
  "within (evolves K) (send_delay_for u)" "within (evolves K) (get_client u)"
  "K (LMem (DropPoller u)) \<Longrightarrow> within (evolves K) (abort_poller u)"
  "K (LMem (SetClient u c)) \<Longrightarrow> K (LMem (Spawn (TEventLoop u c))) \<Longrightarrow> K (LMem (AddPoller u)) \<Longrightarrow>
   within (evolves K) (start_session u c)"
  "K (LEv (EvConnect s n t)) \<Longrightarrow> within (evolves K) (connect_jmap n t s)"
  "allows_jread K \<Longrightarrow> within (evolves K) (fetch_primary_email c)"
  unfolding send_delay_for_def get_client_def abort_poller_def start_session_def connect_jmap_def
    fetch_primary_email_def
  by (intro frame_rules; simp add: allows_jread_def)+

definition allows_session :: "(label \<Rightarrow> bool) \<Rightarrow> mxid \<Rightarrow> bool" where
  "allows_session K u \<longleftrightarrow> (\<forall>c. K (LMem (SetClient u c)) \<and> K (LMem (Spawn (TEventLoop u c))))
     \<and> K (LMem (AddPoller u)) \<and> K (LMem (DropPoller u)) \<and> (\<forall>s n t. K (LEv (EvConnect s n t)))"

lemma spawn_user_evolves [frame_rules]:
  "allows_session K (ru_mxid u) \<Longrightarrow> within (evolves K) (spawn_user u)"
  unfolding spawn_user_def by (intro frame_rules; simp add: allows_session_def)

lemma session_login_evolves [frame_rules]:
  "allows_session K u \<Longrightarrow> allows_jread K \<Longrightarrow> (\<And>v. ru_mxid v = u \<Longrightarrow> K (LDb (UpsertUser v))) \<Longrightarrow>
   (\<And>v. K (LDb (PutKv u ''user_email'' v))) \<Longrightarrow> within (evolves K) (login u n t s)"
  unfolding login_def by (intro frame_rules; simp add: allows_session_def)

lemma logout_evolves [frame_rules]:
  "K (LMem (DropPoller u)) \<Longrightarrow> K (LMem (DropClient u)) \<Longrightarrow> K (LDb (BlankToken u)) \<Longrightarrow>
   K (LDb (ClearQueue u)) \<Longrightarrow> within (evolves K) (logout u)"
  unfolding logout_def by (intro frame_rules)

section \<open>What logging in and out do\<close>

lemma send_delay_range:
  "send_delay_for u E w = (Ok n, w') \<Longrightarrow> 0 \<le> n \<and> n \<le> max_send_delay_secs"
  by (auto simp: send_delay_for_def bind_eq_Ok ret_def clamp_def max_send_delay_secs_def)

lemma run_blank_token:
  "exec_unit (BlankToken u) E w = (Ok x, w') \<longleftrightarrow> e_fault (e_net E) (w_step w) = None \<and>
   w' = (tick E w)\<lparr>w_db := (w_db w)\<lparr>t_users :=
     upd_rows (\<lambda>r. ru_mxid r = u) (ru_token_update (\<lambda>_. [])) (t_users (w_db w))\<rparr>\<rparr>"
  by (auto simp: exec_unit_Ok run_Ok)

lemma run_clear_queue:
  "exec_unit (ClearQueue u) E w = (Ok x, w') \<longleftrightarrow> e_fault (e_net E) (w_step w) = None \<and>
   w' = (tick E w)\<lparr>w_db := (w_db w)\<lparr>t_outbound := drop_rows (\<lambda>r. om_user r = u) (t_outbound (w_db w))\<rparr>\<rparr>"
  by (auto simp: exec_unit_Ok run_Ok)

lemma mem_Ok: "mem m E w = (Ok x, w') \<longleftrightarrow> w' = exec_mem m w"
  by (auto simp: mem_def)

lemma no_active_after_blank:
  "find_row (\<lambda>r. ru_mxid r = u \<and> active r)
     (upd_rows (\<lambda>r. ru_mxid r = u) (ru_token_update (\<lambda>_. [])) t) = None"
  by (induction t) (auto simp: upd_rows_def active_def)

text \<open>A logged-out user is absent to \<^verbatim>\<open>get_user\<close>, whatever key is configured.\<close>

lemma get_user_absent:
  assumes "find_row (\<lambda>r. ru_mxid r = u \<and> active r) (t_users (w_db w)) = None"
    and "e_fault (e_net E) (w_step w) = None"
  shows "get_user u E w = (Ok None, tick E w)"
  using assms by (simp add: get_user_def bind_def query_def Let_def ret_def)

end
