(* ===== verification/Event_Loop.thy ===== *)
theory Event_Loop
  imports Poller Sessions
begin

text \<open>
  The session tasks of \<^verbatim>\<open>src/src/client_manager.rs\<close>: starting the sessions of the stored
  users, the reconnect task with its backoff, and the push-event loop of one session as a step
  relation of its two concurrent parts, the event listener and the debounced poller, which meet
  in a bounded channel.
\<close>

section \<open>Starting and reconnecting\<close>

text \<open>Seconds: 5, doubled after each failure, at most ten minutes.\<close>

definition reconnect_start :: nat where
  "reconnect_start = 5"

definition reconnect_max :: nat where
  "reconnect_max = 600"

definition next_backoff :: "nat \<Rightarrow> nat" where
  "next_backoff b = min (2 * b) reconnect_max"

text \<open>The first \<open>n\<close> attempts of the reconnect task; \<open>True\<close> when one of them succeeded.\<close>

primrec reconnect :: "nat \<Rightarrow> nat \<Rightarrow> registered_user \<Rightarrow> bool act" where
  "reconnect 0 delay u = ret False"
| "reconnect (Suc n) delay u =
     andthen (sleep delay)
     (bind (attempt (spawn_user u)) (\<lambda>r. case r of
       Inr _ \<Rightarrow> ret True
     | Inl _ \<Rightarrow> reconnect n (next_backoff delay) u))"

text \<open>
  The start-up jitter is below the resolution of the clock. Sessions are started up to ten at a
  time; they do not touch each other's entries, and are started one after the other here.
\<close>

definition start_user :: "registered_user \<Rightarrow> unit act" where
  "start_user u =
     bind (attempt (spawn_user u)) (\<lambda>r.
     andthen (case r of
         Inr _ \<Rightarrow> ret ()
       | Inl _ \<Rightarrow> mem (Spawn (TReconnect u)))
     (ignore (repair_email_space (ru_mxid u))))"

definition start :: "unit act" where
  "start = bind get_all_users (\<lambda>users. for_each users start_user)"

section \<open>The event loop\<close>

definition channel_capacity :: nat where
  "channel_capacity = 100"

definition sse_retry_max :: nat where
  "sse_retry_max = 60"

definition quiet_period :: nat where
  "quiet_period = 2"

definition heartbeat_secs :: nat where
  "heartbeat_secs = 3600"

text \<open>
  The listener connects, waits out a delay after a failure, or reads the stream. The poller
  waits for a token, drains the others, sleeps through the quiet period, or polls.
\<close>

datatype listener = Connecting | Waiting nat | Streaming

datatype poller = PWaiting | PDraining | PQuiet | PPolling

record event_loop =
  el_queue :: nat
  el_retry :: nat
  el_listener :: listener
  el_poller :: poller

text \<open>\<open>run_event_loop\<close> sends the token of the initial sync before it spawns the poller.\<close>

definition loop_init :: event_loop where
  "loop_init = \<lparr>el_queue = 1, el_retry = 1, el_listener = Connecting, el_poller = PWaiting\<rparr>"

datatype loop_label =
    Subscribed | SubscribeFailed | RetryElapsed
  | PushEvent | StreamBroken | Heartbeat
  | TakeToken | DrainToken | Drained | QuietOver | PollDone

text \<open>
  A send waits while the channel is full, so the steps that send are enabled only below the
  capacity.
\<close>

inductive loop_step :: "loop_label \<Rightarrow> event_loop \<Rightarrow> event_loop \<Rightarrow> bool" where
  subscribed: "el_listener s = Connecting \<Longrightarrow>
    loop_step Subscribed s (s\<lparr>el_listener := Streaming, el_retry := 1\<rparr>)"
| subscribe_failed: "el_listener s = Connecting \<Longrightarrow>
    loop_step SubscribeFailed s (s\<lparr>el_listener := Waiting (el_retry s)\<rparr>)"
| retry_elapsed: "el_listener s = Waiting d \<Longrightarrow>
    loop_step RetryElapsed s (s\<lparr>el_listener := Connecting, el_retry := min (2 * el_retry s) sse_retry_max\<rparr>)"
| push_event: "el_listener s = Streaming \<Longrightarrow> el_queue s < channel_capacity \<Longrightarrow>
    loop_step PushEvent s (s\<lparr>el_queue := Suc (el_queue s)\<rparr>)"
| stream_broken: "el_listener s = Streaming \<Longrightarrow>
    loop_step StreamBroken s (s\<lparr>el_listener := Connecting\<rparr>)"
| heartbeat: "el_listener s = Streaming \<Longrightarrow> el_queue s < channel_capacity \<Longrightarrow>
    loop_step Heartbeat s (s\<lparr>el_queue := Suc (el_queue s), el_listener := Connecting\<rparr>)"
| take_token: "el_poller s = PWaiting \<Longrightarrow> 0 < el_queue s \<Longrightarrow>
    loop_step TakeToken s (s\<lparr>el_queue := el_queue s - 1, el_poller := PDraining\<rparr>)"
| drain_token: "el_poller s = PDraining \<Longrightarrow> 0 < el_queue s \<Longrightarrow>
    loop_step DrainToken s (s\<lparr>el_queue := el_queue s - 1\<rparr>)"
| drained: "el_poller s = PDraining \<Longrightarrow> el_queue s = 0 \<Longrightarrow>
    loop_step Drained s (s\<lparr>el_poller := PQuiet\<rparr>)"
| quiet_over: "el_poller s = PQuiet \<Longrightarrow>
    loop_step QuietOver s (s\<lparr>el_poller := PPolling\<rparr>)"
| poll_done: "el_poller s = PPolling \<Longrightarrow>
    loop_step PollDone s (s\<lparr>el_poller := PWaiting\<rparr>)"

code_pred loop_step .

inductive_cases loop_stepE: "loop_step l s s'"

inductive loop_run :: "event_loop \<Rightarrow> loop_label list \<Rightarrow> event_loop \<Rightarrow> bool" where
  run_nil: "loop_run s [] s"
| run_snoc: "loop_run s ls s1 \<Longrightarrow> loop_step l s1 s2 \<Longrightarrow> loop_run s (ls @ [l]) s2"

inductive_cases loop_run_snocE: "loop_run s (ls @ [l]) s'"

definition is_signal :: "loop_label \<Rightarrow> bool" where
  "is_signal l \<longleftrightarrow> l = PushEvent \<or> l = Heartbeat"

text \<open>The poller works on a token it has taken, and the poll has not begun.\<close>

definition poll_owed :: "event_loop \<Rightarrow> bool" where
  "poll_owed s \<longleftrightarrow> 0 < el_queue s \<or> el_poller s = PDraining \<or> el_poller s = PQuiet"

section \<open>The invariant\<close>

definition retry_delays :: "nat list" where
  "retry_delays = [1, 2, 4, 8, 16, 32, 60]"

definition loop_ok :: "event_loop \<Rightarrow> bool" where
  "loop_ok s \<longleftrightarrow> el_queue s \<le> channel_capacity \<and> el_retry s \<in> set retry_delays
     \<and> (case el_listener s of Waiting d \<Rightarrow> d \<in> set retry_delays | _ \<Rightarrow> True)"

lemma loop_init_ok: "loop_ok loop_init"
  by (simp add: loop_ok_def loop_init_def channel_capacity_def retry_delays_def)

lemma next_retry_delay:
  "d \<in> set retry_delays \<Longrightarrow> min (2 * d) sse_retry_max \<in> set retry_delays"
  by (auto simp: retry_delays_def sse_retry_max_def)

lemma loop_step_ok: "loop_step l s s' \<Longrightarrow> loop_ok s \<Longrightarrow> loop_ok s'"
  by (induction rule: loop_step.induct)
    (auto simp: loop_ok_def next_retry_delay split: listener.splits,
     auto simp: retry_delays_def)

lemma loop_run_ok: "loop_run s ls s' \<Longrightarrow> loop_ok s \<Longrightarrow> loop_ok s'"
  by (induction rule: loop_run.induct) (auto intro: loop_step_ok)

lemma step_owes: "loop_step l s s' \<Longrightarrow> l \<noteq> QuietOver \<Longrightarrow> poll_owed s \<Longrightarrow> poll_owed s'"
  by (induction rule: loop_step.induct) (auto simp: poll_owed_def)

lemma signal_owes: "loop_step l s s' \<Longrightarrow> is_signal l \<Longrightarrow> poll_owed s'"
  by (induction rule: loop_step.induct) (auto simp: poll_owed_def is_signal_def)

lemma run_owes: "loop_run s ls s' \<Longrightarrow> QuietOver \<notin> set ls \<Longrightarrow> poll_owed s \<Longrightarrow> poll_owed s'"
  by (induction rule: loop_run.induct) (auto dest: step_owes)

lemma loop_run_split:
  "loop_run s (ls @ ms) s' \<Longrightarrow> \<exists>s1. loop_run s ls s1 \<and> loop_run s1 ms s'"
proof (induction ms arbitrary: s' rule: rev_induct)
  case Nil
  then show ?case using run_nil by auto
next
  case (snoc m ms)
  then have "loop_run s ((ls @ ms) @ [m]) s'" by simp
  then obtain s2 where "loop_run s (ls @ ms) s2" and st: "loop_step m s2 s'"
    by (rule loop_run_snocE) (auto simp: append_eq_append_conv2)
  with snoc.IH obtain s1 where "loop_run s ls s1" "loop_run s1 ms s2" by blast
  with st show ?case using run_snoc by blast
qed

section \<open>A poll that is owed can always begin\<close>

definition poller_label :: "loop_label \<Rightarrow> bool" where
  "poller_label l \<longleftrightarrow> l = TakeToken \<or> l = DrainToken \<or> l = Drained \<or> l = PollDone"

definition can_poll :: "event_loop \<Rightarrow> bool" where
  "can_poll s \<longleftrightarrow> (\<exists>ms s'. loop_run s (ms @ [QuietOver]) s' \<and> list_all poller_label ms)"

lemma run_Cons: "loop_step l s s1 \<Longrightarrow> loop_run s1 ls s2 \<Longrightarrow> loop_run s (l # ls) s2"
proof (induction ls arbitrary: s2 rule: rev_induct)
  case Nil
  from Nil.prems(2) have "s2 = s1" by (cases rule: loop_run.cases) auto
  with Nil.prems(1) have "loop_run s ([] @ [l]) s2" by (blast intro: run_nil run_snoc)
  then show ?case by simp
next
  case (snoc m ls)
  from snoc.prems(2) obtain s3 where "loop_run s1 ls s3" and st: "loop_step m s3 s2"
    by (rule loop_run_snocE)
  with snoc.IH snoc.prems(1) have "loop_run s (l # ls) s3" by blast
  with st have "loop_run s ((l # ls) @ [m]) s2" by (rule run_snoc [rotated])
  then show ?case by simp
qed

lemma can_poll_step: "loop_step l s s1 \<Longrightarrow> poller_label l \<Longrightarrow> can_poll s1 \<Longrightarrow> can_poll s"
  unfolding can_poll_def by (metis run_Cons append_Cons list.pred_inject(2))

lemma can_poll_quiet: "el_poller s = PQuiet \<Longrightarrow> can_poll s"
proof -
  assume "el_poller s = PQuiet"
  then have "loop_run s ([] @ [QuietOver]) (s\<lparr>el_poller := PPolling\<rparr>)"
    by (rule run_snoc [OF run_nil quiet_over])
  then show ?thesis unfolding can_poll_def by (metis list.pred_inject(1))
qed

lemma can_poll_draining: "el_poller s = PDraining \<Longrightarrow> can_poll s"
proof (induction "el_queue s" arbitrary: s)
  case 0
  then have "loop_step Drained s (s\<lparr>el_poller := PQuiet\<rparr>)" by (intro drained) auto
  then show ?case by (rule can_poll_step) (auto simp: poller_label_def intro: can_poll_quiet)
next
  case (Suc n)
  have "loop_step DrainToken s (s\<lparr>el_queue := el_queue s - 1\<rparr>)"
    using Suc.prems Suc.hyps(2) by (intro drain_token) auto
  moreover have "can_poll (s\<lparr>el_queue := el_queue s - 1\<rparr>)"
    using Suc.prems Suc.hyps(2) by (intro Suc.hyps(1)) auto
  ultimately show ?case using can_poll_step poller_label_def by blast
qed

lemma can_poll_waiting: "el_poller s = PWaiting \<Longrightarrow> 0 < el_queue s \<Longrightarrow> can_poll s"
  by (rule can_poll_step [OF take_token]) (auto simp: poller_label_def intro: can_poll_draining)

lemma owed_can_poll: "poll_owed s \<Longrightarrow> can_poll s"
proof (cases "el_poller s")
  case PPolling
  moreover assume "poll_owed s"
  ultimately have "0 < el_queue s" by (simp add: poll_owed_def)
  then have "can_poll (s\<lparr>el_poller := PWaiting\<rparr>)" by (intro can_poll_waiting) simp_all
  then show ?thesis
    by (intro can_poll_step [OF poll_done [OF PPolling]]) (simp_all add: poller_label_def)
qed (simp_all add: poll_owed_def can_poll_waiting can_poll_draining can_poll_quiet)

section \<open>Properties\<close>

text \<open>C20: No push signal is lost. After a push event or a heartbeat, and as long as no poll has
  begun since, the poller task can start one by steps of its own, whatever the listener did in
  the meantime.\<close>

theorem signal_leads_to_poll:
  assumes "loop_run loop_init (ls @ [l] @ ms) s'" and "is_signal l" and "QuietOver \<notin> set ms"
  shows "can_poll s'"
proof -
  from assms(1) have "loop_run loop_init ((ls @ [l]) @ ms) s'" by simp
  from loop_run_split [OF this] obtain s1
    where l: "loop_run loop_init (ls @ [l]) s1" and ms: "loop_run s1 ms s'" by blast
  obtain s0 where st: "loop_step l s0 s1" using l by (rule loop_run_snocE)
  have o: "poll_owed s1" using st assms(2) by (rule signal_owes)
  have "poll_owed s'" using ms assms(3) o by (rule run_owes)
  then show ?thesis by (rule owed_can_poll)
qed

lemma run_two: "loop_step l s s1 \<Longrightarrow> loop_step m s1 s2 \<Longrightarrow> loop_run s ([l] @ [m] @ []) s2"
  using run_Cons run_nil by (metis append_Cons append_Nil)

theorem signal_leads_to_poll_witness:
  "can_poll (loop_init\<lparr>el_queue := 2, el_listener := Streaming\<rparr>)"
proof (rule signal_leads_to_poll [where ls = "[Subscribed]" and l = PushEvent and ms = "[]"])
  show "loop_run loop_init ([Subscribed] @ [PushEvent] @ []) (loop_init\<lparr>el_queue := 2, el_listener := Streaming\<rparr>)"
  proof (rule run_two)
    show "loop_step Subscribed loop_init (loop_init\<lparr>el_listener := Streaming, el_retry := 1\<rparr>)"
      by (rule subscribed) (simp add: loop_init_def)
    have "loop_step PushEvent (loop_init\<lparr>el_listener := Streaming, el_retry := 1\<rparr>)
      ((loop_init\<lparr>el_listener := Streaming, el_retry := 1\<rparr>)
        \<lparr>el_queue := Suc (el_queue (loop_init\<lparr>el_listener := Streaming, el_retry := 1\<rparr>))\<rparr>)"
      by (rule push_event) (simp_all add: loop_init_def channel_capacity_def)
    then show "loop_step PushEvent (loop_init\<lparr>el_listener := Streaming, el_retry := 1\<rparr>)
      (loop_init\<lparr>el_queue := 2, el_listener := Streaming\<rparr>)"
      by (simp add: loop_init_def numeral_2_eq_2)
  qed
qed (simp_all add: is_signal_def)

definition polls :: "loop_label list \<Rightarrow> nat" where
  "polls ls = length (filter (\<lambda>l. l = QuietOver) ls)"

definition signals :: "loop_label list \<Rightarrow> nat" where
  "signals ls = length (filter is_signal ls)"

text \<open>
  The polls that can still begin without a further signal: one for the tokens the poller has taken,
  and one for all that wait in the channel, unless it is just draining them.
\<close>

definition owed :: "event_loop \<Rightarrow> nat" where
  "owed s = (case el_poller s of
     PDraining \<Rightarrow> 1
   | PQuiet \<Rightarrow> 1 + of_bool (0 < el_queue s)
   | _ \<Rightarrow> of_bool (0 < el_queue s))"

lemma step_owed: "loop_step l s s' \<Longrightarrow>
  owed s' + (if l = QuietOver then 1 else 0) \<le> owed s + (if is_signal l then 1 else 0)"
  by (induction rule: loop_step.induct) (auto simp: owed_def is_signal_def split: poller.splits)

lemma run_owed: "loop_run s ls s' \<Longrightarrow> polls ls + owed s' \<le> owed s + signals ls"
proof (induction rule: loop_run.induct)
  case (run_snoc s ls s1 l s2)
  then show ?case using step_owed [of l s1 s2] by (auto simp: polls_def signals_def split: if_splits)
qed (simp add: polls_def signals_def)

lemma owed_le: "owed s \<le> 2"
  by (auto simp: owed_def split: poller.split)

text \<open>C36: the debounce: the polls that began since the start outnumber the signals by at most one,
  the initial sync; and from any reachable state on, however many tokens wait in the channel, at most
  two polls begin beyond one per further signal. The delay that the listener keeps, and the one it
  waits out, is one of 1, 2, 4, 8, 16, 32 and 60 seconds.\<close>

theorem event_loop_bounds:
  assumes "loop_run loop_init ls s" and "loop_run s ms s'"
  shows "polls ls \<le> 1 + signals ls \<and> polls ms \<le> 2 + signals ms \<and> el_retry s \<in> set retry_delays \<and>
    (case el_listener s of Waiting d \<Rightarrow> d \<in> set retry_delays | _ \<Rightarrow> True)"
  using loop_run_ok [OF assms(1) loop_init_ok] run_owed [OF assms(1)] run_owed [OF assms(2)] owed_le [of s]
  by (simp add: loop_ok_def) (simp add: owed_def loop_init_def)

text \<open>The initial sync, and a burst of two signals in its quiet period, for which one more poll begins.\<close>

definition after_sync :: event_loop where
  "after_sync = \<lparr>el_queue = 2, el_retry = 1, el_listener = Streaming, el_poller = PQuiet\<rparr>"

lemma after_sync_run: "loop_run loop_init [Subscribed, TakeToken, Drained, PushEvent, PushEvent] after_sync"
proof -
  have "loop_step Subscribed loop_init (loop_init\<lparr>el_listener := Streaming, el_retry := 1\<rparr>)"
    "loop_step TakeToken (loop_init\<lparr>el_listener := Streaming, el_retry := 1\<rparr>)
       \<lparr>el_queue = 0, el_retry = 1, el_listener = Streaming, el_poller = PDraining\<rparr>"
    "loop_step Drained \<lparr>el_queue = 0, el_retry = 1, el_listener = Streaming, el_poller = PDraining\<rparr>
       \<lparr>el_queue = 0, el_retry = 1, el_listener = Streaming, el_poller = PQuiet\<rparr>"
    "loop_step PushEvent \<lparr>el_queue = 0, el_retry = 1, el_listener = Streaming, el_poller = PQuiet\<rparr>
       \<lparr>el_queue = 1, el_retry = 1, el_listener = Streaming, el_poller = PQuiet\<rparr>"
    "loop_step PushEvent \<lparr>el_queue = 1, el_retry = 1, el_listener = Streaming, el_poller = PQuiet\<rparr> after_sync"
    by (simp_all add: loop_step.simps loop_init_def after_sync_def channel_capacity_def)
  then show ?thesis by (meson run_Cons run_nil)
qed

theorem event_loop_bounds_witness:
  "polls [Subscribed, TakeToken, Drained, PushEvent, PushEvent] \<le> 3 \<and> polls [QuietOver] \<le> 2 \<and>
   el_retry after_sync \<in> set retry_delays"
proof -
  have "loop_run after_sync [QuietOver] (after_sync\<lparr>el_poller := PPolling\<rparr>)"
    by (rule run_Cons [OF _ run_nil]) (simp add: loop_step.simps after_sync_def)
  from event_loop_bounds [OF after_sync_run this] show ?thesis by (simp add: signals_def is_signal_def)
qed

text \<open>The delay before the \<open>n\<close>-th reconnect is 5 seconds doubled \<open>n\<close> times, capped at ten
  minutes.\<close>

theorem reconnect_backoff:
  "(next_backoff ^^ n) reconnect_start = min (5 * 2 ^ n) reconnect_max"
  by (induction n) (auto simp: next_backoff_def reconnect_start_def reconnect_max_def)

end
