(* ===== verification/Puppet_Sync.thy ===== *)
theory Puppet_Sync
  imports Sessions Puppet_Login
begin

text \<open>
  The double-puppet task, from \<^verbatim>\<open>src/src/puppet.rs\<close>: the \<^verbatim>\<open>/sync\<close> loop that joins the
  rooms the bot invites the user to and reflects the user's unread flags onto the mail.
\<close>

section \<open>The unread flag\<close>

definition is_marked_unread_type :: "string option \<Rightarrow> bool" where
  "is_marked_unread_type t \<longleftrightarrow> t = Some ''m.marked_unread'' \<or> t = Some ''com.famedly.marked_unread''"

fun parse_marked_unread :: "json list \<Rightarrow> bool option" where
  "parse_marked_unread [] = None"
| "parse_marked_unread (ev # evs) = (if is_marked_unread_type (as_str (jat ev ''type''))
     then Some (case as_bool (jat (jat ev ''content'') ''unread'') of Some b \<Rightarrow> b | None \<Rightarrow> False)
     else parse_marked_unread evs)"

datatype unread_action_kind = MarkUnseen | ClearGate | NoOp

fun unread_action :: "bool \<Rightarrow> bool \<Rightarrow> unread_action_kind" where
  "unread_action False True = MarkUnseen"
| "unread_action True False = ClearGate"
| "unread_action False False = NoOp"
| "unread_action True True = NoOp"

definition marked_unread_key :: "room_id \<Rightarrow> string" where
  "marked_unread_key room = ''marked_unread:'' @ room"

definition mark_unseen :: "mxid \<Rightarrow> room_id \<Rightarrow> unit act" where
  "mark_unseen mxid room =
     bind (get_latest_email_id_by_room room) (\<lambda>i. case i of
       None \<Rightarrow> ret ()
     | Some email_id \<Rightarrow> bind (get_client mxid) (\<lambda>client. case client of
         None \<Rightarrow> ret ()
       | Some c \<Rightarrow> andthen (mark_as_unread c email_id)
           (save_jmap_state mxid (marked_unread_key room) ''1'')))"

definition sync_marked_unread :: "mxid \<Rightarrow> room_id \<Rightarrow> bool \<Rightarrow> unit act" where
  "sync_marked_unread mxid room unread =
     bind (attempt (get_jmap_state mxid (marked_unread_key room))) (\<lambda>r.
     let gated = (case r of Inr (Some _) \<Rightarrow> True | _ \<Rightarrow> False) in
     case unread_action gated unread of
       NoOp \<Rightarrow> ret ()
     | ClearGate \<Rightarrow> delete_jmap_state mxid (marked_unread_key room)
     | MarkUnseen \<Rightarrow> mark_unseen mxid room)"

definition room_unread_flag :: "json \<Rightarrow> bool option" where
  "room_unread_flag data =
     Option.bind (as_array (jat (jat data ''account_data'') ''events'')) parse_marked_unread"

definition reflect_room :: "mxid \<Rightarrow> string \<times> json \<Rightarrow> unit act" where
  "reflect_room mxid entry = (case entry of (room, data) \<Rightarrow>
     (case room_unread_flag data of
        None \<Rightarrow> ret ()
      | Some unread \<Rightarrow> ignore (sync_marked_unread mxid room unread)))"

definition handle_marked_unread :: "mxid \<Rightarrow> json \<Rightarrow> unit act" where
  "handle_marked_unread mxid sync_body =
     (case as_object (jat (jat sync_body ''rooms'') ''join'') of
        None \<Rightarrow> ret ()
      | Some joined \<Rightarrow> for_each joined (reflect_room mxid))"

section \<open>Invites\<close>

definition is_invite_event :: "mxid \<Rightarrow> mxid \<Rightarrow> json \<Rightarrow> bool" where
  "is_invite_event mxid bot_user ev \<longleftrightarrow>
     jat ev ''type'' = JStr ''m.room.member'' \<and> jat ev ''state_key'' = JStr mxid
     \<and> jat (jat ev ''content'') ''membership'' = JStr ''invite'' \<and> jat ev ''sender'' = JStr bot_user"

definition invited_by :: "json \<Rightarrow> mxid \<Rightarrow> mxid \<Rightarrow> bool" where
  "invited_by invite_room mxid bot_user =
     (case as_array (jat (jat invite_room ''invite_state'') ''events'') of
        None \<Rightarrow> False
      | Some evs \<Rightarrow> list_ex (is_invite_event mxid bot_user) evs)"

text \<open>The fire-and-forget join: every answer is only logged.\<close>

definition join_as_user :: "string \<Rightarrow> room_id \<Rightarrow> unit act" where
  "join_as_user token room = bind (mx_call (PuppetJoin room token)) (\<lambda>_. ret ())"

definition bot_invites :: "mxid \<Rightarrow> mxid \<Rightarrow> json \<Rightarrow> room_id list" where
  "bot_invites mxid bot_user sync_body =
     (case as_object (jat (jat sync_body ''rooms'') ''invite'') of
        None \<Rightarrow> []
      | Some invites \<Rightarrow> map fst (filter (\<lambda>(_, data). invited_by data mxid bot_user) invites))"

section \<open>The loop\<close>

text \<open>
  One turn of the loop with the \<^verbatim>\<open>since\<close> token: \<open>None\<close> when the task returns, otherwise the
  token for the next turn.
\<close>

definition accept_sync :: "mxid \<Rightarrow> string \<Rightarrow> json \<Rightarrow> string option act" where
  "accept_sync mxid token sync_body =
     bind bot_user_id (\<lambda>bot_user.
     andthen (handle_marked_unread mxid sync_body)
     (andthen (for_each (bot_invites mxid bot_user sync_body) (join_as_user token))
     (ret (as_str (jat sync_body ''next_batch'')))))"

definition retry_later :: "string option \<Rightarrow> string option option act" where
  "retry_later since = andthen (sleep 10) (ret (Some since))"

definition auto_accept_turn :: "mxid \<Rightarrow> string \<Rightarrow> string option \<Rightarrow> string option option act" where
  "auto_accept_turn mxid token since =
     bind (mx_call (PuppetSync token since)) (\<lambda>r. case r of
       HttpErr _ \<Rightarrow> retry_later since
     | HttpResp st _ body \<Rightarrow>
         if st = 401 then ret None
         else if \<not> is_success st then retry_later since
         else bind (asks (\<lambda>E. l_json (e_lib E) body)) (\<lambda>parsed. case parsed of
             None \<Rightarrow> retry_later since
           | Some v \<Rightarrow> bind (accept_sync mxid token v) (\<lambda>s. ret (Some s))))"

text \<open>The first \<open>n\<close> turns; \<open>True\<close> when the loop returned within them.\<close>

primrec run_auto_accept :: "nat \<Rightarrow> mxid \<Rightarrow> string \<Rightarrow> string option \<Rightarrow> bool act" where
  "run_auto_accept 0 mxid token since = ret False"
| "run_auto_accept (Suc n) mxid token since =
     bind (auto_accept_turn mxid token since) (\<lambda>r. case r of
       None \<Rightarrow> ret True
     | Some since' \<Rightarrow> run_auto_accept n mxid token since')"

text \<open>The task \<^verbatim>\<open>ensure_running\<close> spawns: the loop, then the user leaves the running set.\<close>

definition puppet_task :: "nat \<Rightarrow> mxid \<Rightarrow> string \<Rightarrow> unit act" where
  "puppet_task n mxid token = bind (run_auto_accept n mxid token None) (\<lambda>stopped.
     if stopped then mem (DropPuppet mxid) else ret ())"

end
