(* ===== verification/Login_State.thy ===== *)
theory Login_State
  imports Actions
begin

text \<open>
  The in-memory login state machine, \<^verbatim>\<open>src/src/state.rs\<close>: a map from users to a login step
  with an expiry time, evicted on read and purged periodically. Each method holds the mutex for
  its whole body, so it is one step of the model.
\<close>

definition login_state_ttl :: int where
  "login_state_ttl = 300"

definition live_login :: "(mxid \<times> login_state \<times> int) list \<Rightarrow> int \<Rightarrow> mxid \<Rightarrow> login_state" where
  "live_login m t u = (case map_of m u of
     Some (s, expires) \<Rightarrow> if t < expires then s else LsNone
   | None \<Rightarrow> LsNone)"

definition get_login_state :: "mxid \<Rightarrow> login_state act" where
  "get_login_state u =
     bind (gets w_logins) (\<lambda>states. bind now (\<lambda>t.
     case map_of states u of
       Some (s, expires) \<Rightarrow> if t < expires then ret s
         else andthen (mem (DropLogin u)) (ret LsNone)
     | None \<Rightarrow> ret LsNone))"

definition set_login_state :: "mxid \<Rightarrow> login_state \<Rightarrow> unit act" where
  "set_login_state u s = bind now (\<lambda>t. mem (SetLogin u s (t + login_state_ttl)))"

definition clear_login_state :: "mxid \<Rightarrow> unit act" where
  "clear_login_state u = mem (DropLogin u)"

definition cleanup_expired :: "unit act" where
  "cleanup_expired = bind now (\<lambda>t. mem (PurgeLogins t))"

section \<open>What the map promises\<close>

text \<open>
  The state a user is in at a time is \<open>live_login\<close>; every method is described by its effect on
  that view, for every user and every later time.
\<close>

abbreviation login_at :: "world \<Rightarrow> int \<Rightarrow> mxid \<Rightarrow> login_state" where
  "login_at w \<equiv> live_login (w_logins w)"

lemma get_login_state_run:
  "fst (get_login_state u E w) = Ok (login_at w (w_clock w) u)"
  by (auto simp: get_login_state_def live_login_def now_def bind_def gets_def ret_def andthen_def
      mem_def split: option.split)

lemma set_login_state_run:
  "login_at (snd (set_login_state u s E w)) t v =
   (if v = u then (if t < w_clock w + login_state_ttl then s else LsNone) else login_at w t v)"
  by (auto simp: set_login_state_def live_login_def now_def bind_def gets_def mem_def update_conv)

lemma clear_login_state_run:
  "login_at (snd (clear_login_state u E w)) t v = (if v = u then LsNone else login_at w t v)"
  by (auto simp: clear_login_state_def live_login_def mem_def map_of_delete
      AList.delete_conv split: option.split)

lemma get_login_state_keeps:
  "w_clock w \<le> t \<Longrightarrow> login_at (snd (get_login_state u E w)) t v = login_at w t v"
  by (auto simp: get_login_state_def live_login_def now_def bind_def gets_def ret_def andthen_def
      mem_def AList.delete_conv split: option.split)

lemma map_of_purge:
  "distinct (map fst m) \<Longrightarrow> map_of (filter (\<lambda>(_, _, x). t < x) m) u =
   (case map_of m u of Some (s, x) \<Rightarrow> if t < x then Some (s, x) else None | None \<Rightarrow> None)"
proof (induction m)
  case (Cons p m)
  obtain k s x where p: "p = (k, s, x)" by (cases p) auto
  from Cons have IH: "map_of (filter (\<lambda>(_, _, x). t < x) m) u =
      (case map_of m u of Some (s, x) \<Rightarrow> if t < x then Some (s, x) else None | None \<Rightarrow> None)"
    and k: "k \<notin> fst ` set m"
    by (auto simp: p)
  have "map_of m k = None" using k by (simp add: map_of_eq_None_iff)
  then show ?case using IH by (auto simp: p split: option.splits)
qed simp

lemma cleanup_expired_run:
  assumes "distinct (map fst (w_logins w))" and "w_clock w \<le> t"
  shows "login_at (snd (cleanup_expired E w)) t u = login_at w t u"
  using assms
  by (auto simp: cleanup_expired_def live_login_def now_def bind_def gets_def mem_def map_of_purge
      split: option.split)

text \<open>The map is keyed: no step puts two entries for one user.\<close>

definition logins_ok :: "world \<Rightarrow> bool" where
  "logins_ok w \<longleftrightarrow> distinct (map fst (w_logins w))"

lemma world_step_logins_ok: "world_step l w w' \<Longrightarrow> logins_ok w \<Longrightarrow> logins_ok w'"
proof (induction rule: world_step.induct)
  case (step_mem m w)
  then show ?case
    by (cases m) (auto simp: logins_ok_def distinct_update distinct_delete distinct_map_filter)
qed (auto simp: logins_ok_def emit_def)

lemma login_evolves [frame_rules]:
  "K (LMem (DropLogin u)) \<Longrightarrow> within (evolves K) (get_login_state u)"
  "(\<And>t. K (LMem (SetLogin u s t))) \<Longrightarrow> within (evolves K) (set_login_state u s)"
  "K (LMem (DropLogin u)) \<Longrightarrow> within (evolves K) (clear_login_state u)"
  "(\<And>t. K (LMem (PurgeLogins t))) \<Longrightarrow> within (evolves K) cleanup_expired"
  unfolding get_login_state_def set_login_state_def clear_login_state_def cleanup_expired_def
  by (intro frame_rules; assumption)+

end
