(* ===== verification/Startup.thy ===== *)
theory Startup
  imports Event_Loop Puppet_Sync Login_State
begin

text \<open>
  Configuration and start-up, \<^verbatim>\<open>src/src/config.rs\<close> and \<^verbatim>\<open>src/src/main.rs\<close>: secrets from a
  flag or a file, the specs of declared users, the encryption key, the backfill window, the
  registration, and the sequence that brings the bot, the sessions and the puppets up. Reading a
  file, parsing a duration and drawing a token are arguments. \<open>Launch\<close> has the arguments of the
  program and what comes after this sequence.
\<close>

section \<open>Secrets and specs\<close>

definition both_given :: "string \<Rightarrow> string" where
  "both_given name = ''provide only one of --'' @ name @ '' or --'' @ name @ ''-file''"

definition unreadable :: "string \<Rightarrow> string \<Rightarrow> string" where
  "unreadable what path = ''failed to read '' @ what @ '' '' @ [CHR 0x27] @ path @ [CHR 0x27]"

definition read_trimmed :: "(string \<Rightarrow> string option) \<Rightarrow> string \<Rightarrow> string \<Rightarrow> string + string" where
  "read_trimmed read what path = (case read path of
     None \<Rightarrow> Inl (unreadable what path) | Some s \<Rightarrow> Inr (trim s))"

definition resolve_secret ::
    "(string \<Rightarrow> string option) \<Rightarrow> string option \<Rightarrow> string option \<Rightarrow> string \<Rightarrow> string + string option" where
  "resolve_secret read inline file name = (case (inline, file) of
     (Some _, Some _) \<Rightarrow> Inl (both_given name)
   | (Some v, None) \<Rightarrow> Inr (Some v)
   | (None, Some path) \<Rightarrow> map_sum id Some (read_trimmed read (''--'' @ name @ ''-file'') path)
   | (None, None) \<Rightarrow> Inr None)"

record user_spec =
  us_mxid :: mxid
  us_username :: string
  us_url :: "string option"
  us_token :: string
  us_password :: "string option"

text \<open>The six variables that the loop over the segments fills; a later segment replaces an earlier one.\<close>

record spec_fields =
  sf_mxid :: "string option"
  sf_username :: "string option"
  sf_url :: "string option"
  sf_token :: "string option"
  sf_token_file :: "string option"
  sf_password_file :: "string option"

definition no_fields :: spec_fields where
  "no_fields = \<lparr>sf_mxid = None, sf_username = None, sf_url = None, sf_token = None,
     sf_token_file = None, sf_password_file = None\<rparr>"

definition set_field :: "string \<Rightarrow> string \<Rightarrow> spec_fields \<Rightarrow> string + spec_fields" where
  "set_field key value f =
     (if key = ''mxid'' then Inr (f\<lparr>sf_mxid := Some value\<rparr>)
      else if key = ''username'' then Inr (f\<lparr>sf_username := Some value\<rparr>)
      else if key = ''url'' then Inr (f\<lparr>sf_url := Some value\<rparr>)
      else if key = ''token'' then Inr (f\<lparr>sf_token := Some value\<rparr>)
      else if key = ''token-file'' then Inr (f\<lparr>sf_token_file := Some value\<rparr>)
      else if key = ''matrix-password-file'' then Inr (f\<lparr>sf_password_file := Some value\<rparr>)
      else Inl (''unknown --user key '' @ [CHR 0x27] @ key @ [CHR 0x27]))"

definition bad_segment :: "string \<Rightarrow> string" where
  "bad_segment seg = ''invalid --user segment '' @ [CHR 0x27] @ seg @ [CHR 0x27] @ '', expected key=value''"

fun spec_segments :: "string list \<Rightarrow> spec_fields \<Rightarrow> string + spec_fields" where
  "spec_segments [] f = Inr f"
| "spec_segments (seg # segs) f = (let s = trim seg in
     if s = [] then spec_segments segs f
     else case split_once s (CHR ''='') of
       None \<Rightarrow> Inl (bad_segment s)
     | Some (k, v) \<Rightarrow> (case set_field (trim k) (trim v) f of
         Inl e \<Rightarrow> Inl e
       | Inr f' \<Rightarrow> spec_segments segs f'))"

definition spec_token :: "(string \<Rightarrow> string option) \<Rightarrow> spec_fields \<Rightarrow> string + string" where
  "spec_token read f = (case sf_token_file f of
     Some path \<Rightarrow> read_trimmed read ''--user token-file'' path
   | None \<Rightarrow> (case sf_token f of
       Some t \<Rightarrow> Inr t
     | None \<Rightarrow> Inl ''--user requires either token-file or token''))"

definition spec_password :: "(string \<Rightarrow> string option) \<Rightarrow> spec_fields \<Rightarrow> string + string option" where
  "spec_password read f = (case sf_password_file f of
     None \<Rightarrow> Inr None
   | Some path \<Rightarrow> (case read_trimmed read ''--user matrix-password-file'' path of
       Inl e \<Rightarrow> Inl e
     | Inr pw \<Rightarrow> Inr (if pw = [] then None else Some pw)))"

definition finish_spec :: "spec_fields \<Rightarrow> string \<Rightarrow> string option \<Rightarrow> string + user_spec" where
  "finish_spec f token password = (case sf_mxid f of
     None \<Rightarrow> Inl ''--user requires mxid''
   | Some m \<Rightarrow> (case sf_username f of
       None \<Rightarrow> Inl ''--user requires username''
     | Some n \<Rightarrow> Inr \<lparr>us_mxid = m, us_username = n,
         us_url = (case sf_url f of Some u \<Rightarrow> if u = [] then None else Some u | None \<Rightarrow> None),
         us_token = token, us_password = password\<rparr>))"

definition parse_user_spec :: "(string \<Rightarrow> string option) \<Rightarrow> string \<Rightarrow> string + user_spec" where
  "parse_user_spec read spec = (case spec_segments (split_char (CHR '','') spec) no_fields of
     Inl e \<Rightarrow> Inl e
   | Inr f \<Rightarrow> (case spec_token read f of
       Inl e \<Rightarrow> Inl e
     | Inr token \<Rightarrow> if token = [] then Inl ''--user token is empty''
         else (case spec_password read f of
           Inl e \<Rightarrow> Inl e
         | Inr password \<Rightarrow> finish_spec f token password)))"

section \<open>The encryption key\<close>

definition hex_value :: "char \<Rightarrow> nat option" where
  "hex_value c = (let n = (of_char c :: nat) in
     if 48 \<le> n \<and> n \<le> 57 then Some (n - 48)
     else if 97 \<le> n \<and> n \<le> 102 then Some (n - 87)
     else if 65 \<le> n \<and> n \<le> 70 then Some (n - 55)
     else None)"

fun hex_bytes :: "string \<Rightarrow> string option" where
  "hex_bytes (h # l # s) = (case (hex_value h, hex_value l) of
     (Some a, Some b) \<Rightarrow> map_option (\<lambda>r. char_of (16 * a + b) # r) (hex_bytes s)
   | _ \<Rightarrow> None)"
| "hex_bytes s = Some []"

definition key_bytes :: nat where
  "key_bytes = 32"

definition decode_key :: "(string \<Rightarrow> string option) \<Rightarrow> string \<Rightarrow> string + string" where
  "decode_key unb64 raw = (let t = trim raw in
     case (if length t = 2 * key_bytes \<and> list_all (\<lambda>c. hex_value c \<noteq> None) t then hex_bytes t else unb64 t) of
       None \<Rightarrow> Inl ''Encryption key must be valid base64 or a 64-character hex string''
     | Some k \<Rightarrow> if length k = key_bytes then Inr k
         else Inl (''Encryption key must decode to exactly 32 bytes, got '' @ show_nat (length k)))"

section \<open>The backfill window and the registration\<close>

datatype 'span window_error = WindowParse string string | NotPositive string

text \<open>The duration parser gives a span and whether it is positive, or its error text.\<close>

definition parse_backfill_window ::
    "(string \<Rightarrow> string + ('span \<times> bool)) \<Rightarrow> string \<Rightarrow> 'span window_error + 'span option" where
  "parse_backfill_window span input = (let t = trim input in
     if t = [] \<or> eq_ignore_ascii_case t ''all'' then Inr None
     else case span t of
       Inl e \<Rightarrow> Inl (WindowParse t e)
     | Inr (s, positive) \<Rightarrow> if positive then Inr (Some s) else Inl (NotPositive t))"

record registration =
  rg_id :: string
  rg_url :: string
  rg_as_token :: string
  rg_hs_token :: string
  rg_sender :: string
  rg_users :: "(bool \<times> string) list"
  rg_aliases :: "(bool \<times> string) list"
  rg_rooms :: "(bool \<times> string) list"
  rg_ephemeral :: bool

definition generate_registration :: "string \<Rightarrow> string \<Rightarrow> string \<Rightarrow> registration" where
  "generate_registration token1 token2 url = \<lparr>rg_id = ''jmap-bridge'', rg_url = url,
     rg_as_token = token1, rg_hs_token = token2, rg_sender = ''_jmap_bot'',
     rg_users = [(True, ''@_jmap_.*'')], rg_aliases = [], rg_rooms = [], rg_ephemeral = True\<rparr>"

section \<open>Bringing the bridge up\<close>

text \<open>The bot is registered within ten attempts, five seconds apart, or start-up fails.\<close>

primrec register_bot :: "nat \<Rightarrow> unit act" where
  "register_bot 0 = fail (Other ''Failed to ensure bot user exists'')"
| "register_bot (Suc n) =
     bind (attempt (ensure_user_exists ''_jmap_bot'')) (\<lambda>r. case r of
       Inr _ \<Rightarrow> ret ()
     | Inl e \<Rightarrow> if n = 0 then fail (Other (''Failed to ensure bot user exists: '' @ err_text e))
         else andthen (sleep 5) (register_bot n))"

definition bot_attempts :: nat where
  "bot_attempts = 10"

definition bot_display_name :: string where
  "bot_display_name = ''JMAP Bridge''"

definition bridge_state_or_none :: "string \<Rightarrow> string option act" where
  "bridge_state_or_none key = bind (attempt (get_bridge_state key)) (\<lambda>r.
     ret (case r of Inr v \<Rightarrow> v | Inl _ \<Rightarrow> None))"

definition apply_display_name :: "unit act" where
  "apply_display_name =
     bind (bridge_state_or_none ''bot_displayname'') (\<lambda>current.
     if current = Some bot_display_name then ret ()
     else bind bot_user_id (\<lambda>bot_user.
       bind (attempt (set_display_name bot_user bot_display_name)) (\<lambda>r. case r of
         Inr _ \<Rightarrow> ignore (set_bridge_state ''bot_displayname'' bot_display_name)
       | Inl _ \<Rightarrow> ret ())))"

definition first_word :: "string \<Rightarrow> string option" where
  "first_word s = (case split_whitespace s of [] \<Rightarrow> None | w # _ \<Rightarrow> Some w)"

text \<open>The logo and its hash are compiled in; the row holds the hash and the media it was uploaded as.\<close>

definition apply_avatar :: "string \<Rightarrow> string \<Rightarrow> unit act" where
  "apply_avatar logo logo_hash =
     bind (bridge_state_or_none ''bot_avatar'') (\<lambda>current.
     if Option.bind current first_word = Some logo_hash then ret ()
     else bind bot_user_id (\<lambda>bot_user.
       bind (attempt (set_avatar bot_user logo ''image/png'')) (\<lambda>r. case r of
         Inr mxc \<Rightarrow> ignore (set_bridge_state ''bot_avatar'' (logo_hash @ '' '' @ mxc))
       | Inl _ \<Rightarrow> ret ())))"

definition cli_login :: "string option \<Rightarrow> string option \<Rightarrow> string \<Rightarrow> unit act" where
  "cli_login username token jmap_url = (case (username, token) of
     (Some n, Some t) \<Rightarrow>
       if n = [] \<or> t = [] then ret ()
       else bind (asks (c_domain \<circ> e_cfg)) (\<lambda>domain.
         ignore (login (''@admin:'' @ domain) n t (if jmap_url = [] then ''http://127.0.0.1:8080'' else jmap_url)))
   | _ \<Rightarrow> ret ())"

text \<open>A puppet from the configured password: a token that could not be stored is used all the same.\<close>

definition provision_puppet :: "mxid \<Rightarrow> string \<Rightarrow> unit act" where
  "provision_puppet user password =
     bind (attempt (login_password user password)) (\<lambda>r. case r of
       Inl _ \<Rightarrow> ret ()
     | Inr token \<Rightarrow> andthen (ignore (set_matrix_puppet_token user token)) (ensure_running user token))"

definition provision_user :: "string \<Rightarrow> user_spec \<Rightarrow> unit act" where
  "provision_user jmap_url u =
     andthen (ignore (login (us_mxid u) (us_username u) (us_token u)
       (case us_url u of Some l \<Rightarrow> l | None \<Rightarrow> jmap_url)))
     (case us_password u of None \<Rightarrow> ret () | Some pw \<Rightarrow> provision_puppet (us_mxid u) pw)"

definition provision :: "(string \<Rightarrow> string option) \<Rightarrow> string \<Rightarrow> string \<Rightarrow> unit act" where
  "provision read jmap_url spec = (case parse_user_spec read spec of
     Inl _ \<Rightarrow> ret () | Inr u \<Rightarrow> provision_user jmap_url u)"

definition resume_puppet :: "registered_user \<Rightarrow> unit act" where
  "resume_puppet u =
     bind (attempt (get_matrix_puppet_token (ru_mxid u))) (\<lambda>r. case r of
       Inr (Some token) \<Rightarrow> ensure_running (ru_mxid u) token
     | _ \<Rightarrow> ret ())"

definition resume_puppets :: "unit act" where
  "resume_puppets = bind (attempt get_all_users) (\<lambda>r. case r of
     Inl _ \<Rightarrow> ret () | Inr users \<Rightarrow> for_each users resume_puppet)"

definition bring_up ::
    "(string \<Rightarrow> string option) \<Rightarrow> string \<Rightarrow> string \<Rightarrow> string option \<Rightarrow> string option \<Rightarrow> string \<Rightarrow> string list \<Rightarrow> unit act" where
  "bring_up read logo logo_hash username token jmap_url users =
     andthen store_init
     (andthen (bind bot_user_id parse_user)
     (andthen (register_bot bot_attempts)
     (andthen apply_display_name
     (andthen (apply_avatar logo logo_hash)
     (andthen start
     (andthen (cli_login username token jmap_url)
     (andthen (for_each users (provision read jmap_url))
     resume_puppets)))))))"

section \<open>Background tasks\<close>

text \<open>The first \<open>n\<close> rounds of the daily pruning and of the login-state cleanup.\<close>

primrec prune_rounds :: "nat \<Rightarrow> unit act" where
  "prune_rounds 0 = ret ()"
| "prune_rounds (Suc n) = andthen (ignore prune_old_data) (andthen (sleep (24 * 3600)) (prune_rounds n))"

primrec cleanup_rounds :: "nat \<Rightarrow> unit act" where
  "cleanup_rounds 0 = ret ()"
| "cleanup_rounds (Suc n) = andthen cleanup_expired (andthen (sleep 60) (cleanup_rounds n))"

end
