(* ===== verification/Accounts.thy ===== *)
theory Accounts
  imports Contracts Startup
begin

text \<open>
  What accounts and their settings guarantee: login dialogues expire, a logout forgets the
  account and nobody else's, credentials survive storage, the permission specs admit exactly
  whom they name, and the encryption key has the right length.
\<close>

section \<open>Login dialogues expire\<close>

definition leaves_login :: "mxid \<Rightarrow> int \<Rightarrow> label \<Rightarrow> bool" where
  "leaves_login u t l \<longleftrightarrow> (case l of
     LMem (SetLogin v _ _) \<Rightarrow> v \<noteq> u | LMem (DropLogin v) \<Rightarrow> v \<noteq> u | LMem (PurgeLogins p) \<Rightarrow> p \<le> t | _ \<Rightarrow> True)"

definition dialogue_kept :: "mxid \<Rightarrow> login_state \<Rightarrow> int \<Rightarrow> int \<Rightarrow> world \<Rightarrow> bool" where
  "dialogue_kept u s expires t w \<longleftrightarrow> logins_ok w \<and>
     (map_of (w_logins w) u = Some (s, expires) \<or> expires \<le> t \<and> map_of (w_logins w) u = None)"

lemma dialogue_kept_step:
  assumes st: "world_step l w1 w2" and l: "l = LTick \<or> leaves_login u t l" and k: "dialogue_kept u s x t w1"
  shows "dialogue_kept u s x t w2"
proof -
  have ok: "logins_ok w1" "logins_ok w2" using k world_step_logins_ok [OF st] by (auto simp: dialogue_kept_def)
  have purge: "map_of (filter (\<lambda>(_, _, y). p < y) (w_logins w1)) u =
      (case map_of (w_logins w1) u of Some (s, y) \<Rightarrow> if p < y then Some (s, y) else None | None \<Rightarrow> None)" for p
    using ok(1) by (intro map_of_purge) (simp add: logins_ok_def)
  show ?thesis
    using st
  proof (cases rule: world_step.cases)
    case (step_mem m)
    then show ?thesis using k l ok(2) purge
      by (cases m) (auto simp: dialogue_kept_def leaves_login_def update_conv AList.delete_conv split: if_splits)
  qed (use k ok in \<open>auto simp: dialogue_kept_def emit_def\<close>)
qed

text \<open>A login dialogue is remembered for five minutes and then forgotten: whatever the bridge
  does in between for others, the state read later is the one set, until its time is up.\<close>

theorem login_dialogue_expires:
  assumes "logins_ok w" and "evolves (leaves_login u (w_clock w2)) (snd (set_login_state u s E w)) w2"
  shows "fst (get_login_state u E' w2) = Ok (if w_clock w2 < w_clock w + 300 then s else LsNone)"
proof -
  let ?w1 = "snd (set_login_state u s E w)"
  have w1: "w_logins ?w1 = AList.update u (s, w_clock w + 300) (w_logins w)"
    by (simp add: set_login_state_def now_def bind_def gets_def mem_def login_state_ttl_def)
  have "logins_ok ?w1" using assms(1) by (simp add: logins_ok_def w1 distinct_update)
  moreover have "map_of (w_logins ?w1) u = Some (s, w_clock w + 300)" by (simp add: w1 update_conv)
  ultimately have "dialogue_kept u s (w_clock w + 300) (w_clock w2) ?w1" by (simp add: dialogue_kept_def)
  with assms(2) have "dialogue_kept u s (w_clock w + 300) (w_clock w2) w2"
    by (rule evolves_invariant) (blast intro: dialogue_kept_step)
  then show ?thesis by (auto simp: get_login_state_run live_login_def dialogue_kept_def)
qed

theorem login_dialogue_expires_witness:
  "fst (get_login_state ''@a:x.org'' sample_env
     (snd (set_login_state ''@a:x.org'' WaitingForEmail sample_env sample_world))) = Ok WaitingForEmail"
proof -
  let ?w1 = "snd (set_login_state ''@a:x.org'' WaitingForEmail sample_env sample_world)"
  have "logins_ok sample_world" "w_clock ?w1 = w_clock sample_world"
    by (simp_all add: logins_ok_def sample_world_def set_login_state_def now_def bind_def gets_def mem_def)
  then show ?thesis using login_dialogue_expires [OF _ evolves_refl, of sample_world] by simp
qed

section \<open>Logging out\<close>

text \<open>The whole effect of a logout that succeeds.\<close>

lemma logout_Ok:
  assumes "logout u E w = (Ok x, w')"
  shows "w_db w' = (w_db w)
      \<lparr>t_users := upd_rows (\<lambda>r. ru_mxid r = u) (ru_token_update (\<lambda>_. [])) (t_users (w_db w)),
       t_outbound := drop_rows (\<lambda>r. om_user r = u) (t_outbound (w_db w))\<rparr>"
    and "client_of v w' = (if v = u then None else client_of v w)"
    and "w_pollers w' = removeAll u (w_pollers w)"
    and "w_logins w' = w_logins w" "w_puppets w' = w_puppets w" "w_tasks w' = w_tasks w" "w_trace w' = w_trace w"
proof -
  from assms have d: "w_db w' = (w_db w)
      \<lparr>t_users := upd_rows (\<lambda>r. ru_mxid r = u) (ru_token_update (\<lambda>_. [])) (t_users (w_db w)),
       t_outbound := drop_rows (\<lambda>r. om_user r = u) (t_outbound (w_db w))\<rparr>"
    and c: "w_clients w' = AList.delete u (w_clients w)" and p: "w_pollers w' = removeAll u (w_pollers w)"
    and t: "w_logins w' = w_logins w" "w_puppets w' = w_puppets w" "w_tasks w' = w_tasks w" "w_trace w' = w_trace w"
    by (auto simp: logout_def andthen_def bind_eq_Ok abort_poller_def clear_user_credentials_def
        clear_outbound_queue_def run_blank_token run_clear_queue mem_Ok)
  show "w_db w' = (w_db w)
      \<lparr>t_users := upd_rows (\<lambda>r. ru_mxid r = u) (ru_token_update (\<lambda>_. [])) (t_users (w_db w)),
       t_outbound := drop_rows (\<lambda>r. om_user r = u) (t_outbound (w_db w))\<rparr>" by (rule d)
  show "client_of v w' = (if v = u then None else client_of v w)"
    using c by (simp add: client_of_def delete_conv)
  show "w_pollers w' = removeAll u (w_pollers w)" by (rule p)
  show "w_logins w' = w_logins w" "w_puppets w' = w_puppets w" "w_tasks w' = w_tasks w" "w_trace w' = w_trace w"
    by (rule t)+
qed

text \<open>C38: a logout that returns has forgotten the account: no session and poller, no credentials, no
  unsent mail. Of the database only the account and queue rows of that user differ; the sessions and
  pollers of others, every login dialogue, puppet and task stay, and nothing is sent.\<close>

theorem logout_forgets_account:
  assumes "logout u E w = (Ok (), w1)" and "e_fault (e_net E) (w_step w1) = None"
  shows "get_user u E w1 = (Ok None, tick E w1) \<and>
    (\<forall>v. client_of v w1 = (if v = u then None else client_of v w)) \<and> w_pollers w1 = removeAll u (w_pollers w) \<and>
    w_db w1 = (w_db w)\<lparr>t_users := t_users (w_db w1), t_outbound := t_outbound (w_db w1)\<rparr> \<and>
    filter (\<lambda>r. om_user r = u) (t_outbound (w_db w1)) = [] \<and>
    filter (\<lambda>r. om_user r \<noteq> u) (t_outbound (w_db w1)) = filter (\<lambda>r. om_user r \<noteq> u) (t_outbound (w_db w)) \<and>
    filter (\<lambda>r. ru_mxid r \<noteq> u) (t_users (w_db w1)) = filter (\<lambda>r. ru_mxid r \<noteq> u) (t_users (w_db w)) \<and>
    w_logins w1 = w_logins w \<and> w_puppets w1 = w_puppets w \<and> w_tasks w1 = w_tasks w \<and> w_trace w1 = w_trace w"
proof -
  note out = logout_Ok [OF assms(1)]
  have "get_user u E w1 = (Ok None, tick E w1)"
    by (rule get_user_absent [OF _ assms(2)]) (simp add: out(1) no_active_after_blank)
  moreover have "filter (\<lambda>r. ru_mxid r \<noteq> u) (upd_rows (\<lambda>r. ru_mxid r = u) f t) = filter (\<lambda>r. ru_mxid r \<noteq> u) t"
    if "\<And>r. ru_mxid (f r) = ru_mxid r" for f and t :: "registered_user list"
    using that by (induction t) (auto simp: upd_rows_def)
  ultimately show ?thesis using out by (simp add: drop_rows_def)
qed

theorem logout_forgets_account_witness:
  "client_of ''@a:x.org'' (snd (logout ''@a:x.org'' sample_env sample_world)) = None"
proof -
  have "logout ''@a:x.org'' sample_env sample_world = (Ok (), snd (logout ''@a:x.org'' sample_env sample_world))"
    by (simp add: logout_def abort_poller_def clear_user_credentials_def clear_outbound_queue_def
        exec_unit_def andthen_def bind_def mem_def run_def Let_def ret_def sample_env_def quiet_answers_def)
  moreover have "e_fault (e_net sample_env) i = None" for i
    by (simp add: sample_env_def quiet_answers_def)
  ultimately show ?thesis using logout_forgets_account [of "''@a:x.org''" sample_env sample_world] by simp
qed

section \<open>Credentials survive storage\<close>

lemma find_own_user:
  "ru_mxid r = u \<Longrightarrow> ru_token r \<noteq> [] \<Longrightarrow>
   exec t (UpsertUser r) d = Inr (n, d') \<Longrightarrow> find_row (\<lambda>x. ru_mxid x = u \<and> active x) (t_users d') = Some r"
proof (cases "user_exists d u")
  case True
  assume r: "ru_mxid r = u" "ru_token r \<noteq> []" and ex: "exec t (UpsertUser r) d = Inr (n, d')"
  have "find_row (\<lambda>x. ru_mxid x = u \<and> active x) (upd_rows (\<lambda>x. ru_mxid x = u) (user_row_update r) l) =
      (if \<exists>x \<in> set l. ru_mxid x = u then Some r else None)" for l
    using r by (induction l) (auto simp: upd_rows_def active_def user_row_update_def)
  then show ?thesis using True r ex by (auto simp: user_exists_def)
next
  case False
  assume r: "ru_mxid r = u" "ru_token r \<noteq> []" and ex: "exec t (UpsertUser r) d = Inr (n, d')"
  have "find_row (\<lambda>x. ru_mxid x = u \<and> active x) (t_users d) = None"
    using False by (auto simp: find_row_None user_exists_def)
  then show ?thesis using False r ex by (auto simp: find_row_append active_def)
qed

lemma sealed_unsealed:
  assumes "good_ciphers E" and "valid_utf8 p" and "sealed c p E w = (Ok x, w1)"
  shows "unsealed c' x E v = (Ok p, v)"
proof (cases "c_key (e_cfg E)")
  case None
  then show ?thesis using assms(3)
    by (auto simp: sealed_def unsealed_def bind_def asks_def ret_def)
next
  case (Some k)
  then have "encrypt p k E w = (Ok x, w1)" using assms(3)
    by (auto simp: sealed_def bind_def asks_def contextual_def attempt_def ret_def fail_def
        split: prod.splits outcome.splits)
  from encrypt_then_decrypt [OF assms(1,2) this] show ?thesis
    using Some by (simp add: unsealed_def bind_def asks_def contextual_def attempt_def ret_def)
qed

lemma sealed_nonempty:
  assumes "sealed c p E w = (Ok x, w1)" and "p \<noteq> []" and "good_ciphers E"
    and "\<And>b. b \<noteq> [] \<Longrightarrow> l_b64 (e_crypt E) b \<noteq> []"
  shows "x \<noteq> []"
proof (cases "c_key (e_cfg E)")
  case None
  then show ?thesis using assms(1,2) by (auto simp: sealed_def bind_def asks_def ret_def)
next
  case (Some k)
  then have "encrypt p k E w = (Ok x, w1)" using assms(1)
    by (auto simp: sealed_def bind_def asks_def contextual_def attempt_def ret_def fail_def
        split: prod.splits outcome.splits)
  moreover have "e_nonce (e_net E) i \<noteq> []" for i
    using assms(3) by (auto simp: good_ciphers_def nonce_len_def) (metis list.size(3) numeral_eq_Suc zero_neq_numeral)
  ultimately show ?thesis using assms(4) by (auto simp: encrypt_Ok)
qed

text \<open>C22: credentials that were saved are read back as they were given, with or without a key,
  whoever was stored under that id before.\<close>

theorem credentials_round_trip:
  assumes "good_ciphers E" and "\<And>b. b \<noteq> [] \<Longrightarrow> l_b64 (e_crypt E) b \<noteq> []"
    and "valid_utf8 (ru_name r)" and "valid_utf8 (ru_token r)" and "ru_token r \<noteq> []"
    and "save_user r E w = (Ok (), w1)" and "e_fault (e_net E) (w_step w1) = None"
  shows "get_user (ru_mxid r) E w1 = (Ok (Some r), tick E w1)"
proof -
  from assms(6) obtain n t wa wb where n: "sealed ''Failed to encrypt username'' (ru_name r) E w = (Ok n, wa)"
    and t: "sealed ''Failed to encrypt token'' (ru_token r) E wa = (Ok t, wb)"
    and up: "exec_unit (UpsertUser (r\<lparr>ru_name := n, ru_token := t\<rparr>)) E wb = (Ok (), w1)"
    by (auto simp: save_user_def bind_eq_Ok)
  have "t \<noteq> []" by (rule sealed_nonempty [OF t assms(5,1,2)])
  moreover from up obtain k where "exec (w_clock (tick E wb)) (UpsertUser (r\<lparr>ru_name := n, ru_token := t\<rparr>)) (w_db wb) = Inr (k, w_db w1)"
    by (auto simp: exec_unit_Ok run_Ok simp del: exec.simps)
  ultimately have "find_row (\<lambda>x. ru_mxid x = ru_mxid r \<and> active x) (t_users (w_db w1)) = Some (r\<lparr>ru_name := n, ru_token := t\<rparr>)"
    using find_own_user [of "r\<lparr>ru_name := n, ru_token := t\<rparr>" "ru_mxid r"] by (simp del: exec.simps)
  moreover have "unsealed c n E v = (Ok (ru_name r), v)" "unsealed c t E v = (Ok (ru_token r), v)" for c v
    using sealed_unsealed [OF assms(1,3) n] sealed_unsealed [OF assms(1,4) t] by blast+
  ultimately show ?thesis using assms(7)
    by (simp add: get_user_def decrypt_user_def query_def Let_def bind_def ret_def)
qed

theorem credentials_round_trip_witness:
  "get_user ''@a:x.org'' sample_env (snd (save_user sample_user sample_env sample_world)) =
     (Ok (Some sample_user), tick sample_env (snd (save_user sample_user sample_env sample_world)))"
proof -
  have "good_ciphers sample_env" "\<And>b. b \<noteq> [] \<Longrightarrow> l_b64 (e_crypt sample_env) b \<noteq> []"
    "ru_token sample_user \<noteq> []" "\<And>i. e_fault (e_net sample_env) i = None" "ru_mxid sample_user = ''@a:x.org''"
    by (simp_all add: good_ciphers_def sample_defs nonce_len_def)
  moreover have "valid_utf8 (ru_name sample_user)" "valid_utf8 (ru_token sample_user)" by code_simp+
  moreover have "save_user sample_user sample_env sample_world = (Ok (), snd (save_user sample_user sample_env sample_world))"
    by (simp add: save_user_def sealed_def exec_unit_def bind_def asks_def run_def Let_def ret_def sample_defs)
  ultimately show ?thesis using credentials_round_trip [of sample_env sample_user] by metis
qed

section \<open>The encryption key\<close>

definition hex_of_key :: "string \<Rightarrow> string" where
  "hex_of_key k = concat (map (\<lambda>c. hex02 (of_char c)) k)"

lemma hex_value_digit: "n < 16 \<Longrightarrow> hex_value (hex_digit n) = Some n"
  by (simp add: hex_value_def of_char_hex_digit Let_def)

lemma char_code_less: "(of_char (c :: char) :: nat) < 256"
  by simp

lemma halves_small: "(of_char (c :: char) :: nat) div 16 < 16" "(of_char (c :: char) :: nat) mod 16 < 16"
  using less_mult_imp_div_less [of "of_char c" 16 16] char_code_less [of c] by simp_all

lemma hex_of_key_Cons:
  "hex_of_key (c # k) = hex_digit (of_char c div 16) # hex_digit (of_char c mod 16) # hex_of_key k"
  using char_code_less [of c] by (simp add: hex_of_key_def hex02_byte)

lemma char_halves: "char_of (16 * ((of_char c :: nat) div 16) + of_char c mod 16) = c"
  by simp

lemma hex_bytes_of_key: "hex_bytes (hex_of_key k) = Some k"
  by (induction k) (simp_all add: hex_of_key_Cons hex_value_digit halves_small char_halves
      hex_of_key_def [of "[]"] del: mult_div_mod_eq)

lemma hex_of_key_shape: "length (hex_of_key k) = 2 * length k \<and> list_all (\<lambda>c. hex_value c \<noteq> None) (hex_of_key k)"
  by (induction k) (simp_all add: hex_of_key_Cons hex_value_digit halves_small hex_of_key_def [of "[]"])

lemma hex_value_plain:
  assumes "hex_value c \<noteq> None"
  shows "\<not> ws1 c \<and> \<not> ws2 c b \<and> \<not> ws2 b c \<and> \<not> ws3 c b d \<and> \<not> ws3 b d c"
proof -
  have "48 \<le> (of_char c :: nat) \<and> (of_char c :: nat) < 128"
    using assms by (auto simp: hex_value_def Let_def split: if_splits)
  then have "\<not> ws1 c" "c \<noteq> CHR 0xC2" "c \<noteq> CHR 0x85" "c \<noteq> CHR 0xA0" "c \<noteq> CHR 0xE1" "c \<noteq> CHR 0xE2" "c \<noteq> CHR 0xE3"
    "(of_char c :: nat) < 128"
    by (auto simp: ws1_def Let_def)
  then show ?thesis by (simp add: ws2_def ws3_def Let_def)
qed

lemma trim_hex:
  assumes "list_all (\<lambda>c. hex_value c \<noteq> None) s"
  shows "trim s = s"
proof -
  have z: "ws_len t = 0 \<and> ws_len_rev t = 0" if "list_all (\<lambda>c. hex_value c \<noteq> None) t" for t
    using that hex_value_plain by (cases t; cases "tl t"; cases "tl (tl t)") simp_all
  have "list_all (\<lambda>c. hex_value c \<noteq> None) (rev s)" using assms by simp
  with z assms show ?thesis by (simp add: trim_def trim_end_def trim_start_id trim_rev_id)
qed

text \<open>A key in hexadecimal is read as the bytes it spells, and no key of another length is
  ever accepted, whatever base64 makes of the text.\<close>

theorem encryption_key_length:
  assumes "length k = 32"
  shows "decode_key unb64 (hex_of_key k) = Inr k \<and>
    (case decode_key unb64 raw of Inl _ \<Rightarrow> True | Inr k' \<Rightarrow> length k' = 32)"
proof
  show "decode_key unb64 (hex_of_key k) = Inr k"
    using assms hex_of_key_shape [of k] by (simp add: decode_key_def trim_hex hex_bytes_of_key key_bytes_def Let_def)
  show "case decode_key unb64 raw of Inl _ \<Rightarrow> True | Inr k' \<Rightarrow> length k' = 32"
    by (simp add: decode_key_def key_bytes_def Let_def split: option.split)
qed

theorem encryption_key_length_witness:
  "decode_key (\<lambda>_. None) (hex_of_key (replicate 32 CHR ''k'')) = Inr (replicate 32 CHR ''k'')"
  by (rule encryption_key_length [THEN conjunct1]) simp

section \<open>Permissions\<close>

definition names_user :: "mxid \<Rightarrow> string \<Rightarrow> bool" where
  "names_user u key \<longleftrightarrow> key = u \<or> mxid_domain u = Some key \<or> key = ''*''"

definition spec_admits :: "mxid \<Rightarrow> string \<Rightarrow> bool" where
  "spec_admits u spec = (case parse_spec spec of Inl _ \<Rightarrow> False | Inr (key, _) \<Rightarrow> names_user u key)"

lemma level_for_names: "level_for p u \<noteq> None \<longleftrightarrow> (\<exists>key \<in> dom (map_of p). names_user u key)"
  by (auto simp: level_for_def names_user_def mxid_domain_def domIff split: option.splits prod.splits)

text \<open>C23: the bridge admits exactly whom its permission specs name, by id, by domain or by
  \<^verbatim>\<open>*\<close>; without any spec, the bridge's own domain.\<close>

theorem permissions_admit_named_only:
  assumes "from_specs specs own_domain = Inr p"
  shows "(level_for p u \<noteq> None) = (if specs = [] then names_user u own_domain else list_ex (spec_admits u) specs)"
proof -
  obtain m where m: "add_specs [] specs = Inr m" "p = (if m = [] then AList.update own_domain User m else m)"
    using assms by (auto simp: from_specs_def split: sum.splits)
  show ?thesis
  proof (cases "m = []")
    case True
    then have "p = [(own_domain, User)]" "specs = []" using m add_specs_Nil [of "[]" specs] by auto
    then show ?thesis using level_for_names [of p u] by simp
  next
    case False
    then have "specs \<noteq> []" using m by auto
    have admits: "spec_admits u s \<longleftrightarrow> (\<exists>k l. parse_spec s = Inr (k, l) \<and> names_user u k)" for s
      by (auto simp: spec_admits_def split: sum.split)
    have "dom (map_of p) = {k. \<exists>s \<in> set specs. \<exists>l. parse_spec s = Inr (k, l)}"
      using False m(2) add_specs_dom [OF m(1)] by (simp add: dom_map_of_conv_image_fst)
    then show ?thesis
      unfolding level_for_names using \<open>specs \<noteq> []\<close> by (auto simp: list_ex_iff admits)
  qed
qed

theorem permissions_admit_named_only_witness:
  "(level_for [(''x.org'', Admin)] ''@a:x.org'' \<noteq> None) = list_ex (spec_admits ''@a:x.org'') [''x.org=admin'']"
proof -
  have "from_specs [''x.org=admin''] ''y.org'' = Inr [(''x.org'', Admin)]" by code_simp
  from permissions_admit_named_only [OF this, of "''@a:x.org''"] show ?thesis by simp
qed

end
