(* ===== verification/Puppets.thy ===== *)
theory Puppets
  imports Contracts Puppet_Sync
begin

text \<open>
  What the double-puppet task guarantees: the unread flag of a room is mirrored onto the mail
  once per change, and the user joins only rooms the bridge's bot invited them to.
\<close>

section \<open>The unread flag is mirrored once\<close>

definition unread_gate :: "mxid \<Rightarrow> room_id \<Rightarrow> db \<Rightarrow> bool" where
  "unread_gate u room d \<longleftrightarrow> kv_map d (u, marked_unread_key room) \<noteq> None"

definition unread_label :: "mxid \<Rightarrow> room_id \<Rightarrow> bool \<Rightarrow> label \<Rightarrow> bool" where
  "unread_label u room unread l \<longleftrightarrow> (case l of
     LDb (PutKv v k _) \<Rightarrow> v = u \<and> k = marked_unread_key room \<and> unread
   | LDb (DelKv v k) \<Rightarrow> v = u \<and> k = marked_unread_key room \<and> \<not> unread
   | LEv (EvJmap _ (SetSeen _ seen)) \<Rightarrow> unread \<and> \<not> seen
   | _ \<Rightarrow> False)"

definition unseen_request :: "ev \<Rightarrow> bool" where
  "unseen_request e \<longleftrightarrow> (case e of EvJmap _ (SetSeen _ seen) \<Rightarrow> \<not> seen | _ \<Rightarrow> False)"

lemma exec_put_kv: "exec t (PutKv u k v) d = Inr (n, d') \<Longrightarrow> d' = kv_put (u, k) v d"
  by (auto simp: kv_put_def split: if_splits)

lemma exec_del_kv: "exec t (DelKv u k) d = Inr (n, d') \<Longrightarrow> d' = kv_del (u, k) d"
  by (auto simp: kv_del_def)

lemma unread_gate_step:
  assumes "world_step l w1 w2" and "l = LTick \<or> unread_label u room unread l"
    and "unread_gate u room (w_db w1) = g \<or> unread_gate u room (w_db w1) = unread"
  shows "unread_gate u room (w_db w2) = g \<or> unread_gate u room (w_db w2) = unread"
  using assms(1)
proof (cases rule: world_step.cases)
  case (step_db s n d)
  then consider v where "s = PutKv u (marked_unread_key room) v" "unread"
    | "s = DelKv u (marked_unread_key room)" "\<not> unread"
    using assms(2) by (cases s) (auto simp: unread_label_def)
  then have "unread_gate u room d = unread"
    by cases (use step_db in \<open>auto simp: unread_gate_def kv.put_same kv.del_same simp del: exec.simps
      dest!: exec_put_kv exec_del_kv\<close>)
  then show ?thesis using step_db by simp
next
  case (step_mem m)
  then show ?thesis using assms(2,3) by (simp add: unread_label_def)
qed (use assms(3) in \<open>auto simp: emit_def\<close>)

lemma sync_marked_unread_evolves:
  "within (evolves (unread_label u room unread)) (sync_marked_unread u room unread)"
proof -
  have "within (evolves (unread_label u room True)) (mark_unseen u room)"
    unfolding mark_unseen_def get_client_def by (intro frame_rules; simp add: unread_label_def)
  moreover have "within (evolves (unread_label u room False)) (delete_jmap_state u (marked_unread_key room))"
    by (intro frame_rules) (simp add: unread_label_def)
  moreover have "unread_action g unread = (if g = unread then NoOp else if unread then MarkUnseen else ClearGate)" for g
    by (cases g; cases unread) simp_all
  ultimately show ?thesis
    unfolding sync_marked_unread_def Let_def by (intro frame_rules) (cases unread; auto simp: frame_rules)
qed

text \<open>A report of the flag the gate already has asks for nothing, however often it comes.\<close>

lemma same_flag_noted:
  assumes "e_fault (e_net E) = (\<lambda>_. None)" and "unread_gate u room (w_db w) = unread"
  shows "sync_marked_unread u room unread E w = (Ok (), tick E w)"
  using assms by (auto simp: sync_marked_unread_def unread_gate_def get_kv bind_def attempt_def ret_def
      split: option.splits)

lemma same_flag_repeated:
  assumes "e_fault (e_net E) = (\<lambda>_. None)" and "unread_gate u room (w_db w) = unread"
  shows "w_trace (((\<lambda>v. snd (sync_marked_unread u room unread E v)) ^^ n) w) = w_trace w"
proof -
  let ?v = "((\<lambda>v. snd (sync_marked_unread u room unread E v)) ^^ n) w"
  have "w_trace ?v = w_trace w \<and> w_db ?v = w_db w"
    by (induction n) (simp_all add: same_flag_noted [OF assms(1)] assms(2))
  then show ?thesis by simp
qed

lemma mark_unseen_run:
  assumes nf: "e_fault (e_net E) = (\<lambda>_. None)" and run: "mark_unseen u room E w = (r, w')"
  shows "\<exists>sent. w_trace w' = sent @ w_trace w \<and> length sent \<le> 1 \<and>
    (r = Ok () \<and> sent \<noteq> [] \<longrightarrow> unread_gate u room (w_db w'))"
proof (cases "\<exists>i c w1. get_latest_email_id_by_room room E w = (Ok (Some i), w1) \<and> client_of u w1 = Some c")
  case True
  then obtain i c w1 where i: "get_latest_email_id_by_room room E w = (Ok (Some i), w1)" "client_of u w1 = Some c" by blast
  have w1: "w_trace w1 = w_trace w" using i(1) nf by (auto simp: get_latest_email_id_by_room_def query_Ok)
  let ?e = "EvJmap c (SetSeen i False)"
  let ?w2 = "tick E (emit ?e w1)"
  have rest: "(case e_set (e_jmap E) (?e # w_trace w1) of
      None \<Rightarrow> save_jmap_state u (marked_unread_key room) ''1'' E ?w2 | Some m \<Rightarrow> (Err (Other m), ?w2)) = (r, w')"
    using run i by (simp add: mark_unseen_def get_client_def bind_def gets_def andthen_def mark_as_unread_def set_seen_def
        jset_def jcall_def call_def fail_def ret_def emit_def split: option.splits)
  show ?thesis
  proof (cases "e_set (e_jmap E) (?e # w_trace w1)")
    case (Some m)
    then show ?thesis using rest w1 by (intro exI [of _ "[?e]"]) (auto simp: emit_def)
  next
    case None
    then have "save_jmap_state u (marked_unread_key room) ''1'' E ?w2 = (r, w')" using rest by simp
    then show ?thesis using w1 nf by (intro exI [of _ "[?e]"])
      (auto simp: save_jmap_state_def exec_unit_def bind_def run_def Let_def ret_def emit_def unread_gate_def
        kv.put_same simp del: exec.simps dest!: exec_put_kv split: sum.splits)
  qed
next
  case False
  then have "w_trace w' = w_trace w" using run nf
    by (cases "get_latest_email_id_by_room room E w")
      (auto simp: mark_unseen_def get_latest_email_id_by_room_def query_def get_client_def bind_def gets_def ret_def Let_def
        split: option.splits)
  then show ?thesis by (intro exI [of _ "[]"]) simp
qed

lemma sync_marked_unread_run:
  assumes nf: "e_fault (e_net E) = (\<lambda>_. None)" and run: "sync_marked_unread u room unread E w = (r, w')"
  shows "\<exists>sent. w_trace w' = sent @ w_trace w \<and> length sent \<le> of_bool (unread \<and> \<not> unread_gate u room (w_db w)) \<and>
    (r = Ok () \<and> (unread \<longrightarrow> sent \<noteq> []) \<longrightarrow> unread_gate u room (w_db w') = unread)"
proof (cases "unread_gate u room (w_db w) = unread")
  case True
  then have "w' = tick E w" using run same_flag_noted [OF nf] by simp
  then show ?thesis using True by (intro exI [of _ "[]"]) simp
next
  case False
  have w1: "kv_map (w_db w) (u, marked_unread_key room) = None \<longleftrightarrow> unread" using False by (auto simp: unread_gate_def)
  show ?thesis
  proof (cases unread)
    case True
    then have "mark_unseen u room E (tick E w) = (r, w')"
      using run w1 nf by (simp add: sync_marked_unread_def get_kv bind_def attempt_def Let_def)
    from mark_unseen_run [OF nf this] show ?thesis using True False by simp
  next
    case no: False
    then obtain v where "kv_map (w_db w) (u, marked_unread_key room) = Some v" using w1 by auto
    then have "delete_jmap_state u (marked_unread_key room) E (tick E w) = (r, w')"
      using run no nf by (simp add: sync_marked_unread_def get_kv bind_def attempt_def Let_def)
    then show ?thesis using nf no by (intro exI [of _ "[]"])
      (auto simp: delete_jmap_state_def exec_unit_def bind_def run_def Let_def ret_def unread_gate_def
        kv.del_same simp del: exec.simps dest!: exec_del_kv split: sum.splits)
  qed
qed

text \<open>C26: while the database answers, a report of a room's unread flag asks the mail server at most
  once, and only for a flag that is set while the gate is not: to mark the mail unseen. A report that
  succeeds, and for a set flag made that request, leaves the gate as the flag says, and from a gate
  that agrees with the flag any number of further reports of it ask the mail server for nothing.\<close>

theorem unread_flag_mirrored_once:
  assumes "e_fault (e_net E) = (\<lambda>_. None)" and "sync_marked_unread u room unread E w = (r, w')"
  shows "\<exists>sent. w_trace w' = sent @ w_trace w \<and> list_all unseen_request sent \<and>
    length sent \<le> of_bool (unread \<and> \<not> unread_gate u room (w_db w)) \<and>
    (unread_gate u room (w_db w') = unread_gate u room (w_db w) \<or> unread_gate u room (w_db w') = unread) \<and>
    (r = Ok () \<and> (unread \<longrightarrow> sent \<noteq> []) \<longrightarrow> unread_gate u room (w_db w') = unread) \<and>
    (unread_gate u room (w_db w') = unread \<longrightarrow>
      w_trace (((\<lambda>v. snd (sync_marked_unread u room unread E v)) ^^ n) w') = w_trace w')"
proof -
  let ?K = "unread_label u room unread"
  have ev: "evolves ?K w w'" using sync_marked_unread_evolves assms(2) by (metis withinD)
  have gate: "unread_gate u room (w_db w') = unread_gate u room (w_db w) \<or> unread_gate u room (w_db w') = unread"
    by (rule evolves_invariant [OF ev], simp, rule unread_gate_step)
  have "?K (LEv e) \<Longrightarrow> unseen_request e" for e
    by (auto simp: unread_label_def unseen_request_def split: ev.splits jmap_req.splits)
  moreover obtain v where "w_trace w' = v @ w_trace w" "list_all (\<lambda>e. ?K (LEv e)) v"
    using evolves_events [OF ev] by blast
  moreover obtain sent where sent: "w_trace w' = sent @ w_trace w"
      "length sent \<le> of_bool (unread \<and> \<not> unread_gate u room (w_db w))"
      "r = Ok () \<and> (unread \<longrightarrow> sent \<noteq> []) \<longrightarrow> unread_gate u room (w_db w') = unread"
    using sync_marked_unread_run [OF assms] by blast
  ultimately have "list_all unseen_request sent" by (auto simp: list_all_iff)
  then show ?thesis using sent gate same_flag_repeated [OF assms(1)] by blast
qed

text \<open>A room with mail, whose unread flag is reported for the first time.\<close>

definition flagged_world :: world where
  "flagged_world = sample_world\<lparr>w_clients := [(''@a:x.org'', sample_client)],
     w_db := sample_db\<lparr>t_messages := [(''M1'', ''$m'')],
       t_threads := [\<lparr>tr_thread = ''T1'', tr_root = ''$m'', tr_room = ''!r:x.org'', tr_latest = Some ''$m''\<rparr>]\<rparr>\<rparr>"

definition seeing_env :: env where
  "seeing_env = sample_env\<lparr>e_jmap := quiet_jmap\<lparr>e_set := \<lambda>_. None\<rparr>\<rparr>"

lemma flagged_run:
  "fst (sync_marked_unread ''@a:x.org'' ''!r:x.org'' True seeing_env flagged_world) = Ok ()"
  "w_trace (snd (sync_marked_unread ''@a:x.org'' ''!r:x.org'' True seeing_env flagged_world))
     = [EvJmap sample_client (SetSeen ''M1'' False)]"
  by code_simp+

theorem unread_flag_mirrored_once_witness:
  "unread_gate ''@a:x.org'' ''!r:x.org'' (w_db (snd (sync_marked_unread ''@a:x.org'' ''!r:x.org'' True seeing_env flagged_world))) \<and>
   w_trace (((\<lambda>v. snd (sync_marked_unread ''@a:x.org'' ''!r:x.org'' True seeing_env v)) ^^ 3)
     (snd (sync_marked_unread ''@a:x.org'' ''!r:x.org'' True seeing_env flagged_world)))
     = [EvJmap sample_client (SetSeen ''M1'' False)]"
proof -
  let ?w' = "snd (sync_marked_unread ''@a:x.org'' ''!r:x.org'' True seeing_env flagged_world)"
  have "e_fault (e_net seeing_env) = (\<lambda>_. None)" by (simp add: seeing_env_def sample_defs)
  moreover have "sync_marked_unread ''@a:x.org'' ''!r:x.org'' True seeing_env flagged_world = (Ok (), ?w')"
    using flagged_run(1) by (simp add: prod_eq_iff)
  ultimately obtain sent where sent: "w_trace ?w' = sent @ w_trace flagged_world"
    "sent \<noteq> [] \<longrightarrow> unread_gate ''@a:x.org'' ''!r:x.org'' (w_db ?w')"
    "unread_gate ''@a:x.org'' ''!r:x.org'' (w_db ?w') \<longrightarrow>
      w_trace (((\<lambda>v. snd (sync_marked_unread ''@a:x.org'' ''!r:x.org'' True seeing_env v)) ^^ 3) ?w') = w_trace ?w'"
    using unread_flag_mirrored_once [of seeing_env "''@a:x.org''" "''!r:x.org''" True flagged_world "Ok ()" ?w' 3] by auto
  moreover have "w_trace flagged_world = []" by (simp add: flagged_world_def sample_world_def)
  ultimately have "sent \<noteq> []" using flagged_run(2) by (metis append_Nil2 list.distinct(1))
  then show ?thesis using sent flagged_run(2) by (simp only: simp_thms)
qed

section \<open>Only the bot's invitations are accepted\<close>

definition join_request :: "ev \<Rightarrow> (room_id \<times> string) option" where
  "join_request e = (case e of EvMx (PuppetJoin room token) \<Rightarrow> Some (room, token) | _ \<Rightarrow> None)"

text \<open>The answer has an invitation of the user to the room, sent by the bot.\<close>

definition bot_invitation :: "mxid \<Rightarrow> mxid \<Rightarrow> json \<Rightarrow> room_id \<Rightarrow> bool" where
  "bot_invitation user bot_user sync_body room \<longleftrightarrow> (\<exists>invites data evs ev.
     as_object (jat (jat sync_body ''rooms'') ''invite'') = Some invites \<and> (room, data) \<in> set invites \<and>
     as_array (jat (jat data ''invite_state'') ''events'') = Some evs \<and> ev \<in> set evs \<and>
     jat ev ''type'' = JStr ''m.room.member'' \<and> jat ev ''state_key'' = JStr user \<and>
     jat (jat ev ''content'') ''membership'' = JStr ''invite'' \<and> jat ev ''sender'' = JStr bot_user)"

definition allowed_join :: "mxid \<Rightarrow> string \<Rightarrow> mxid \<Rightarrow> json \<Rightarrow> ev \<Rightarrow> bool" where
  "allowed_join user token bot_user sync_body e \<longleftrightarrow> (case join_request e of
     None \<Rightarrow> True
   | Some (room, t) \<Rightarrow> t = token \<and> bot_invitation user bot_user sync_body room)"

lemma bot_invites_invited:
  assumes "room \<in> set (bot_invites user bot_user v)"
  shows "bot_invitation user bot_user v room"
proof -
  obtain invites data where i: "as_object (jat (jat v ''rooms'') ''invite'') = Some invites" "(room, data) \<in> set invites"
    "invited_by data user bot_user"
    using assms by (cases "as_object (jat (jat v ''rooms'') ''invite'')") (auto simp: bot_invites_def)
  obtain evs ev where "as_array (jat (jat data ''invite_state'') ''events'') = Some evs" "ev \<in> set evs"
    "is_invite_event user bot_user ev"
    using i(3) by (auto simp: invited_by_def list_ex_iff split: option.splits)
  then show ?thesis using i(1,2) unfolding bot_invitation_def is_invite_event_def by blast
qed

text \<open>C34: in a turn of the puppet's sync loop every join it makes is for a room of that answer
  whose invitation names the user and was sent by the bridge's bot, and uses the user's own
  token.\<close>

theorem puppet_joins_bot_invites_only:
  "\<exists>sent. w_trace (snd (accept_sync user token v E w)) = sent @ w_trace w \<and>
     list_all (allowed_join user token (bot_mxid (c_domain (e_cfg E))) v) sent"
proof -
  define b where "b = bot_mxid (c_domain (e_cfg E))"
  define K :: "label \<Rightarrow> bool" where
    "K = (\<lambda>l. case l of LEv e \<Rightarrow> allowed_join user token b v e | LDb _ \<Rightarrow> True | _ \<Rightarrow> False)"
  have reflect: "within (evolves K) (handle_marked_unread user v)"
  proof -
    have "K l" if "unread_label user room unread l" for l room unread
      using that by (auto simp: K_def unread_label_def allowed_join_def join_request_def
          split: label.splits ev.splits mx_req.splits)
    then have "within (evolves K) (sync_marked_unread user room unread)" for room unread
      using sync_marked_unread_evolves [of user room unread] unfolding within_def
      by (blast intro: evolves_mono)
    then show ?thesis unfolding handle_marked_unread_def reflect_room_def
      by (intro frame_rules)
  qed
  have "K (LEv (EvMx (PuppetJoin room token)))" if "room \<in> set (bot_invites user b v)" for room
    using bot_invites_invited [OF that] by (auto simp: K_def allowed_join_def join_request_def)
  then have joins: "within (evolves K) (for_each (bot_invites user b v) (join_as_user token))"
    unfolding join_as_user_def by (intro frame_rules)
  have "within (evolves K) (andthen (handle_marked_unread user v)
      (andthen (for_each (bot_invites user b v) (join_as_user token)) (ret (as_str (jat v ''next_batch'')))))"
    by (rule ev.andthen [OF reflect ev.andthen [OF joins ev.pure(1)]])
  then have ev: "evolves K w (snd (accept_sync user token v E w))"
    by (simp add: within_def accept_sync_def bot_user_id_def bind_def asks_def b_def)
  from evolves_events [OF ev] show ?thesis by (simp add: K_def b_def)
qed

end
