(* ===== verification/Send_State.thy ===== *)
theory Send_State
  imports Matrix_Client
begin

text \<open>
  The reactions that show an outgoing message's state, \<^verbatim>\<open>src/src/services/send_state.rs\<close>:
  held, submitted, failed. All best effort.
\<close>

definition held_mark :: string where
  "held_mark = utf8_encode 0x23F3"

definition submitted_mark :: string where
  "submitted_mark = utf8_encode 0x2705"

definition failed_mark :: string where
  "failed_mark = utf8_encode 0x274C"

definition held_key :: "event_id \<Rightarrow> string" where
  "held_key event = ''send_state:'' @ event"

definition mark_held :: "mxid \<Rightarrow> room_id \<Rightarrow> event_id \<Rightarrow> unit act" where
  "mark_held user room event =
     bind (attempt (send_reaction room event held_mark)) (\<lambda>r. case r of
       Inr reaction \<Rightarrow> ignore (save_jmap_state user (held_key event) reaction)
     | Inl _ \<Rightarrow> ret ())"

definition take_held :: "mxid \<Rightarrow> room_id \<Rightarrow> event_id \<Rightarrow> bool act" where
  "take_held user room event =
     bind (attempt (get_jmap_state user (held_key event))) (\<lambda>r. case r of
       Inr (Some prior) \<Rightarrow>
         andthen (ignore (redact_event room prior ''send resolved''))
         (andthen (ignore (delete_jmap_state user (held_key event))) (ret True))
     | _ \<Rightarrow> ret False)"

definition mark_submitted :: "mxid \<Rightarrow> room_id \<Rightarrow> event_id \<Rightarrow> unit act" where
  "mark_submitted user room event =
     bind (take_held user room event) (\<lambda>held.
     if held then ignore (send_reaction room event submitted_mark) else ret ())"

definition mark_failed :: "mxid \<Rightarrow> room_id \<Rightarrow> event_id \<Rightarrow> unit act" where
  "mark_failed user room event =
     bind (take_held user room event) (\<lambda>_. ignore (send_reaction room event failed_mark))"

text \<open>The markers touch the user's key-value rows only under the message's own key.\<close>

lemma send_state_evolves [frame_rules]:
  "allows_ghost K \<Longrightarrow> (\<And>v. K (LDb (PutKv u (held_key e) v))) \<Longrightarrow> within (evolves K) (mark_held u r e)"
  "allows_ghost K \<Longrightarrow> K (LDb (DelKv u (held_key e))) \<Longrightarrow> within (evolves K) (mark_submitted u r e)"
  "allows_ghost K \<Longrightarrow> K (LDb (DelKv u (held_key e))) \<Longrightarrow> within (evolves K) (mark_failed u r e)"
  unfolding mark_held_def mark_submitted_def mark_failed_def take_held_def
  by (intro frame_rules; assumption)+

lemma send_state_calm [calm_rules]:
  "calm (mark_held u r e)" "calm (take_held u r e)" "calm (mark_submitted u r e)" "calm (mark_failed u r e)"
  unfolding mark_held_def take_held_def mark_submitted_def mark_failed_def by (intro calm_rules)+

end
