(* ===== verification/Retry.thy ===== *)
theory Retry
  imports Sessions Send_State
begin

text \<open>
  The outbound worker, \<^verbatim>\<open>src/src/retry.rs\<close>: it takes the due messages of the queue, submits
  each one, and ages or gives up on what it could not submit. One round of its endless loop is
  \<open>retry_round\<close>; \<open>retry_rounds n\<close> is \<open>n\<close> of them.
\<close>

section \<open>The encoded thread context\<close>

definition thread_queue_separator :: char where
  "thread_queue_separator = CHR ''|''"

definition parse_thread_root :: "string option \<Rightarrow> (thread_id \<times> email_id \<times> event_id) option" where
  "parse_thread_root root = (case root of
     None \<Rightarrow> None
   | Some raw \<Rightarrow> (case split_char thread_queue_separator raw of
       [thread, parent, root_event] \<Rightarrow> Some (thread, parent, root_event)
     | _ \<Rightarrow> None))"

section \<open>Submitting one message\<close>

definition reply_subject :: "string \<Rightarrow> string" where
  "reply_subject subject = (if starts_with subject ''Re:'' then subject else ''Re: '' @ subject)"

definition submit_reply ::
    "jclient \<Rightarrow> bool \<Rightarrow> addr \<Rightarrow> string \<Rightarrow> thread_id \<times> email_id \<times> event_id \<Rightarrow> attachment_info list
     \<Rightarrow> unit act" where
  "submit_reply c quote email body ctx attachments = (case ctx of (thread, parent, root) \<Rightarrow>
     bind (attempt (get_thread_subject root)) (\<lambda>r.
     let subject = (case r of Inr (Some s) \<Rightarrow> s | _ \<Rightarrow> generic_subject) in
     bind (reply_to_email c quote email (reply_subject subject) body thread attachments) (\<lambda>_. ret ())))"

definition submit_fresh :: "jclient \<Rightarrow> addr \<Rightarrow> outbound_message \<Rightarrow> attachment_info list \<Rightarrow> unit act" where
  "submit_fresh c email msg attachments =
     bind (room_name (om_room msg)) (\<lambda>room.
     let subject = fresh_email_subject room in
     bind (send_email c email subject (om_body msg) attachments) (\<lambda>email_id.
     bind (attempt (try_resolve_thread c email_id)) (\<lambda>r. case r of
       Inr (Some thread) \<Rightarrow> ignore (save_thread_mapping_atomic thread (om_event msg) (om_room msg) subject)
     | _ \<Rightarrow> ret ())))"

definition queued_attachments :: "outbound_message \<Rightarrow> attachment_info list act" where
  "queued_attachments msg = asks (\<lambda>E. case Option.bind (om_atts msg) (l_atts_parse (e_lib E)) of
     Some l \<Rightarrow> l | None \<Rightarrow> [])"

definition submit_to :: "jclient \<Rightarrow> outbound_message \<Rightarrow> addr \<Rightarrow> unit act" where
  "submit_to c msg email =
     bind (asks (c_quote_replies \<circ> e_cfg)) (\<lambda>quote.
     bind (queued_attachments msg) (\<lambda>attachments.
     case parse_thread_root (om_thread msg) of
       Some ctx \<Rightarrow> submit_reply c quote email (om_body msg) ctx attachments
     | None \<Rightarrow> submit_fresh c email msg attachments))"

definition submit_mapped :: "jclient \<Rightarrow> outbound_message \<Rightarrow> addr \<Rightarrow> bool act" where
  "submit_mapped c msg email =
     bind (attempt (submit_to c msg email)) (\<lambda>sent. case sent of
       Inl _ \<Rightarrow> ret False
     | Inr _ \<Rightarrow>
         andthen (ignore (remove_from_outbound_queue (om_id msg)))
         (andthen (mark_submitted (om_user msg) (om_room msg) (om_event msg))
         (ret True)))"

definition submit_one :: "outbound_message \<Rightarrow> bool act" where
  "submit_one msg =
     bind (get_client (om_user msg)) (\<lambda>client. case client of
       None \<Rightarrow> ret False
     | Some c \<Rightarrow>
         bind (attempt (get_ghost_email_by_room (om_room msg))) (\<lambda>ghost. case ghost of
           Inl _ \<Rightarrow> ret False
         | Inr None \<Rightarrow> andthen (ignore (remove_from_outbound_queue (om_id msg))) (ret True)
         | Inr (Some email) \<Rightarrow> submit_mapped c msg email))"

section \<open>Ageing and giving up\<close>

definition failure_msg :: string where
  "failure_msg = utf8_encode 0x274C @ '' Permanent delivery failure: the bridge could not deliver your message to the recipient after 10 attempts.''"

definition handle_unresolved :: "outbound_message \<Rightarrow> unit act" where
  "handle_unresolved msg =
     (if 9 \<le> om_retry msg
      then andthen (ignore (send_message (om_room msg) failure_msg))
        (andthen (ignore (remove_from_outbound_queue (om_id msg)))
        (mark_failed (om_user msg) (om_room msg) (om_event msg)))
      else ignore (update_retry_count (om_id msg)))"

definition handle_message :: "outbound_message \<Rightarrow> unit act" where
  "handle_message msg = bind (submit_one msg) (\<lambda>resolved.
     if resolved then ret () else handle_unresolved msg)"

definition retry_round :: "unit act" where
  "retry_round = andthen (sleep 2) (bind (attempt get_pending_outbound) (\<lambda>r. case r of
     Inr messages \<Rightarrow> for_each messages handle_message
   | Inl _ \<Rightarrow> ret ()))"

primrec retry_rounds :: "nat \<Rightarrow> unit act" where
  "retry_rounds 0 = ret ()"
| "retry_rounds (Suc n) = andthen retry_round (retry_rounds n)"

section \<open>Frames\<close>

text \<open>
  What submitting may do: ask the homeserver, read and submit over JMAP, dequeue its own row,
  map the thread it opened, and forget its own marker. It ages no row.
\<close>

definition allows_submission :: "(label \<Rightarrow> bool) \<Rightarrow> outbound_message \<Rightarrow> bool" where
  "allows_submission K m \<longleftrightarrow> (\<forall>r. allows_mx K r) \<and> allows_jread K \<and> (\<forall>c d. K (LEv (EvJmap c (Submit d))))
     \<and> K (LDb (Dequeue (om_id m))) \<and> K (LDb (DelKv (om_user m) (held_key (om_event m))))
     \<and> (\<forall>t s. K (LDb (PutThreadAndSubject t (om_event m) (om_room m) s)))"

lemma submit_one_evolves [frame_rules]:
  "allows_submission K m \<Longrightarrow> within (evolves K) (submit_one m)"
  unfolding submit_one_def submit_mapped_def submit_to_def submit_reply_def submit_fresh_def queued_attachments_def Let_def
  by (intro frame_rules; simp add: allows_submission_def allows_submit_def allows_ghost_def)

lemma handle_unresolved_evolves [frame_rules]:
  "allows_submission K m \<Longrightarrow> K (LDb (AgeRow (om_id m))) \<Longrightarrow> within (evolves K) (handle_unresolved m)"
  unfolding handle_unresolved_def
  by (intro frame_rules; simp add: allows_submission_def allows_ghost_def)

lemma handle_message_evolves [frame_rules]:
  "allows_submission K m \<Longrightarrow> K (LDb (AgeRow (om_id m))) \<Longrightarrow> within (evolves K) (handle_message m)"
  unfolding handle_message_def by (intro frame_rules)

end
