(* ===== verification/Retry_Queue.thy ===== *)
theory Retry_Queue
  imports Retry Samples
begin

text \<open>
  What the worker guarantees: the queue's invariant (\<open>queue_ok\<close>, kept by every step that ages
  no row and by every round of the worker), that the worker always comes back, and that a message
  leaves the queue only for a reason its sender can see.
\<close>

section \<open>The queue's invariant\<close>

text \<open>
  \<open>backoff_sum n\<close> is how many minutes of backoff lie between the first failure and the one
  that made the count \<open>n\<close>. A queue is well kept when no count exceeds 9 and every count was
  reached with its backoffs waited for.
\<close>

definition backoff_sum :: "nat \<Rightarrow> int" where
  "backoff_sum n = sum_list (map backoff_minutes [1..<n])"

definition row_ok :: "outbound_row \<Rightarrow> bool" where
  "row_ok r \<longleftrightarrow> om_retry r \<le> 9 \<and>
     (0 < om_retry r \<longrightarrow> release_at r + 60 * backoff_sum (om_retry r) \<le> last_retry_at r)"

definition queue_ok :: "db \<Rightarrow> bool" where
  "queue_ok d \<longleftrightarrow> db_ok d \<and> (\<forall>r \<in> set (t_outbound d). row_ok r)"

definition ages :: "label \<Rightarrow> bool" where
  "ages l \<longleftrightarrow> (\<exists>i. l = LDb (AgeRow i))"

lemma exec_queue_rows:
  assumes "exec t s d = Inr (n, d')" and "\<forall>i. s \<noteq> AgeRow i" and "r \<in> set (t_outbound d')"
  shows "(\<exists>r' \<in> set (t_outbound d). om_id r = om_id r' \<and> om_retry r = om_retry r' \<and>
      release_at r = release_at r' \<and> last_retry_at r = last_retry_at r' \<and> om_event r = om_event r') \<or>
    om_retry r = 0 \<and> om_id r = t_next_id d \<and>
      (\<exists>m ro b h th a dl. s = Enqueue m ro (om_event r) b h th a dl)"
  using assms
proof (cases s)
  case (EditByEvent e b)
  then obtain r' where r': "r' \<in> set (t_outbound d)"
    and r: "r = (if om_event r' = e then om_body_update (\<lambda>_. b) r' else r')"
    using assms by (auto simp: set_upd_rows)
  show ?thesis by (intro disjI1 bexI [OF _ r']) (simp add: r)
qed (auto simp: set_upd_rows split: if_splits option.splits)

lemma world_step_queue_rows:
  assumes "world_step l w w'" and "\<not> ages l" and "r \<in> set (t_outbound (w_db w'))"
  shows "(\<exists>r' \<in> set (t_outbound (w_db w)). om_id r = om_id r' \<and> om_retry r = om_retry r' \<and>
      release_at r = release_at r' \<and> last_retry_at r = last_retry_at r' \<and> om_event r = om_event r') \<or>
    om_retry r = 0 \<and> om_id r = t_next_id (w_db w) \<and>
      (\<exists>m ro b h th a dl. l = LDb (Enqueue m ro (om_event r) b h th a dl))"
  using assms
proof (cases rule: world_step.cases)
  case (step_db s n d)
  then show ?thesis using assms exec_queue_rows [of "w_clock w" s "w_db w" n d r]
    by (auto simp: ages_def)
next
  case (step_mem m)
  then show ?thesis using assms by (cases m) auto
qed (use assms in \<open>auto simp: emit_def\<close>)

lemma world_step_queue_ok:
  assumes "world_step l w w'" and "\<not> ages l" and "queue_ok (w_db w)"
  shows "queue_ok (w_db w')"
proof -
  have "row_ok r" if "r \<in> set (t_outbound (w_db w'))" for r
    using world_step_queue_rows [OF assms(1,2) that] assms(3)
    by (auto simp: queue_ok_def row_ok_def)
  then show ?thesis using assms world_step_db_ok by (auto simp: queue_ok_def)
qed

text \<open>Whatever ages no row keeps the queue; this covers every handler but the worker's.\<close>

lemma evolves_queue_ok:
  "evolves (\<lambda>l. \<not> ages l) w w' \<Longrightarrow> queue_ok (w_db w) \<Longrightarrow> queue_ok (w_db w')"
  by (rule evolves_invariant [where I = "\<lambda>w. queue_ok (w_db w)"])
    (auto intro: world_step_queue_ok simp: ages_def)

section \<open>The worker keeps the queue\<close>

text \<open>
  \<open>due t r\<close>: at time \<open>t\<close> the hold has passed and so has the backoff of the last attempt.
  \<open>ready ms w\<close>: the messages \<open>ms\<close>, read earlier, still agree with their rows on the count,
  and every such row is due.
\<close>

definition due :: "int \<Rightarrow> outbound_row \<Rightarrow> bool" where
  "due t r \<longleftrightarrow> release_at r \<le> t \<and>
     (om_retry r = 0 \<or> last_retry_at r + 60 * backoff_minutes (om_retry r) < t)"

definition ready :: "outbound_message list \<Rightarrow> world \<Rightarrow> bool" where
  "ready ms w \<longleftrightarrow> queue_ok (w_db w) \<and> (\<forall>m \<in> set ms. om_id m < t_next_id (w_db w) \<and>
     (\<forall>r \<in> set (t_outbound (w_db w)). om_id r = om_id m \<longrightarrow> om_retry r = om_retry m \<and> due (w_clock w) r))"

lemma due_later: "due t r \<Longrightarrow> t \<le> t' \<Longrightarrow> due t' r"
  by (auto simp: due_def)

lemma readyD:
  "ready ms w \<Longrightarrow> m \<in> set ms \<Longrightarrow> r \<in> set (t_outbound (w_db w)) \<Longrightarrow> om_id r = om_id m \<Longrightarrow>
   om_retry r = om_retry m \<and> due (w_clock w) r"
  by (auto simp: ready_def)

lemma ready_subset: "ready ms w \<Longrightarrow> set ns \<subseteq> set ms \<Longrightarrow> ready ns w"
  by (auto simp: ready_def)

lemma eligible_due: "eligible t r \<Longrightarrow> due t r"
  by (auto simp: eligible_def due_def)

lemma backoff_sum_Suc: "0 < n \<Longrightarrow> backoff_sum (Suc n) = backoff_sum n + backoff_minutes n"
  by (simp add: backoff_sum_def upt_Suc)

lemma aged_row_ok:
  assumes "row_ok r" and "due t r" and "om_retry r < 9"
  shows "row_ok (r\<lparr>om_retry := om_retry r + 1, last_retry_at := t\<rparr>)"
proof (cases "om_retry r = 0")
  case True
  then show ?thesis using assms by (simp add: row_ok_def due_def backoff_sum_def)
next
  case False
  then show ?thesis using assms by (simp add: row_ok_def due_def backoff_sum_Suc)
qed

lemma exec_next_id: "exec t s d = Inr (n, d') \<Longrightarrow> t_next_id d \<le> t_next_id d'"
  by (cases s) (auto split: if_splits option.splits)

lemma world_step_next_id: "world_step l w w' \<Longrightarrow> t_next_id (w_db w) \<le> t_next_id (w_db w')"
proof (induction rule: world_step.induct)
  case (step_mem m w)
  then show ?case by (cases m) auto
qed (auto simp: emit_def intro: exec_next_id)

text \<open>A step that ages no row keeps the messages ready; ageing one row keeps the others ready.\<close>

lemma world_step_ready:
  assumes st: "world_step l w w'" and na: "\<not> ages l" and rd: "ready ms w"
  shows "ready ms w'"
proof -
  have q: "queue_ok (w_db w')"
    using world_step_queue_ok [OF st na] rd by (simp add: ready_def)
  have "om_retry r = om_retry m \<and> due (w_clock w') r"
    if m: "m \<in> set ms" and r: "r \<in> set (t_outbound (w_db w'))" "om_id r = om_id m" for m r
  proof -
    have "om_id m < t_next_id (w_db w)" using rd m by (simp add: ready_def)
    with world_step_queue_rows [OF st na r(1)] r(2) obtain r' where
      r': "r' \<in> set (t_outbound (w_db w))" "om_id r' = om_id m" "om_retry r = om_retry r'"
        "release_at r = release_at r'" "last_retry_at r = last_retry_at r'" by auto
    have d: "om_retry r' = om_retry m" "due (w_clock w) r'"
      using readyD [OF rd m r'(1,2)] by auto
    have "due (w_clock w') r'" using due_later [OF d(2) world_step_clock [OF st]] .
    then show ?thesis using r' d(1) by (simp add: due_def)
  qed
  moreover have "om_id m < t_next_id (w_db w')" if "m \<in> set ms" for m
    using rd that world_step_next_id [OF st] by (auto simp: ready_def intro: less_le_trans)
  ultimately show ?thesis using q by (simp add: ready_def)
qed

lemma evolves_ready: "evolves (\<lambda>l. \<not> ages l) w w' \<Longrightarrow> ready ms w \<Longrightarrow> ready ms w'"
  by (rule evolves_invariant [where I = "ready ms"]) (auto intro: world_step_ready simp: ages_def)

lemma tick_ready: "ready ms w \<Longrightarrow> ready ms (tick E w)"
  using world_step_ready [OF tick_step] by (auto simp: ages_def)

lemma aged_rows:
  "r \<in> set (t_outbound d') \<Longrightarrow> exec t (AgeRow i) d = Inr (n, d') \<Longrightarrow>
   \<exists>r0 \<in> set (t_outbound d). r = (if om_id r0 = i
      then r0\<lparr>om_retry := om_retry r0 + 1, last_retry_at := t\<rparr> else r0)"
  by (auto simp: set_upd_rows)

lemma age_ready:
  assumes rd: "ready (m # ms) w" and lt: "om_retry m < 9" and nd: "om_id m \<notin> om_id ` set ms"
    and ex: "exec (w_clock w) (AgeRow (om_id m)) (w_db w) = Inr (n, d)"
  shows "ready ms (w\<lparr>w_db := d\<rparr>)"
proof -
  have "db_ok (w_db w)" using rd by (simp add: ready_def queue_ok_def)
  then have ok: "db_ok d" by (rule exec_db_ok [OF ex])
  have rows: "row_ok r" if in_d: "r \<in> set (t_outbound d)" for r
  proof -
    obtain r0 where r0: "r0 \<in> set (t_outbound (w_db w))" "r = (if om_id r0 = om_id m
        then r0\<lparr>om_retry := om_retry r0 + 1, last_retry_at := w_clock w\<rparr> else r0)"
      using aged_rows [OF in_d ex] by blast
    have ro: "row_ok r0" using rd r0(1) by (simp add: ready_def queue_ok_def)
    show ?thesis
    proof (cases "om_id r0 = om_id m")
      case True
      then have "due (w_clock w) r0" "om_retry r0 < 9"
        using readyD [OF rd _ r0(1), of m] lt by auto
      then show ?thesis using aged_row_ok ro True r0(2) by simp
    qed (use r0 ro in simp)
  qed
  have "om_retry r = om_retry k \<and> due (w_clock w) r"
    if k: "k \<in> set ms" and r: "r \<in> set (t_outbound d)" "om_id r = om_id k" for k r
  proof -
    obtain r0 where r0: "r0 \<in> set (t_outbound (w_db w))" "r = (if om_id r0 = om_id m
        then r0\<lparr>om_retry := om_retry r0 + 1, last_retry_at := w_clock w\<rparr> else r0)"
      using aged_rows [OF r(1) ex] by blast
    have "om_id r0 \<noteq> om_id m" using nd k r(2) r0(2) by (auto split: if_splits)
    then show ?thesis using r0 r readyD [OF rd _ r0(1), of k] k by auto
  qed
  moreover have "t_next_id d = t_next_id (w_db w)" using ex by auto
  ultimately show ?thesis using ok rows rd by (auto simp: ready_def queue_ok_def)
qed

lemma no_age_frame: "allows_submission (\<lambda>l. \<not> ages l) m"
  by (simp add: allows_submission_def ages_def allows_jread_def)

lemma update_retry_count_ready:
  assumes rd: "ready (m # ms) w" and "om_retry m < 9" and "om_id m \<notin> om_id ` set ms"
  shows "ready ms (snd (ignore (update_retry_count (om_id m)) E w))"
proof -
  have t: "ready (m # ms) (tick E w)" using tick_ready rd .
  then have "ready ms (tick E w)" by (auto intro: ready_subset)
  moreover have "ready ms ((tick E w)\<lparr>w_db := d\<rparr>)"
    if "exec (w_clock (tick E w)) (AgeRow (om_id m)) (w_db w) = Inr (n, d)" for n d
    using age_ready [OF t assms(2,3), of n d] that by simp
  ultimately show ?thesis
    by (auto simp: ignore_def attempt_def bind_def update_retry_count_def exec_unit_def run_def
        Let_def ret_def simp del: exec.simps split: option.split sum.split)
qed

lemma handle_unresolved_ready:
  assumes "ready (m # ms) w" and "om_id m \<notin> om_id ` set ms"
  shows "ready ms (snd (handle_unresolved m E w))"
proof (cases "9 \<le> om_retry m")
  case True
  have "within (evolves (\<lambda>l. \<not> ages l)) (handle_unresolved m)"
    using no_age_frame [of m] True unfolding handle_unresolved_def
    by (simp, intro frame_rules; simp add: allows_submission_def allows_ghost_def)
  then have "ready (m # ms) (snd (handle_unresolved m E w))"
    using assms(1) evolves_ready unfolding within_def by blast
  then show ?thesis by (rule ready_subset) auto
next
  case False
  then show ?thesis using update_retry_count_ready [OF assms(1) _ assms(2)]
    by (simp add: handle_unresolved_def)
qed

lemma handle_message_ready:
  assumes "ready (m # ms) w" and "om_id m \<notin> om_id ` set ms"
  shows "ready ms (snd (handle_message m E w))"
proof -
  have s: "ready (m # ms) (snd (submit_one m E w))"
    using submit_one_evolves [OF no_age_frame] evolves_ready assms(1) unfolding within_def by blast
  then have "ready ms (snd (submit_one m E w))" by (rule ready_subset) auto
  then show ?thesis
    using handle_unresolved_ready [OF s assms(2)]
    by (auto simp: handle_message_def bind_def ret_def split: prod.split outcome.split)
qed

lemma for_each_messages_ready:
  "ready ms w \<Longrightarrow> distinct (map om_id ms) \<Longrightarrow>
   queue_ok (w_db (snd (for_each ms handle_message E w)))"
proof (induction ms arbitrary: w)
  case Nil
  then show ?case by (simp add: ret_def ready_def)
next
  case (Cons m ms)
  have r: "ready ms (snd (handle_message m E w))"
    using handle_message_ready [OF Cons.prems(1)] Cons.prems(2) by simp
  then have "queue_ok (w_db (snd (handle_message m E w)))" by (simp add: ready_def)
  then show ?case using Cons.IH [OF r] Cons.prems(2)
    by (auto simp: andthen_def bind_def split: prod.split outcome.split)
qed

text \<open>The messages a round reads are ready, and no two are the same row.\<close>

lemma pending_ready:
  assumes "queue_ok (w_db w)" and g: "get_pending_outbound E w = (Ok ms, w')"
  shows "ready ms w' \<and> distinct (map om_id ms)"
proof -
  obtain rank where w': "w_db w' = w_db w" and ms: "ms = map outbound_message.truncate (pick rank (w_clock w') (w_db w))"
    using pending_Ok [OF g] by auto
  let ?rows = "pick rank (w_clock w') (w_db w)"
  have u: "unique_key om_id (t_outbound (w_db w))"
    using assms(1) by (simp add: queue_ok_def db_ok_def keys_ok_def)
  have "om_id m < t_next_id (w_db w') \<and> (\<forall>r \<in> set (t_outbound (w_db w')). om_id r = om_id m \<longrightarrow>
      om_retry r = om_retry m \<and> due (w_clock w') r)" if "m \<in> set ms" for m
  proof -
    obtain r0 where "r0 \<in> set ?rows" and m: "m = outbound_message.truncate r0"
      using \<open>m \<in> set ms\<close> ms by auto
    then have r0: "r0 \<in> set (t_outbound (w_db w))" "eligible (w_clock w') r0"
      by (auto dest: picked)
    have same: "r = r0" if "r \<in> set (t_outbound (w_db w))" "om_id r = om_id r0" for r
      using u that r0(1) by (auto simp: unique_key_def distinct_map dest: inj_onD)
    have "om_id r0 < t_next_id (w_db w)"
      using assms(1) r0(1) by (simp add: queue_ok_def db_ok_def ids_ok_def)
    then show ?thesis using same eligible_due [OF r0(2)] w' m
      by (auto simp: outbound_message.defs)
  qed
  then have "ready ms w'" using assms(1) w' by (simp add: ready_def)
  moreover have "map om_id ms = map om_id ?rows" using ms by (simp add: outbound_message.defs)
  moreover have "distinct (map om_id ?rows)"
    using u by (rule pick_distinct)
  ultimately show ?thesis by simp
qed

lemma retry_round_queue_ok:
  assumes "queue_ok (w_db w)"
  shows "queue_ok (w_db (snd (retry_round E w)))"
proof -
  obtain w1 where s: "sleep 2 E w = (Ok (), w1)" by (simp add: sleep_def)
  then have q: "queue_ok (w_db w1)" using assms by (auto simp: sleep_def)
  have w2: "queue_ok (w_db (snd (get_pending_outbound E w1)))"
    using store_query_evolves(6) [of "\<lambda>l. \<not> ages l"] evolves_queue_ok q
    unfolding within_def by blast
  show ?thesis
  proof (cases "get_pending_outbound E w1")
    case (Pair r w')
    show ?thesis
    proof (cases r)
      case (Ok ms)
      with Pair have "ready ms w' \<and> distinct (map om_id ms)" using pending_ready q by blast
      then show ?thesis using for_each_messages_ready Ok Pair s
        by (simp add: retry_round_def andthen_def step_simps bind_def attempt_def)
    qed (use w2 Pair s in \<open>simp_all add: retry_round_def andthen_def step_simps bind_def attempt_def ret_def\<close>)
  qed
qed

lemma retry_rounds_queue_ok: "queue_ok (w_db w) \<Longrightarrow> queue_ok (w_db (snd (retry_rounds n E w)))"
proof (induction n arbitrary: w)
  case (Suc n)
  have r: "queue_ok (w_db (snd (retry_round E w)))" by (rule retry_round_queue_ok [OF Suc.prems])
  show ?case using Suc.IH [OF r] r
    by (auto simp: andthen_def bind_def split: prod.split outcome.split)
qed (simp add: ret_def)

section \<open>No message is dropped silently\<close>

text \<open>
  \<open>accepted to b E w w'\<close>: between \<open>w\<close> and \<open>w'\<close> a mail to \<open>to\<close> whose body starts with
  \<open>b\<close> was submitted, and the server created both it and its submission.
\<close>

definition accepted :: "addr \<Rightarrow> string \<Rightarrow> env \<Rightarrow> world \<Rightarrow> world \<Rightarrow> bool" where
  "accepted to b E w w' \<longleftrightarrow> (\<exists>c d i u v t. w_trace w' = u @ t \<and> t = EvJmap c (Submit d) # v @ w_trace w
     \<and> dr_to d = to \<and> starts_with (dr_body d) b
     \<and> e_submit (e_jmap E) t = Inr (CCreated (Some i), CCreated ()))"

lemma accepted_widen:
  assumes "accepted to b E w1 w2" and "evolves K w w1" and "evolves L w2 w3"
  shows "accepted to b E w w3"
proof -
  obtain x where x: "w_trace w1 = x @ w_trace w" using evolves_trace [OF assms(2)] by blast
  obtain y where y: "w_trace w3 = y @ w_trace w2" using evolves_trace [OF assms(3)] by blast
  obtain c d i u v t where t: "w_trace w2 = u @ t" "t = EvJmap c (Submit d) # v @ w_trace w1"
     "dr_to d = to" "starts_with (dr_body d) b"
     "e_submit (e_jmap E) t = Inr (CCreated (Some i), CCreated ())"
    using assms(1) unfolding accepted_def by blast
  have "w_trace w3 = (y @ u) @ t \<and> t = EvJmap c (Submit d) # (v @ x) @ w_trace w"
    using t x y by simp
  then show ?thesis using t(3-5) unfolding accepted_def by blast
qed

lemma submit_accepted:
  assumes "submit c to su b irt refs atts E w = (Ok i, w')" and "starts_with b b0"
  shows "accepted to b0 E w w'"
proof -
  obtain d t where t: "w_trace w' = EvJmap c (Submit d) # t @ w_trace w" "carries to su b atts d"
    "e_submit (e_jmap E) (w_trace w') = Inr (CCreated (Some i), CCreated ())"
    using submit_Ok [OF assms(1)] by blast
  then have "w_trace w' = [] @ w_trace w' \<and> dr_to d = to \<and> starts_with (dr_body d) b0"
    using assms(2) by (simp add: carries_def)
  then show ?thesis using t unfolding accepted_def by blast
qed

lemma starts_with_append [simp]: "starts_with (b @ x) b" "starts_with b b"
  by (simp_all add: starts_with_def)

lemma allows_all:
  "allows_jread (\<lambda>_. True)" "allows_submit (\<lambda>_. True) c" "allows_submission (\<lambda>_. True) m"
  by (simp_all add: allows_jread_def allows_submit_def allows_submission_def)

lemma any_step: "m E w = (r, w') \<Longrightarrow> within (evolves (\<lambda>_. True)) m \<Longrightarrow> evolves (\<lambda>_. True) w w'"
  by (rule withinD)

lemma reply_accepted:
  assumes "submit_reply c q to b ctx atts E w = (Ok x, w')"
  shows "accepted to b E w w'"
proof -
  obtain th pa ro where ctx: "ctx = (th, pa, ro)" by (cases ctx)
  obtain r w1 i su where h1: "attempt (get_thread_subject ro) E w = (Ok r, w1)"
    and h2: "reply_to_email c q to su b th atts E w1 = (Ok i, w')"
    using assms by (auto simp: submit_reply_def ctx bind_eq_Ok Let_def ret_def)
  obtain irt refs w2 quoted w3 body where h3: "reply_headers c th E w1 = (Ok (irt, refs), w2)"
    and h4: "(if q then reply_quote c th else ret None) E w2 = (Ok quoted, w3)"
    and h5: "submit c to su (case quoted of Some q \<Rightarrow> b @ nl @ nl @ q | None \<Rightarrow> b) irt refs atts E w3 = (Ok i, w')"
    using h2 by (auto simp: reply_to_email_def bind_eq_Ok)
  have "evolves (\<lambda>_. True) w w1" using h1 by (rule any_step) (intro frame_rules)
  moreover have "evolves (\<lambda>_. True) w1 w2" using h3 by (rule any_step) (intro frame_rules allows_all)
  moreover have "evolves (\<lambda>_. True) w2 w3" using h4 by (rule any_step) (intro frame_rules allows_all)
  ultimately have "evolves (\<lambda>_. True) w w3" by (blast intro: evolves_trans)
  moreover have "accepted to b E w3 w'"
    by (rule submit_accepted [OF h5]) (simp split: option.split)
  ultimately show ?thesis using accepted_widen evolves_refl by blast
qed

lemma fresh_accepted:
  assumes "submit_fresh c to m atts E w = (Ok x, w')"
  shows "accepted to (om_body m) E w w'"
proof -
  obtain room w1 i w2 where h1: "room_name (om_room m) E w = (Ok room, w1)"
    and h2: "send_email c to (fresh_email_subject room) (om_body m) atts E w1 = (Ok i, w2)"
    and h3: "bind (attempt (try_resolve_thread c i)) (\<lambda>r. case r of
       Inr (Some thread) \<Rightarrow> ignore (save_thread_mapping_atomic thread (om_event m) (om_room m) (fresh_email_subject room))
     | _ \<Rightarrow> ret ()) E w2 = (Ok x, w')"
    using assms by (auto simp: submit_fresh_def bind_eq_Ok Let_def)
  have "evolves (\<lambda>_. True) w w1" using h1 by (rule any_step) (intro frame_rules; simp)
  moreover have "accepted to (om_body m) E w1 w2"
    using h2 submit_accepted by (simp add: send_email_def)
  moreover have "evolves (\<lambda>_. True) w2 w'"
    using h3 by (rule any_step) (intro frame_rules allows_all; simp)
  ultimately show ?thesis using accepted_widen by blast
qed

text \<open>The room of a message is unmapped at some point of the attempt.\<close>

definition was_unmapped :: "room_id \<Rightarrow> world \<Rightarrow> world \<Rightarrow> bool" where
  "was_unmapped room w w' \<longleftrightarrow> (\<exists>w1. evolves (\<lambda>_. True) w w1 \<and> evolves (\<lambda>_. True) w1 w'
     \<and> ghost_of room (w_db w1) = None)"

lemma submit_mapped_True:
  assumes "submit_mapped c m to E w = (Ok True, w')"
  shows "accepted to (om_body m) E w w'"
proof -
  obtain x w1 where h1: "submit_to c m to E w = (Ok x, w1)"
    and h2: "(andthen (ignore (remove_from_outbound_queue (om_id m)))
         (andthen (mark_submitted (om_user m) (om_room m) (om_event m)) (ret True))) E w1 = (Ok True, w')"
    using assms by (auto simp: submit_mapped_def bind_def attempt_def ret_def
        split: prod.splits outcome.splits)
  obtain q w2 atts w3 where h3: "queued_attachments m E w2 = (Ok atts, w3)" "w2 = w"
    and h4: "(case parse_thread_root (om_thread m) of
       Some ctx \<Rightarrow> submit_reply c q to (om_body m) ctx atts
     | None \<Rightarrow> submit_fresh c to m atts) E w3 = (Ok x, w1)"
    using h1 by (auto simp: submit_to_def bind_eq_Ok asks_def)
  have "w3 = w" using h3 by (simp add: queued_attachments_def asks_def)
  then have "accepted to (om_body m) E w w1"
    using h4 reply_accepted fresh_accepted by (auto split: option.splits)
  moreover have "evolves (\<lambda>_. True) w1 w'"
    using h2 by (rule any_step) (intro frame_rules; simp add: allows_ghost_def)
  ultimately show ?thesis using accepted_widen evolves_refl by blast
qed

lemma submit_one_True:
  assumes "submit_one m E w = (Ok True, w')"
  shows "was_unmapped (om_room m) w w' \<or> (\<exists>to. accepted to (om_body m) E w w')"
proof -
  obtain c where c: "client_of (om_user m) w = Some c"
    using assms by (auto simp: submit_one_def get_client_def bind_def gets_def ret_def split: option.splits)
  obtain g w2 where h2: "get_ghost_email_by_room (om_room m) E w = (Ok g, w2)"
    and h3: "(case g of None \<Rightarrow> andthen (ignore (remove_from_outbound_queue (om_id m))) (ret True)
       | Some email \<Rightarrow> submit_mapped c m email) E w2 = (Ok True, w')"
    using assms by (auto simp: submit_one_def c get_client_def bind_def attempt_def gets_def ret_def
        split: prod.splits outcome.splits)
  have e2: "evolves (\<lambda>_. True) w w2" using h2 by (rule any_step) (intro frame_rules)
  show ?thesis
  proof (cases g)
    case None
    have h3': "andthen (ignore (remove_from_outbound_queue (om_id m))) (ret True) E w2 = (Ok True, w')"
      using h3 None by simp
    have "evolves (\<lambda>_. True) w2 w'"
      using h3' by (rule any_step) (intro frame_rules; simp)
    moreover have "ghost_of (om_room m) (w_db w2) = None"
      using h2 None by (auto simp: get_ghost_email_by_room_def query_Ok)
    ultimately show ?thesis using e2 unfolding was_unmapped_def by blast
  next
    case (Some to)
    then show ?thesis
      using submit_mapped_True [of c m to E w2 w'] h3 accepted_widen [OF _ e2 evolves_refl [of "\<lambda>_. True"]]
      by (simp; blast)
  qed
qed

text \<open>A notice of the bot goes out when the room and the bot have well-formed ids.\<close>

definition notified :: "room_id \<Rightarrow> string \<Rightarrow> env \<Rightarrow> world \<Rightarrow> world \<Rightarrow> bool" where
  "notified room text E w w' \<longleftrightarrow> (l_room_ok (e_lib E) room \<and> l_user_ok (e_lib E) (bot_mxid (c_domain (e_cfg E))) \<longrightarrow>
     (\<exists>u t v. w_trace w' = u @ EvMx (AsGhost (GSend room t (OText text None None))
        (bot_mxid (c_domain (e_cfg E))) None) # v @ w_trace w))"

lemma send_joining_tail:
  "\<exists>u. w_trace (snd (send_as_ghost_joining r b None (build_send r c) E w)) =
     u @ EvMx (AsGhost (GSend r (e_uuid (e_net E) (w_step w)) c) b None) # w_trace w"
proof -
  let ?q = "GSend r (e_uuid (e_net E) (w_step w)) c"
  let ?w = "tick E w"
  let ?rest = "\<lambda>x. case x of Inr ev \<Rightarrow> ret ev
     | Inl e \<Rightarrow> if is_ghost_not_joined e
         then andthen (ignore (invite_to_room r b)) (andthen (join_room_as r b)
           (bind (build_send r c) (\<lambda>req'. send_as_ghost req' b None)))
         else fail e"
  have b: "build_send r c E w = (Ok ?q, ?w)"
    by (simp add: build_send_def txn_id_def fresh_def bind_def ret_def)
  obtain o1 w1 where s: "send_as_ghost ?q b None E ?w = (o1, w1)"
    by (cases "send_as_ghost ?q b None E ?w")
  have t: "w_trace w1 = EvMx (AsGhost ?q b None) # w_trace w"
    using s by (auto simp: send_as_ghost_def bind_def mx_call_def ret_def fail_def asks_def status_text_def
        split: http_out.splits if_splits sum.splits)
  have r: "evolves (\<lambda>_. True) w1 (snd (?rest x E w1))" for x
  proof -
    have "within (evolves (\<lambda>_. True)) (?rest x)"
      by (intro frame_rules; simp)
    then show ?thesis by (simp add: within_def)
  qed
  have "evolves (\<lambda>_. True) w1 (snd (send_as_ghost_joining r b None (build_send r c) E w))"
  proof -
    have "send_as_ghost_joining r b None (build_send r c) E w = (case o1 of
        Ok a \<Rightarrow> ?rest (Inr a) E w1 | Err e \<Rightarrow> ?rest (Inl e) E w1
      | Panic p \<Rightarrow> (Panic p, w1) | Hang \<Rightarrow> (Hang, w1))"
      unfolding send_as_ghost_joining_def run_bind(1) [of "build_send r c", OF b]
      using s by (cases o1) (simp_all only: run_bind run_attempt outcome.case)
    then show ?thesis using r [of "Inr _"] r [of "Inl _"]
      by (cases o1) (simp_all only: outcome.case snd_conv evolves_refl)
  qed
  then show ?thesis using evolves_trace t by metis
qed

lemma send_message_notifies: "notified r b E w (snd (send_message r b E w))"
proof -
  let ?bot = "bot_mxid (c_domain (e_cfg E))"
  have "send_message r b E w = send_as_ghost_joining r ?bot None (build_send r (OText b None None)) E w"
    if "l_room_ok (e_lib E) r" "l_user_ok (e_lib E) ?bot"
    using that by (simp add: send_message_def bot_user_id_def send_message_as_def parse_room_def parse_user_def
        parse_event_opt_def andthen_def bind_def asks_def ensure_def ret_def thread_relation_def)
  then show ?thesis using send_joining_tail [of r ?bot "OText b None None" E w]
    unfolding notified_def by (metis append.left_neutral)
qed

section \<open>The worker always comes back\<close>

lemma submit_calm [calm_rules]:
  "calm (submit_reply c q e b ctx a)" "calm (submit_fresh c e m a)" "calm (queued_attachments m)"
  unfolding submit_reply_def submit_fresh_def queued_attachments_def by (intro calm_rules)+

lemma submit_one_calm [calm_rules]: "calm (submit_one m)"
  unfolding submit_one_def submit_mapped_def submit_to_def get_client_def by (intro calm_rules)

lemma handle_message_calm [calm_rules]: "calm (handle_unresolved m)" "calm (handle_message m)"
  unfolding handle_message_def handle_unresolved_def by (intro calm_rules)+

text \<open>Its errors are all handled: it never fails either.\<close>

definition total :: "'a act \<Rightarrow> bool" where
  "total m \<longleftrightarrow> (\<forall>E w. \<exists>a w'. m E w = (Ok a, w'))"

lemma total_attempt: "calm m \<Longrightarrow> total (attempt m)"
  unfolding total_def using calm_attempt_Ok by blast

lemma total_bind: "total m \<Longrightarrow> (\<And>x. total (f x)) \<Longrightarrow> total (bind m f)"
  unfolding total_def bind_eq_Ok by meson

lemma total_prims: "total (ret x)" "total (gets g)" "total (sleep n)"
  by (simp_all add: total_def ret_def gets_def sleep_def)

lemma total_ignore: "calm m \<Longrightarrow> total (ignore m)"
  unfolding ignore_def by (intro total_bind total_attempt total_prims)

lemma total_andthen: "total m \<Longrightarrow> total n \<Longrightarrow> total (andthen m n)"
  unfolding andthen_def by (rule total_bind)

lemma total_branches:
  "(b \<Longrightarrow> total m) \<Longrightarrow> (\<not> b \<Longrightarrow> total n) \<Longrightarrow> total (if b then m else n)"
  "(v = None \<Longrightarrow> total m) \<Longrightarrow> (\<And>x. v = Some x \<Longrightarrow> total (f x)) \<Longrightarrow> total (case v of None \<Rightarrow> m | Some x \<Rightarrow> f x)"
  "(\<And>x. s = Inl x \<Longrightarrow> total (g x)) \<Longrightarrow> (\<And>x. s = Inr x \<Longrightarrow> total (h x)) \<Longrightarrow> total (case s of Inl x \<Rightarrow> g x | Inr x \<Rightarrow> h x)"
  by (auto split: option.split sum.split)

lemmas total_rules = total_prims total_attempt total_ignore total_andthen total_bind total_branches

lemma total_for_each: "(\<And>x. total (f x)) \<Longrightarrow> total (for_each xs f)"
  by (induction xs) (auto intro: total_andthen total_prims)

lemma mark_total: "total (mark_submitted u r e)" "total (mark_failed u r e)"
proof -
  have "total (take_held u r e)"
    unfolding take_held_def by (intro total_rules calm_rules)
  then show "total (mark_submitted u r e)" "total (mark_failed u r e)"
    unfolding mark_submitted_def mark_failed_def by (auto intro!: total_rules calm_rules)
qed

lemma submit_one_total: "total (submit_one m)"
proof -
  have "calm (submit_to c m to)" for c to
    unfolding submit_to_def by (intro calm_rules)
  then have "total (submit_mapped c m to)" for c to
    unfolding submit_mapped_def by (intro total_rules calm_rules mark_total)
  then show ?thesis
    unfolding submit_one_def get_client_def by (intro total_rules calm_rules)
qed

lemma handle_unresolved_total: "total (handle_unresolved m)"
  unfolding handle_unresolved_def by (intro total_rules calm_rules mark_total)

lemma retry_round_total: "total retry_round"
proof -
  have "total (handle_message m)" for m
    unfolding handle_message_def by (intro total_rules submit_one_total handle_unresolved_total)
  then show ?thesis
    unfolding retry_round_def by (intro total_rules calm_rules total_for_each)
qed

section \<open>Properties of the worker\<close>

text \<open>What a notice says at the latest: the tenth failure comes 511 minutes after the release.\<close>

lemma last_backoff: "row_ok r \<Longrightarrow> due t r \<Longrightarrow> om_retry r = 9 \<Longrightarrow> release_at r + 60 * 511 < t"
  by (simp add: row_ok_def due_def backoff_sum_def backoff_minutes_def upt_rec)

lemma age_outbound:
  "\<exists>t. t_outbound (w_db (snd (ignore (update_retry_count j) E w))) = t_outbound (w_db w) \<or>
    t_outbound (w_db (snd (ignore (update_retry_count j) E w))) = upd_rows (\<lambda>r. om_id r = j)
      (\<lambda>r. r\<lparr>om_retry := om_retry r + 1, last_retry_at := t\<rparr>) (t_outbound (w_db w))"
  by (auto simp: ignore_def attempt_def bind_def update_retry_count_def exec_unit_def run_def
      Let_def ret_def split: option.split)

lemma age_keeps_row:
  assumes "r \<in> set (t_outbound (w_db w))"
  shows "\<exists>r' \<in> set (t_outbound (w_db (snd (ignore (update_retry_count j) E w)))). om_id r' = om_id r"
proof -
  have "map om_id (upd_rows p (\<lambda>r. r\<lparr>om_retry := om_retry r + 1, last_retry_at := t\<rparr>) l) = map om_id l"
    for p t and l :: "outbound_row list"
    by (simp add: upd_rows_def)
  then have ids: "om_id ` set (upd_rows p (\<lambda>r. r\<lparr>om_retry := om_retry r + 1, last_retry_at := t\<rparr>) l) = om_id ` set l"
    for p t and l :: "outbound_row list"
    by (metis set_map)
  obtain t where "t_outbound (w_db (snd (ignore (update_retry_count j) E w))) = t_outbound (w_db w) \<or>
    t_outbound (w_db (snd (ignore (update_retry_count j) E w))) = upd_rows (\<lambda>r. om_id r = j)
      (\<lambda>r. r\<lparr>om_retry := om_retry r + 1, last_retry_at := t\<rparr>) (t_outbound (w_db w))"
    using age_outbound by blast
  then have "om_id ` set (t_outbound (w_db (snd (ignore (update_retry_count j) E w)))) = om_id ` set (t_outbound (w_db w))"
    by (elim disjE) (simp_all only: ids)
  then show ?thesis using assms by (metis imageE imageI)
qed

text \<open>A message whose submission failed is still in the queue.\<close>

definition maps_only :: "label \<Rightarrow> bool" where
  "maps_only l \<longleftrightarrow> (case l of LDb (PutThreadAndSubject _ _ _ _) \<Rightarrow> True | LDb _ \<Rightarrow> False | _ \<Rightarrow> True)"

lemma maps_only_outbound: "evolves maps_only w w' \<Longrightarrow> t_outbound (w_db w') = t_outbound (w_db w)"
proof (rule evolves_invariant [where I = "\<lambda>w'. t_outbound (w_db w') = t_outbound (w_db w)"])
  fix l w1 w2
  assume s: "world_step l w1 w2" "l = LTick \<or> maps_only l" "t_outbound (w_db w1) = t_outbound (w_db w)"
  show "t_outbound (w_db w2) = t_outbound (w_db w)"
    using s(1)
  proof (cases rule: world_step.cases)
    case (step_db st n d)
    then show ?thesis using s by (cases st) (auto simp: maps_only_def)
  next
    case (step_mem m)
    then show ?thesis using s by (cases m) auto
  qed (use s in auto)
qed auto

lemma submit_to_maps: "within (evolves maps_only) (submit_to c m to)"
  unfolding submit_to_def submit_reply_def submit_fresh_def queued_attachments_def Let_def
  by (intro frame_rules; simp add: maps_only_def allows_jread_def allows_submit_def)

lemma submit_one_False:
  assumes "submit_one m E w = (Ok False, w')"
  shows "t_outbound (w_db w') = t_outbound (w_db w)"
proof (cases "client_of (om_user m) w")
  case None
  then show ?thesis using assms by (simp add: submit_one_def get_client_def bind_def gets_def ret_def)
next
  case (Some c)
  have g: "w_db (snd (get_ghost_email_by_room (om_room m) E w)) = w_db w"
    by (simp add: get_ghost_email_by_room_def query_def Let_def split: option.split)
  have "t_outbound (w_db w2) = t_outbound (w_db w1)"
    if "submit_mapped c m to E w1 = (Ok False, w2)" for to w1 w2
  proof -
    have "w2 = snd (submit_to c m to E w1)"
      using that by (auto simp: submit_mapped_def bind_def attempt_def andthen_def ret_def
          split: prod.splits outcome.splits)
    then show ?thesis using submit_to_maps maps_only_outbound unfolding within_def by blast
  qed
  then show ?thesis using assms g
    by (auto simp: submit_one_def Some get_client_def bind_def attempt_def gets_def ret_def andthen_def
        split: prod.splits outcome.splits option.splits)
qed

lemma give_up_notifies:
  assumes "9 \<le> om_retry m" and "handle_unresolved m E w = (r, w')"
  shows "\<exists>w2. notified (om_room m) failure_msg E w w2 \<and> evolves (\<lambda>_. True) w2 w'"
proof -
  let ?rest = "andthen (ignore (remove_from_outbound_queue (om_id m)))
        (mark_failed (om_user m) (om_room m) (om_event m))"
  let ?w2 = "snd (send_message (om_room m) failure_msg E w)"
  have "within (evolves (\<lambda>_. True)) ?rest" by (intro frame_rules; simp add: allows_ghost_def)
  then have "evolves (\<lambda>_. True) ?w2 (snd (?rest E ?w2))" by (simp add: within_def)
  moreover obtain a w1 where n: "ignore (send_message (om_room m) failure_msg) E w = (Ok a, w1)"
    using total_ignore [OF sends_calm(2)] unfolding total_def by blast
  moreover have "w1 = ?w2"
    using n by (auto simp: ignore_def attempt_def bind_def ret_def split: prod.splits outcome.splits)
  ultimately have "evolves (\<lambda>_. True) ?w2 w'"
    using assms by (simp add: handle_unresolved_def andthen_def [of "ignore (send_message _ _)"] bind_def)
  then show ?thesis using send_message_notifies by blast
qed

text \<open>C1: one message handled by the worker stays queued unless it was accepted by the
  mail server, its room was unmapped, or this was the tenth failure, more than 511 minutes after
  its release, and the sender's room was told.\<close>

theorem message_never_lost:
  assumes rd: "ready [m] w" and r: "r \<in> set (t_outbound (w_db w))" and i: "om_id r = om_id m"
    and h: "handle_message m E w = (res, w')"
  shows "(\<exists>r' \<in> set (t_outbound (w_db w')). om_id r' = om_id m)
    \<or> (\<exists>to. accepted to (om_body m) E w w') \<or> was_unmapped (om_room m) w w'
    \<or> om_retry r = 9 \<and> release_at r + 60 * 511 < w_clock w' \<and> (\<exists>w1 w2. evolves (\<lambda>_. True) w w1
        \<and> notified (om_room m) failure_msg E w1 w2 \<and> evolves (\<lambda>_. True) w2 w')"
proof -
  obtain b w1 where s: "submit_one m E w = (Ok b, w1)"
    using submit_one_total unfolding total_def by blast
  have e1: "evolves (\<lambda>_. True) w w1"
    using s by (rule any_step) (intro submit_one_evolves allows_all)
  show ?thesis
  proof (cases b)
    case True
    then have "w1 = w'" using h s by (simp add: handle_message_def bind_def ret_def)
    then show ?thesis using submit_one_True [of m E w w'] s True by auto
  next
    case False
    then have u: "handle_unresolved m E w1 = (res, w')"
      using h s by (simp add: handle_message_def bind_def)
    have kept: "r \<in> set (t_outbound (w_db w1))" using submit_one_False s False r by simp
    have rm: "om_retry r = om_retry m" "due (w_clock w) r" "row_ok r"
      using readyD [OF rd _ r, of m] i rd r by (auto simp: ready_def queue_ok_def)
    show ?thesis
    proof (cases "9 \<le> om_retry m")
      case True
      then have nine: "om_retry r = 9" using rm by (simp add: row_ok_def)
      have "within (evolves (\<lambda>_. True)) (handle_unresolved m)"
        by (intro frame_rules allows_all) simp
      then have "w_clock w \<le> w_clock w'"
        using e1 u evolves_clock evolves_trans withinD by metis
      then show ?thesis
        using last_backoff [OF rm(3,2) nine] nine give_up_notifies [OF True u] e1 by fastforce
    next
      case False
      then have "w' = snd (ignore (update_retry_count (om_id m)) E w1)"
        using u by (simp add: handle_unresolved_def)
      then show ?thesis using age_keeps_row [OF kept, of "om_id m" E] i by auto
    qed
  qed
qed

theorem message_never_lost_witness:
  "(\<exists>r' \<in> set (t_outbound (w_db (snd (handle_message (outbound_message.truncate sample_row) sample_env sample_world)))).
      om_id r' = 1)
    \<or> (\<exists>to. accepted to ''hello'' sample_env sample_world
        (snd (handle_message (outbound_message.truncate sample_row) sample_env sample_world)))
    \<or> was_unmapped ''!r:x.org'' sample_world
        (snd (handle_message (outbound_message.truncate sample_row) sample_env sample_world))
    \<or> (0::int) + 60 * 511 < w_clock (snd (handle_message (outbound_message.truncate sample_row) sample_env sample_world))"
proof -
  let ?m = "outbound_message.truncate sample_row"
  have "ready [?m] sample_world"
    by (simp add: ready_def queue_ok_def sample_world_def)
      (simp add: sample_defs row_ok_def due_def backoff_sum_def backoff_minutes_def upt_rec outbound_message.defs)
  note * = message_never_lost [OF this, where r = sample_row and E = sample_env, OF _ _ surjective_pairing]
  have "sample_row \<in> set (t_outbound (w_db sample_world))" "om_id sample_row = om_id ?m"
    "om_body ?m = ''hello''" "om_room ?m = ''!r:x.org''" "om_id ?m = 1" "release_at sample_row = 0"
    by (simp_all add: sample_defs outbound_message.defs)
  with * show ?thesis by (simp only: simp_thms) blast
qed

text \<open>C16: any number of rounds of the worker comes back without an error, a panic or a wait
  that does not end, whatever the network and the database answer, and keeps the queue: counts
  never exceed 9 and every count was reached with its backoffs waited for.\<close>

theorem worker_total_and_invariant:
  assumes "queue_ok (w_db w)"
  shows "\<exists>w'. retry_rounds n E w = (Ok (), w') \<and> queue_ok (w_db w')"
proof -
  have "total (retry_rounds n)"
    by (induction n) (auto intro: total_andthen retry_round_total total_prims)
  then show ?thesis
    using retry_rounds_queue_ok [OF assms, of n E] unfolding total_def by (metis old.unit.exhaust snd_conv)
qed

theorem worker_total_and_invariant_witness:
  "\<exists>w'. retry_rounds 20000 sample_env sample_world = (Ok (), w') \<and> queue_ok (w_db w')"
  by (rule worker_total_and_invariant)
    (simp add: sample_world_def queue_ok_def, simp add: sample_defs row_ok_def backoff_sum_def
      backoff_minutes_def upt_rec)

lemma no_event_step:
  assumes st: "world_step l w w'" and none: "\<forall>r \<in> set (t_outbound (w_db w)). om_event r \<noteq> e"
    and l: "\<forall>m ro b h th a dl. l \<noteq> LDb (Enqueue m ro e b h th a dl)"
  shows "\<forall>r \<in> set (t_outbound (w_db w')). om_event r \<noteq> e"
proof
  fix r
  assume r: "r \<in> set (t_outbound (w_db w'))"
  show "om_event r \<noteq> e"
  proof (cases "ages l")
    case False
    then show ?thesis using world_step_queue_rows [OF st False r] none l by fastforce
  next
    case True
    then obtain i where "l = LDb (AgeRow i)" by (auto simp: ages_def)
    with st obtain n d where d: "exec (w_clock w) (AgeRow i) (w_db w) = Inr (n, d)" "w' = w\<lparr>w_db := d\<rparr>"
      by (auto elim: world_step_dbE)
    then obtain r0 where "r0 \<in> set (t_outbound (w_db w))" "om_event r = om_event r0"
      using aged_rows [OF _ d(1), of r] r by (auto split: if_splits)
    then show ?thesis using none by simp
  qed
qed

text \<open>A message cancelled by its event id (a redaction inside the send window) is never
  read by the worker again, whatever happens afterwards short of queueing that event anew.\<close>

theorem cancelled_never_pending:
  assumes "cancel_outbound_by_event e E w = (Ok b, w1)"
    and "evolves (\<lambda>l. \<forall>m ro bd h th a dl. l \<noteq> LDb (Enqueue m ro e bd h th a dl)) w1 w2"
    and "get_pending_outbound E' w2 = (Ok ms, w3)"
  shows "\<forall>m \<in> set ms. om_event m \<noteq> e"
proof -
  have "\<forall>r \<in> set (t_outbound (w_db w1)). om_event r \<noteq> e"
    using assms(1) by (auto simp: cancel_outbound_by_event_def exec_changed_def bind_eq_Ok run_Ok ret_def)
  then have "\<forall>r \<in> set (t_outbound (w_db w2)). om_event r \<noteq> e"
    by (rule evolves_invariant [OF assms(2)]) (auto dest: no_event_step)
  then show ?thesis
    using pending_Ok [OF assms(3)] by (auto simp: outbound_message.defs dest!: picked) blast
qed

theorem cancelled_never_pending_witness:
  "om_event (outbound_message.truncate (sample_row\<lparr>om_event := ''$f''\<rparr>)) \<noteq> ''$e''"
proof -
  let ?r = "sample_row\<lparr>om_event := ''$f''\<rparr>"
  let ?d = "sample_db\<lparr>t_outbound := [sample_row\<lparr>om_id := 2\<rparr>, ?r]\<rparr>"
  let ?w = "(tick sample_env sample_world)\<lparr>w_db := sample_db\<lparr>t_outbound := [?r]\<rparr>\<rparr>"
  have c: "cancel_outbound_by_event ''$e'' sample_env (sample_world\<lparr>w_db := ?d\<rparr>) = (Ok True, ?w)"
    by (simp add: cancel_outbound_by_event_def exec_changed_def bind_def run_def ret_def tick_def
        drop_rows_def sample_defs)
  have p: "get_pending_outbound sample_env ?w = (Ok [outbound_message.truncate ?r], tick sample_env ?w)"
    by (simp add: pending_eq pick_def tick_def sample_defs eligible_def backoff_minutes_def)
  show ?thesis by (rule bspec [OF cancelled_never_pending [OF c evolves_refl p]]) simp
qed

end
