(* ===== verification/Outbox.thy ===== *)
theory Outbox
  imports Retry_Queue
begin

text \<open>
  What the outbound worker (\<^verbatim>\<open>src/src/retry.rs\<close>) gives the outside world: every mail it submits
  is one of the queue, sent to the contact of its room through its owner's session, and while the
  database answers, no queued mail is accepted twice.
\<close>

section \<open>Counting the accepted mail\<close>

text \<open>\<open>taken E tr\<close>: the newest event is a submission that the mail server accepted.\<close>

definition taken :: "env \<Rightarrow> ev list \<Rightarrow> bool" where
  "taken E tr \<longleftrightarrow> (case tr of
     EvJmap c (Submit d) # _ \<Rightarrow> (case e_submit (e_jmap E) tr of
       Inr (CCreated (Some i), CCreated x) \<Rightarrow> True | _ \<Rightarrow> False)
   | _ \<Rightarrow> False)"

fun accepted_count :: "env \<Rightarrow> ev list \<Rightarrow> nat" where
  "accepted_count E [] = 0"
| "accepted_count E (e # tr) = (if taken E (e # tr) then 1 else 0) + accepted_count E tr"

abbreviation accepted_in :: "env \<Rightarrow> world \<Rightarrow> nat" where
  "accepted_in E w \<equiv> accepted_count E (w_trace w)"

text \<open>The labels of the worker, without the submissions.\<close>

fun worker_stmt :: "stmt \<Rightarrow> bool" where
  "worker_stmt (PutThreadAndSubject _ _ _ _) = True"
| "worker_stmt (DelKv _ _) = True"
| "worker_stmt (Dequeue _) = True"
| "worker_stmt (AgeRow _) = True"
| "worker_stmt _ = False"

fun is_submit :: "ev \<Rightarrow> bool" where
  "is_submit (EvJmap _ (Submit _)) = True"
| "is_submit _ = False"

definition silent :: "label \<Rightarrow> bool" where
  "silent l \<longleftrightarrow> (case l of LEv e \<Rightarrow> \<not> is_submit e | LDb s \<Rightarrow> worker_stmt s | LMem _ \<Rightarrow> False | LTick \<Rightarrow> True)"

lemma silent_simps [simp]:
  "silent (LEv e) = (\<not> is_submit e)" "silent (LDb s) = worker_stmt s" "\<not> silent (LMem m)" "silent LTick"
  by (simp_all add: silent_def)

lemma not_taken: "\<not> is_submit e \<Longrightarrow> \<not> taken E (e # tr)"
  by (auto simp: taken_def split: ev.splits jmap_req.splits)

lemma count_silent: "evolves silent w w' \<Longrightarrow> accepted_in E w' = accepted_in E w"
proof -
  assume "evolves silent w w'"
  then obtain u where u: "w_trace w' = u @ w_trace w" "list_all (\<lambda>e. \<not> is_submit e) u"
    using evolves_events by fastforce
  have "accepted_count E (u @ t) = accepted_count E t" for t
    using u(2) by (induction u) (auto simp: not_taken)
  then show ?thesis by (simp add: u(1))
qed

text \<open>\<open>sends_once m\<close>: one accepted mail exactly when \<open>m\<close> succeeds.\<close>

definition sends_once :: "'a act \<Rightarrow> bool" where
  "sends_once m \<longleftrightarrow> (\<forall>E w. accepted_in E (snd (m E w)) = accepted_in E w +
     (case fst (m E w) of Ok _ \<Rightarrow> 1 | _ \<Rightarrow> 0))"

lemma once_after_silent:
  assumes "within (evolves silent) m" and "\<And>x. sends_once (f x)"
  shows "sends_once (bind m f)"
proof -
  have "accepted_in E (snd (m E w)) = accepted_in E w" for E w
    using assms(1) count_silent by (auto simp: within_def)
  then show ?thesis
    using assms(2) by (auto simp: sends_once_def bind_def split: prod.split outcome.split) (metis snd_conv)+
qed

lemma once_then_total:
  assumes "sends_once m" and "\<And>x. within (evolves silent) (f x)" and "\<And>x. total (f x)"
  shows "sends_once (bind m f)"
  unfolding sends_once_def
proof (intro allI)
  fix E w
  obtain r w1 where m: "m E w = (r, w1)" by (cases "m E w")
  have c: "accepted_in E w1 = accepted_in E w + (case r of Ok _ \<Rightarrow> 1 | _ \<Rightarrow> 0)"
    using assms(1) m by (metis sends_once_def fst_conv snd_conv)
  show "accepted_in E (snd (bind m f E w)) = accepted_in E w + (case fst (bind m f E w) of Ok _ \<Rightarrow> 1 | _ \<Rightarrow> 0)"
  proof (cases r)
    case (Ok x)
    obtain a w2 where f: "f x E w1 = (Ok a, w2)" using assms(3) unfolding total_def by blast
    have "accepted_in E w2 = accepted_in E w1"
      using assms(2) f count_silent by (metis withinD)
    then show ?thesis using m f c Ok by (simp add: bind_def)
  qed (use m c in \<open>simp_all add: bind_def\<close>)
qed

lemma once_branches:
  "(v = None \<Longrightarrow> sends_once m) \<Longrightarrow> (\<And>x. v = Some x \<Longrightarrow> sends_once (f x)) \<Longrightarrow>
   sends_once (case v of None \<Rightarrow> m | Some x \<Rightarrow> f x)"
  "(\<And>x y. p = (x, y) \<Longrightarrow> sends_once (k x y)) \<Longrightarrow> sends_once (case p of (x, y) \<Rightarrow> k x y)"
  by (auto split: option.split prod.split)

lemma batch_once: "sends_once (bind (jcall c (Submit d) e_submit) unpack_submission)"
proof -
  have w: "snd (unpack_submission r E w) = w" for r E w
    by (auto simp: unpack_submission_def bind_def need_def fail_def ret_def
        split: sum.split prod.split option.split created.split)
  have "(case fst (unpack_submission (e_submit (e_jmap E) (EvJmap c (Submit d) # t)) E w) of Ok _ \<Rightarrow> 1 | _ \<Rightarrow> 0) =
    (if taken E (EvJmap c (Submit d) # t) then 1 else (0::nat))" for E w t
    by (auto simp: taken_def unpack_submission_def bind_def need_def fail_def ret_def
        split: sum.split prod.split option.split created.split)
  then show ?thesis
    by (simp add: sends_once_def bind_def jcall_def call_def w)
qed

lemma allows_jread_silent [simp]: "allows_jread silent"
  unfolding allows_jread_def
proof (intro allI impI)
  show "silent (LEv (EvJmap c r))" if "jmap_lookup r" for c r
    using that by (cases r) (auto simp: jmap_lookup_def)
qed

lemma submit_once: "sends_once (submit c to su b irt refs atts)"
  unfolding submit_def filing_mailbox_def
  by (intro once_after_silent once_branches batch_once frame_rules; simp)

lemma reply_once: "sends_once (submit_reply c q to b ctx atts)"
proof -
  have "sends_once (reply_to_email c q to su b' th atts)" for su b' th
    unfolding reply_to_email_def
    by (intro once_after_silent once_branches submit_once frame_rules; simp)
  then show ?thesis
    unfolding submit_reply_def Let_def
    by (intro once_after_silent once_then_total once_branches frame_rules total_prims; simp)
qed

lemma fresh_once: "sends_once (submit_fresh c to m atts)"
  unfolding submit_fresh_def send_email_def Let_def
  by (intro once_after_silent once_then_total submit_once frame_rules total_rules calm_rules; simp)

lemma submit_to_once: "sends_once (submit_to c m to)"
  unfolding submit_to_def queued_attachments_def
  by (intro once_after_silent once_branches reply_once fresh_once frame_rules; simp)

section \<open>No mail is accepted twice\<close>

text \<open>
  What the worker owes: the accepted mail so far, and the rows that may still be accepted. It never
  grows while the database answers. \<open>queued i w\<close>: row \<open>i\<close> is in the queue.
\<close>

definition exposure :: "env \<Rightarrow> world \<Rightarrow> nat" where
  "exposure E w = accepted_in E w + length (t_outbound (w_db w))"

definition queued :: "nat \<Rightarrow> world \<Rightarrow> bool" where
  "queued i w \<longleftrightarrow> i \<in> om_id ` set (t_outbound (w_db w))"

lemma worker_stmt_length:
  assumes "exec t s d = Inr (n, d')" and "worker_stmt s"
  shows "length (t_outbound d') \<le> length (t_outbound d)"
  using assms by (cases s) (auto simp: drop_rows_def upd_rows_def split: if_splits option.splits)

lemma silent_length:
  "evolves silent w w' \<Longrightarrow> length (t_outbound (w_db w')) \<le> length (t_outbound (w_db w))"
proof (rule evolves_invariant [where I = "\<lambda>w'. length (t_outbound (w_db w')) \<le> length (t_outbound (w_db w))"])
  fix l w1 w2
  assume st: "world_step l w1 w2" and l: "l = LTick \<or> silent l"
    and le: "length (t_outbound (w_db w1)) \<le> length (t_outbound (w_db w))"
  show "length (t_outbound (w_db w2)) \<le> length (t_outbound (w_db w))"
    using st
  proof (cases rule: world_step.cases)
    case (step_db s n d)
    then show ?thesis using l le worker_stmt_length by fastforce
  qed (use l le in auto)
qed auto

lemma silent_exposure: "evolves silent w w' \<Longrightarrow> exposure E w' \<le> exposure E w"
  using count_silent silent_length by (fastforce simp: exposure_def)

lemma within_exposure: "within (evolves silent) m \<Longrightarrow> exposure E (snd (m E w)) \<le> exposure E w"
  using silent_exposure by (auto simp: within_def)

lemma worker_silent [simp]: "allows_ghost silent" "allows_mx silent r"
  by (auto simp: allows_ghost_def)

text \<open>A step that dequeues no other message keeps the other rows.\<close>

lemma aged_ids:
  "om_id ` set (upd_rows p (\<lambda>r. r\<lparr>om_retry := f r, last_retry_at := t\<rparr>) l) = om_id ` set (l :: outbound_row list)"
proof -
  have "map om_id (upd_rows p (\<lambda>r. r\<lparr>om_retry := f r, last_retry_at := t\<rparr>) l) = map om_id l"
    by (simp add: upd_rows_def)
  then show ?thesis by (metis set_map)
qed

definition dequeues_only :: "nat \<Rightarrow> label \<Rightarrow> bool" where
  "dequeues_only i l \<longleftrightarrow> (case l of LDb s \<Rightarrow> worker_stmt s \<and> (\<forall>j. s = Dequeue j \<longrightarrow> j = i)
     | LMem _ \<Rightarrow> False | _ \<Rightarrow> True)"

lemma dequeues_only_keeps:
  assumes "evolves (dequeues_only i) w w'" and "queued j w" and "i \<noteq> j"
  shows "queued j w'"
proof (rule evolves_invariant [OF assms(1), where I = "queued j"])
  fix l w1 w2
  assume st: "world_step l w1 w2" and l: "l = LTick \<or> dequeues_only i l" and q: "queued j w1"
  show "queued j w2"
    using st
  proof (cases rule: world_step.cases)
    case (step_db s n d)
    then show ?thesis using l q \<open>i \<noteq> j\<close>
      by (cases s) (auto simp: dequeues_only_def queued_def aged_ids drop_rows_def split: if_splits option.splits)
  qed (use l q in \<open>auto simp: dequeues_only_def queued_def\<close>)
qed (rule assms(2))

lemma allows_jread_dequeues [simp]: "allows_jread (dequeues_only i)"
  by (simp add: allows_jread_def dequeues_only_def)

lemma handle_message_keeps:
  assumes "queued j w" and "om_id m \<noteq> j"
  shows "queued j (snd (handle_message m E w))"
proof -
  have "within (evolves (dequeues_only (om_id m))) (handle_message m)"
    by (intro frame_rules) (simp_all add: allows_submission_def dequeues_only_def)
  then have "evolves (dequeues_only (om_id m)) w (snd (handle_message m E w))" by (simp add: within_def)
  then show ?thesis by (rule dequeues_only_keeps [OF _ assms])
qed

text \<open>While the database answers, a dequeued row is gone.\<close>

abbreviation no_faults :: "env \<Rightarrow> bool" where
  "no_faults E \<equiv> e_fault (e_net E) = (\<lambda>_. None)"

lemma drop_shrinks: "r \<in> set t \<Longrightarrow> p r \<Longrightarrow> length (drop_rows p t) < length t"
  by (simp add: drop_rows_def length_filter_less)

lemma dequeue_shrinks:
  assumes "no_faults E" and "queued i w" and "ignore (remove_from_outbound_queue i) E w = (r, w')"
  shows "exposure E w' < exposure E w"
proof -
  have "length (drop_rows (\<lambda>r. om_id r = i) (t_outbound (w_db w))) < length (t_outbound (w_db w))"
    using assms(2) by (auto simp: queued_def intro: drop_shrinks)
  then show ?thesis using assms(1,3)
    by (auto simp: exposure_def remove_from_outbound_queue_def exec_unit_def run_def ignore_def
        attempt_def bind_def ret_def Let_def tick_def)
qed

lemma submit_mapped_exposure:
  assumes "no_faults E" and "queued (om_id m) w"
  shows "exposure E (snd (submit_mapped c m to E w)) \<le> exposure E w"
proof -
  obtain o1 w1 where s: "submit_to c m to E w = (o1, w1)" by (cases "submit_to c m to E w")
  have out: "t_outbound (w_db w1) = t_outbound (w_db w)"
    using submit_to_maps [of c m to] s maps_only_outbound by (metis withinD)
  have n: "accepted_in E w1 = accepted_in E w + (case o1 of Ok _ \<Rightarrow> 1 | _ \<Rightarrow> 0)"
    using submit_to_once [of c m to] s by (metis sends_once_def fst_conv snd_conv)
  show ?thesis
  proof (cases o1)
    case (Ok x)
    obtain o2 w2 where d: "ignore (remove_from_outbound_queue (om_id m)) E w1 = (o2, w2)"
      by (cases "ignore (remove_from_outbound_queue (om_id m)) E w1")
    have "exposure E w2 < exposure E w1"
      using dequeue_shrinks [OF assms(1) _ d] assms(2) out by (simp add: queued_def)
    moreover have "exposure E w1 = Suc (exposure E w)" using n out Ok by (simp add: exposure_def)
    moreover have "within (evolves silent) (andthen (mark_submitted (om_user m) (om_room m) (om_event m)) (ret True))"
      by (intro frame_rules; simp)
    then have "exposure E (snd (andthen (mark_submitted (om_user m) (om_room m) (om_event m)) (ret True) E w2))
        \<le> exposure E w2"
      by (rule within_exposure)
    ultimately show ?thesis using s d Ok
      by (cases o2) (auto simp: submit_mapped_def bind_def attempt_def andthen_def)
  qed (use s n out in \<open>simp_all add: submit_mapped_def bind_def attempt_def ret_def exposure_def\<close>)
qed

lemma submit_one_exposure:
  assumes "no_faults E" and "queued (om_id m) w"
  shows "exposure E (snd (submit_one m E w)) \<le> exposure E w"
proof (cases "client_of (om_user m) w")
  case None
  then show ?thesis by (simp add: submit_one_def get_client_def bind_def gets_def ret_def)
next
  case (Some c)
  have g: "get_ghost_email_by_room (om_room m) E w = (Ok (map_option gr_email (ghost_of (om_room m) (w_db w))), tick E w)"
    using assms(1) by (simp add: get_ghost_email_by_room_def query_def Let_def)
  have t: "exposure E (tick E w) = exposure E w" by (simp add: exposure_def)
  show ?thesis
  proof (cases "ghost_of (om_room m) (w_db w)")
    case None
    have "within (evolves silent) (andthen (ignore (remove_from_outbound_queue (om_id m))) (ret True))"
      by (intro frame_rules; simp)
    from within_exposure [OF this, of E "tick E w"] show ?thesis
      using g t None by (simp add: submit_one_def get_client_def bind_def gets_def ret_def attempt_def Some)
  next
    case (Some gh)
    have "queued (om_id m) (tick E w)" using assms(2) by (simp add: queued_def)
    from submit_mapped_exposure [OF assms(1) this] show ?thesis
      using g t Some \<open>client_of (om_user m) w = Some c\<close>
      by (simp add: submit_one_def get_client_def bind_def gets_def ret_def attempt_def)
  qed
qed

lemma handle_message_exposure:
  assumes "no_faults E" and "queued (om_id m) w"
  shows "exposure E (snd (handle_message m E w)) \<le> exposure E w"
proof -
  obtain b w1 where s: "submit_one m E w = (Ok b, w1)"
    using submit_one_total unfolding total_def by blast
  have "exposure E w1 \<le> exposure E w" using submit_one_exposure [OF assms] s by (metis snd_conv)
  moreover have "within (evolves silent) (if b then ret () else handle_unresolved m)"
    unfolding handle_unresolved_def by (intro frame_rules; simp)
  then have "exposure E (snd ((if b then ret () else handle_unresolved m) E w1)) \<le> exposure E w1"
    by (rule within_exposure)
  ultimately show ?thesis using s by (simp add: handle_message_def bind_def)
qed

lemma for_each_exposure:
  assumes "no_faults E"
  shows "(\<And>m. m \<in> set ms \<Longrightarrow> queued (om_id m) w) \<Longrightarrow> distinct (map om_id ms) \<Longrightarrow>
    exposure E (snd (for_each ms handle_message E w)) \<le> exposure E w"
proof (induction ms arbitrary: w)
  case Nil
  then show ?case by (simp add: ret_def)
next
  case (Cons m ms)
  let ?w = "snd (handle_message m E w)"
  have one: "exposure E ?w \<le> exposure E w"
    using handle_message_exposure [OF assms] Cons.prems(1) by simp
  have "queued (om_id k) ?w" if "k \<in> set ms" for k
    using handle_message_keeps Cons.prems that by (metis imageI list.set_intros(2) list.set_map list.simps(9) distinct.simps(2))
  then have "exposure E (snd (for_each ms handle_message E ?w)) \<le> exposure E ?w"
    using Cons.IH Cons.prems(2) by simp
  then show ?case using one
    by (auto simp: andthen_def bind_def split: prod.split outcome.split)
qed

lemma retry_round_exposure:
  assumes "no_faults E" and q: "queue_ok (w_db w)"
  shows "exposure E (snd (retry_round E w)) \<le> exposure E w"
proof -
  obtain w1 where s: "sleep 2 E w = (Ok (), w1)" by (simp add: sleep_def)
  then have w1: "exposure E w1 = exposure E w" "queue_ok (w_db w1)"
    using q by (auto simp: sleep_def exposure_def)
  obtain ms w2 where g: "get_pending_outbound E w1 = (Ok ms, w2)"
    using assms(1) by (simp add: pending_eq)
  have d: "distinct (map om_id ms)" using pending_ready [OF w1(2) g] by simp
  have ms: "queued (om_id m) w2" if "m \<in> set ms" for m
    using pending_Ok [OF g] that by (auto simp: queued_def outbound_message.defs dest!: picked)
  have "exposure E w2 = exposure E w1"
    using pending_Ok [OF g] by (auto simp: exposure_def)
  then have "exposure E (snd (for_each ms handle_message E w2)) \<le> exposure E w"
    using for_each_exposure [OF assms(1) ms d] w1 by simp
  then show ?thesis using s g
    by (simp add: retry_round_def andthen_def bind_def attempt_def)
qed

lemma retry_rounds_exposure:
  "no_faults E \<Longrightarrow> queue_ok (w_db w) \<Longrightarrow> exposure E (snd (retry_rounds n E w)) \<le> exposure E w"
proof (induction n arbitrary: w)
  case (Suc n)
  have "exposure E (snd (retry_rounds n E (snd (retry_round E w)))) \<le> exposure E (snd (retry_round E w))"
    by (rule Suc.IH [OF Suc.prems(1) retry_round_queue_ok [OF Suc.prems(2)]])
  then show ?case using retry_round_exposure [OF Suc.prems]
    by (auto simp: andthen_def bind_def split: prod.split outcome.split)
qed (simp add: ret_def)

text \<open>C2: while the database answers its statements, any number of rounds of the worker accepts at
  most one mail per queued row: what is accepted and what is still queued, together, never exceed
  what was queued, whatever the network answers.\<close>

theorem no_duplicate_submission:
  assumes "queue_ok (w_db w)" and "e_fault (e_net E) = (\<lambda>_. None)"
    and "retry_rounds n E w = (r, w')"
  shows "accepted_in E w' + length (t_outbound (w_db w')) \<le>
    accepted_in E w + length (t_outbound (w_db w))"
  using retry_rounds_exposure [OF assms(2,1), of n] assms(3) by (simp add: exposure_def)

theorem no_duplicate_submission_witness:
  "accepted_in sample_env (snd (retry_rounds 20000 sample_env sample_world))
     + length (t_outbound (w_db (snd (retry_rounds 20000 sample_env sample_world)))) \<le> 1"
proof -
  have q: "queue_ok (w_db sample_world)"
    by (simp add: sample_world_def queue_ok_def)
      (simp add: sample_defs row_ok_def backoff_sum_def backoff_minutes_def upt_rec)
  have f: "e_fault (e_net sample_env) = (\<lambda>_. None)" by (simp add: sample_defs)
  have z: "accepted_in sample_env sample_world = 0" "length (t_outbound (w_db sample_world)) = 1"
    by (simp_all add: sample_world_def sample_db_def)
  show ?thesis
    using no_duplicate_submission [OF q f surjective_pairing, of 20000] by (simp only: z)
qed

section \<open>Only queued mail is submitted\<close>

text \<open>
  \<open>may_send w m\<close>: the labels of handling \<open>m\<close> in \<open>w\<close>. The only submissions are of \<open>m\<close>'s body,
  through its owner's session, to the contact of its room.
\<close>

definition sends_for :: "world \<Rightarrow> outbound_message \<Rightarrow> ev \<Rightarrow> bool" where
  "sends_for w m e \<longleftrightarrow> (\<forall>c d. e = EvJmap c (Submit d) \<longrightarrow> client_of (om_user m) w = Some c
     \<and> map_option gr_email (ghost_of (om_room m) (w_db w)) = Some (dr_to d)
     \<and> starts_with (dr_body d) (om_body m) \<and> snd (dr_envelope d) = [dr_to d])"

definition may_send :: "world \<Rightarrow> outbound_message \<Rightarrow> label \<Rightarrow> bool" where
  "may_send w m l \<longleftrightarrow> (case l of LEv e \<Rightarrow> sends_for w m e | LDb s \<Rightarrow> worker_stmt s | LMem _ \<Rightarrow> False | LTick \<Rightarrow> True)"

lemma sends_for_simps [simp]:
  "\<not> is_submit e \<Longrightarrow> sends_for w m e"
  by (auto simp: sends_for_def)

lemma may_send_simps [simp]:
  "may_send w m (LEv e) = sends_for w m e" "may_send w m (LDb s) = worker_stmt s"
  "\<not> may_send w m (LMem x)" "may_send w m LTick"
  by (simp_all add: may_send_def)

lemma allows_may_send [simp]: "allows_jread (may_send w m)" "allows_mx (may_send w m) r" "allows_ghost (may_send w m)"
proof -
  have "sends_for w m (EvJmap c r)" if "jmap_lookup r" for c r
    using that by (cases r) (auto simp: jmap_lookup_def)
  then show "allows_jread (may_send w m)" by (simp add: allows_jread_def)
qed (auto simp: allows_ghost_def)

text \<open>The sessions and the contacts of the rooms, which the worker never changes.\<close>

definition routing :: "world \<Rightarrow> (mxid \<times> jclient) list \<times> ghost_row list" where
  "routing w = (w_clients w, t_ghosts (w_db w))"

lemma worker_stmt_ghosts: "exec t s d = Inr (n, d') \<Longrightarrow> worker_stmt s \<Longrightarrow> t_ghosts d' = t_ghosts d"
  by (cases s) (auto split: if_splits option.splits)

lemma worker_routing:
  assumes "evolves K w w'" and "\<And>l. K l \<Longrightarrow> (\<forall>s. l = LDb s \<longrightarrow> worker_stmt s) \<and> (\<forall>x. l \<noteq> LMem x)"
  shows "routing w' = routing w"
proof (rule evolves_invariant [OF assms(1), where I = "\<lambda>w'. routing w' = routing w"])
  fix l w1 w2
  assume st: "world_step l w1 w2" and l: "l = LTick \<or> K l" and q: "routing w1 = routing w"
  have l': "(\<forall>s. l = LDb s \<longrightarrow> worker_stmt s) \<and> (\<forall>x. l \<noteq> LMem x)" using l assms(2) by auto
  show "routing w2 = routing w"
    using st
  proof (cases rule: world_step.cases)
    case (step_db s n d)
    then show ?thesis using l' q worker_stmt_ghosts by (auto simp: routing_def)
  qed (use l' q in \<open>auto simp: routing_def emit_def\<close>)
qed simp

lemma may_send_routing: "evolves (may_send w0 m) w w' \<Longrightarrow> routing w' = routing w"
  by (erule worker_routing) auto

lemma sends_for_routing: "routing w = routing w' \<Longrightarrow> sends_for w m e = sends_for w' m e"
  by (simp add: sends_for_def routing_def client_of_def ghost_of_def)

lemma may_send_eq: "routing w = routing w' \<Longrightarrow> may_send w m = may_send w' m"
  using sends_for_routing [of w w' m] by (simp add: may_send_def fun_eq_iff split: label.split)

lemma submit_to_sends:
  assumes "client_of (om_user m) w = Some c" and "map_option gr_email (ghost_of (om_room m) (w_db w)) = Some to"
  shows "within (evolves (may_send w m)) (submit_to c m to)"
proof -
  have body: "sends_for w m (EvJmap c (Submit d))"
    if "carries to su b a d" "starts_with b (om_body m)" for su b a d
    using that assms by (auto simp: carries_def sends_for_def)
  have reply: "within (evolves (may_send w m)) (reply_to_email c q to su (om_body m) t a)" for q su t a
    unfolding reply_to_email_def
    by (intro frame_rules submit_evolves; (simp del: may_send_simps)?)
      (simp only: may_send_simps, erule body, simp split: option.split)
  have fresh: "within (evolves (may_send w m)) (send_email c to su (om_body m) a)" for su a
    unfolding send_email_def
    by (intro submit_evolves; (simp del: may_send_simps)?) (simp only: may_send_simps, erule body, simp)
  show ?thesis
    unfolding submit_to_def submit_reply_def submit_fresh_def queued_attachments_def Let_def
    by (intro frame_rules reply fresh; simp)
qed

lemma submit_mapped_sends:
  assumes "client_of (om_user m) w = Some c" and "map_option gr_email (ghost_of (om_room m) (w_db w)) = Some to"
  shows "within (evolves (may_send w m)) (submit_mapped c m to)"
  unfolding submit_mapped_def by (intro frame_rules submit_to_sends [OF assms]; simp)

lemma submit_one_sends: "evolves (may_send w m) w (snd (submit_one m E w))"
proof (cases "client_of (om_user m) w")
  case None
  then show ?thesis
    by (simp add: submit_one_def get_client_def bind_def gets_def ret_def evolves_refl)
next
  case (Some c)
  obtain o1 w1 where g: "get_ghost_email_by_room (om_room m) E w = (o1, w1)"
    by (cases "get_ghost_email_by_room (om_room m) E w")
  have w1: "w1 = tick E w" "o1 = Ok x \<Longrightarrow> x = map_option gr_email (ghost_of (om_room m) (w_db w))" for x
    using g by (auto simp: get_ghost_email_by_room_def query_def Let_def split: option.splits)
  have e1: "evolves (may_send w m) w w1" using w1(1) tick_step evolves_one by metis
  have gone: "within (evolves (may_send w m)) (andthen (ignore (remove_from_outbound_queue (om_id m))) (ret True))"
    by (intro frame_rules; simp)
  have "evolves (may_send w m) w1 (snd (submit_one m E w))"
  proof (cases o1)
    case (Ok x)
    then show ?thesis
    proof (cases x)
      case None
      then show ?thesis using gone Some g Ok
        by (simp add: submit_one_def get_client_def bind_def gets_def ret_def attempt_def within_def)
    next
      case (Some to)
      then show ?thesis
        using submit_mapped_sends [OF \<open>client_of _ w = Some c\<close>, of to] w1(2) [OF Ok] g Ok \<open>client_of _ w = Some c\<close>
        by (simp only: submit_one_def get_client_def bind_def gets_def ret_def attempt_def within_def
            case_prod_conv outcome.case sum.case option.case)
    qed
  qed (use Some g in \<open>simp_all add: submit_one_def get_client_def bind_def gets_def ret_def attempt_def evolves_refl\<close>)
  then show ?thesis using e1 evolves_trans by blast
qed

lemma handle_message_sends: "evolves (may_send w m) w (snd (handle_message m E w))"
proof -
  obtain b w1 where s: "submit_one m E w = (Ok b, w1)"
    using submit_one_total unfolding total_def by blast
  have "within (evolves (may_send w m)) (if b then ret () else handle_unresolved m)"
    unfolding handle_unresolved_def by (intro frame_rules; simp)
  then have "evolves (may_send w m) w1 (snd ((if b then ret () else handle_unresolved m) E w1))"
    by (simp add: within_def)
  moreover have "evolves (may_send w m) w w1" using submit_one_sends [of w m E] s by simp
  ultimately show ?thesis using s evolves_trans by (fastforce simp: handle_message_def bind_def)
qed

lemma for_each_sends:
  "evolves (\<lambda>l. \<exists>m \<in> set ms. may_send w m l) w (snd (for_each ms handle_message E w))"
proof (induction ms arbitrary: w)
  case Nil
  then show ?case by (simp add: ret_def evolves_refl)
next
  case (Cons m ms)
  let ?w = "snd (handle_message m E w)"
  let ?K = "\<lambda>l. \<exists>k \<in> set (m # ms). may_send w k l"
  have one: "evolves (may_send w m) w ?w" by (rule handle_message_sends)
  then have first: "evolves ?K w ?w" by (rule evolves_mono) simp
  have same: "may_send ?w = may_send w"
    by (rule ext) (rule may_send_eq [OF may_send_routing [OF one]])
  have "evolves ?K ?w (snd (for_each ms handle_message E ?w))"
    by (rule evolves_mono [OF Cons.IH]) (simp add: same)
  then have both: "evolves ?K w (snd (for_each ms handle_message E ?w))" using first by (rule evolves_trans)
  obtain o1 w1 where h: "handle_message m E w = (o1, w1)" by (cases "handle_message m E w")
  have "evolves ?K w (snd (for_each ms handle_message E w1))" "evolves ?K w w1"
    using both first by (simp_all only: h snd_conv)
  then show ?case by (cases o1) (simp_all only: for_each.simps andthen_def bind_def h
    case_prod_conv outcome.case snd_conv)
qed

text \<open>What one round submits is a mail of a due row, to the contact of the row's room.\<close>

lemma round_sends:
  assumes "get_pending_outbound E w1 = (Ok ms, w2)" and "routing w1 = routing w"
    and "EvJmap c (Submit d) \<in> set u" and "list_all (\<lambda>e. \<exists>m \<in> set ms. may_send w2 m (LEv e)) u"
  shows "\<exists>row \<in> set (t_outbound (w_db w1)). om_retry row < 10 \<and> due (w_clock w2) row
      \<and> sends_for w (outbound_message.truncate row) (EvJmap c (Submit d))"
proof -
  obtain m where m: "m \<in> set ms" "sends_for w2 m (EvJmap c (Submit d))"
    using assms(3,4) by (auto simp: list_all_iff)
  obtain row where row: "row \<in> set (t_outbound (w_db w1))" "eligible (w_clock w2) row"
      "m = outbound_message.truncate row"
    using pending_Ok [OF assms(1)] m(1) by (auto dest!: picked)
  have "routing w2 = routing w"
    using pending_Ok [OF assms(1)] assms(2) by (auto simp: routing_def)
  then have "sends_for w m (EvJmap c (Submit d))" using m(2) sends_for_routing by metis
  then show ?thesis using row eligible_due by (auto simp: eligible_def)
qed

lemma round_submits:
  assumes "retry_round E w = (r, w')"
  shows "\<exists>u. w_trace w' = u @ w_trace w \<and> (\<forall>c d. EvJmap c (Submit d) \<in> set u \<longrightarrow>
    (\<exists>row \<in> set (t_outbound (w_db w)). om_retry row < 10 \<and> due (w_clock w') row
      \<and> sends_for w (outbound_message.truncate row) (EvJmap c (Submit d))))"
proof -
  obtain w1 where s: "sleep 2 E w = (Ok (), w1)" by (simp add: sleep_def)
  then have w1: "w_trace w1 = w_trace w" "w_db w1 = w_db w" "routing w1 = routing w"
    by (auto simp: sleep_def routing_def)
  obtain o2 w2 where g: "get_pending_outbound E w1 = (o2, w2)" by (cases "get_pending_outbound E w1")
  have e2: "w_trace w2 = w_trace w1"
    using g by (auto simp: pending_eq)
  show ?thesis
  proof (cases o2)
    case (Ok ms)
    have w': "w' = snd (for_each ms handle_message E w2)"
      using assms s g Ok by (simp add: retry_round_def andthen_def bind_def attempt_def)
    have ev: "evolves (\<lambda>l. \<exists>m \<in> set ms. may_send w2 m l) w2 w'"
      unfolding w' by (rule for_each_sends)
    obtain u where u: "w_trace w' = u @ w_trace w2" "list_all (\<lambda>e. \<exists>m \<in> set ms. may_send w2 m (LEv e)) u"
      using evolves_events [OF ev] by blast
    have "w_clock w2 \<le> w_clock w'" using ev by (rule evolves_clock)
    then have "\<exists>row \<in> set (t_outbound (w_db w)). om_retry row < 10 \<and> due (w_clock w') row
        \<and> sends_for w (outbound_message.truncate row) (EvJmap c (Submit d))"
      if "EvJmap c (Submit d) \<in> set u" for c d
      using round_sends [OF g [unfolded Ok] w1(3) that u(2)] w1(2) due_later by metis
    then show ?thesis using u(1) e2 w1(1) by (intro exI [of _ u]) simp
  qed (use assms s g e2 w1 in \<open>simp_all add: retry_round_def andthen_def bind_def attempt_def ret_def\<close>)
qed

text \<open>C4: every mail that a round of the worker submits is the body of a message that was in the
  queue when the round began, due and with fewer than ten attempts, sent to the contact its room is
  mapped to and to nobody else, through the session of the user who wrote it.\<close>

theorem worker_sends_only_queued:
  assumes "retry_round E w = (r, w')"
  shows "\<exists>u. w_trace w' = u @ w_trace w \<and> (\<forall>c d. EvJmap c (Submit d) \<in> set u \<longrightarrow>
    (\<exists>row \<in> set (t_outbound (w_db w)). om_retry row < 10 \<and> due (w_clock w') row
      \<and> client_of (om_user row) w = Some c
      \<and> map_option gr_email (ghost_of (om_room row) (w_db w)) = Some (dr_to d)
      \<and> starts_with (dr_body d) (om_body row) \<and> snd (dr_envelope d) = [dr_to d]))"
  using round_submits [OF assms] unfolding sends_for_def by (simp add: outbound_message.defs)

text \<open>A mail server that takes mail, and a world in which the queued message can go.\<close>

definition mail_env :: env where
  "mail_env = sample_env\<lparr>e_jmap := quiet_jmap\<lparr>e_ids := \<lambda>_. JGot [''sent''],
     e_submit := \<lambda>_. Inr (CCreated (Some ''M9''), CCreated ())\<rparr>\<rparr>"

definition mail_world :: world where
  "mail_world = sample_world\<lparr>w_clients := [(''@a:x.org'', sample_client)],
     w_db := sample_db\<lparr>t_ghosts := [\<lparr>gr_room = ''!r:x.org'', gr_email = ''b@y.org'', gr_last = None,
       gr_user = ''@a:x.org''\<rparr>]\<rparr>\<rparr>"

lemma mail_sent: "list_ex is_submit (w_trace (snd (retry_round mail_env mail_world)))"
  by code_simp

theorem worker_sends_only_queued_witness:
  "\<exists>c d. EvJmap c (Submit d) \<in> set (w_trace (snd (retry_round mail_env mail_world)))
     \<and> snd (dr_envelope d) = [''b@y.org''] \<and> starts_with (dr_body d) ''hello''"
proof -
  obtain e where e: "e \<in> set (w_trace (snd (retry_round mail_env mail_world)))" "is_submit e"
    using mail_sent by (auto simp: list_ex_iff)
  then obtain c d where cd: "e = EvJmap c (Submit d)" by (cases e rule: is_submit.cases) auto
  obtain u where u: "w_trace (snd (retry_round mail_env mail_world)) = u @ w_trace mail_world"
    "\<forall>c d. EvJmap c (Submit d) \<in> set u \<longrightarrow>
      (\<exists>row \<in> set (t_outbound (w_db mail_world)). om_retry row < 10
        \<and> due (w_clock (snd (retry_round mail_env mail_world))) row
        \<and> client_of (om_user row) mail_world = Some c
        \<and> map_option gr_email (ghost_of (om_room row) (w_db mail_world)) = Some (dr_to d)
        \<and> starts_with (dr_body d) (om_body row) \<and> snd (dr_envelope d) = [dr_to d])"
    using worker_sends_only_queued [OF surjective_pairing, of mail_env mail_world] by blast
  have "w_trace mail_world = []" "set (t_outbound (w_db mail_world)) = {sample_row}"
    "ghost_of (om_room sample_row) (w_db mail_world) = Some \<lparr>gr_room = ''!r:x.org'', gr_email = ''b@y.org'',
       gr_last = None, gr_user = ''@a:x.org''\<rparr>" "om_body sample_row = ''hello''"
    by (simp_all add: mail_world_def sample_defs ghost_of_def find_row_def)
  then show ?thesis using u e cd by fastforce
qed

end
