(* ===== verification/Net.thy ===== *)
theory Net
  imports Actions
begin

text \<open>
  Fetching a URL an attacker may have chosen, \<^verbatim>\<open>src/src/net.rs\<close>: which addresses may be
  dialled, and the fetch that checks the host again on every redirect. Name resolution, URL
  parsing and the HTTP client are parameters.
\<close>

unbundle bit_operations_syntax

section \<open>Public addresses\<close>

definition v4_special :: "8 word \<Rightarrow> 8 word \<Rightarrow> 8 word \<Rightarrow> 8 word \<Rightarrow> bool" where
  "v4_special a b c d \<longleftrightarrow>
     a = 127
     \<or> (a = 10 \<or> a = 172 \<and> 16 \<le> b \<and> b \<le> 31 \<or> a = 192 \<and> b = 168)
     \<or> (a = 169 \<and> b = 254)
     \<or> (a = 0 \<and> b = 0 \<and> c = 0 \<and> d = 0)
     \<or> (a = 255 \<and> b = 255 \<and> c = 255 \<and> d = 255)
     \<or> (224 \<le> a \<and> a \<le> 239)
     \<or> (a = 192 \<and> b = 0 \<and> c = 2 \<or> a = 198 \<and> b = 51 \<and> c = 100 \<or> a = 203 \<and> b = 0 \<and> c = 113)
     \<or> (a = 100 \<and> b AND 0xc0 = 64)"

text \<open>\<^verbatim>\<open>to_ipv4_mapped\<close>: \<^verbatim>\<open>::ffff:a.b.c.d\<close>\<close>

definition v4_mapped :: "16 word list \<Rightarrow> (8 word \<times> 8 word \<times> 8 word \<times> 8 word) option" where
  "v4_mapped segs = (case segs of
     [s0, s1, s2, s3, s4, s5, s6, s7] \<Rightarrow>
       if s0 = 0 \<and> s1 = 0 \<and> s2 = 0 \<and> s3 = 0 \<and> s4 = 0 \<and> s5 = 0xffff
       then Some (ucast (drop_bit 8 s6), ucast s6, ucast (drop_bit 8 s7), ucast s7) else None
   | _ \<Rightarrow> None)"

definition v6_special :: "16 word list \<Rightarrow> bool" where
  "v6_special segs \<longleftrightarrow>
     segs = [0, 0, 0, 0, 0, 0, 0, 1]
     \<or> segs = [0, 0, 0, 0, 0, 0, 0, 0]
     \<or> hd segs AND 0xff00 = 0xff00
     \<or> hd segs AND 0xfe00 = 0xfc00
     \<or> hd segs AND 0xffc0 = 0xfe80"

fun is_public :: "ip \<Rightarrow> bool" where
  "is_public (V4 a b c d) = (\<not> v4_special a b c d)"
| "is_public (V6 segs) = (case v4_mapped segs of
     Some (a, b, c, d) \<Rightarrow> \<not> v4_special a b c d
   | None \<Rightarrow> \<not> v6_special segs)"

section \<open>The guarded fetch\<close>

definition assert_public_url :: "url \<Rightarrow> unit act" where
  "assert_public_url u =
     andthen (ensure (u_scheme u = ''http'' \<or> u_scheme u = ''https'') ''unsupported URL scheme'')
     (bind (need ''URL has no host'' (u_host u)) (\<lambda>host.
     bind (call (EvLookup host) (\<lambda>E. e_dns (e_net E))) (\<lambda>r.
     bind (need ''could not resolve host'' r) (\<lambda>addrs.
     andthen (ensure (list_all is_public addrs) ''URL host resolves to a non-public address'')
     (ensure (addrs \<noteq> []) ''host did not resolve to any address'')))))"

definition redirect_location :: "nat \<Rightarrow> (string \<times> string) list \<Rightarrow> string option option" where
  "redirect_location st hs = (if 300 \<le> st \<and> st < 400 then Some (map_of hs ''location'') else None)"

text \<open>One hop per remaining attempt.\<close>

primrec get_hops :: "nat \<Rightarrow> url \<Rightarrow> (nat \<times> (string \<times> string) list \<times> string) act" where
  "get_hops 0 u = fail (Other ''too many redirects'')"
| "get_hops (Suc n) u =
     andthen (assert_public_url u)
     (bind (call (EvFetch (u_text u)) (\<lambda>E. e_fetch (e_net E))) (\<lambda>r. case r of
       HttpErr m \<Rightarrow> fail (Other m)
     | HttpResp st hs body \<Rightarrow> (case redirect_location st hs of
         None \<Rightarrow> ret (st, hs, body)
       | Some l \<Rightarrow>
           bind (need ''redirect without a valid Location header'' l) (\<lambda>location.
           bind (asks (\<lambda>E. l_join (e_lib E) u location)) (\<lambda>next_url.
           bind (need ''invalid redirect Location'' next_url) (get_hops n))))))"

definition safe_get :: "string \<Rightarrow> nat \<Rightarrow> (nat \<times> (string \<times> string) list \<times> string) act" where
  "safe_get text max_redirects =
     bind (asks (\<lambda>E. l_url (e_lib E) text)) (\<lambda>u.
     bind (need ''invalid URL'' u) (get_hops (max_redirects + 1)))"

section \<open>Frames\<close>

definition fetches :: "label \<Rightarrow> bool" where
  "fetches l \<longleftrightarrow> (case l of LEv (EvLookup _) \<Rightarrow> True | LEv (EvFetch _) \<Rightarrow> True | _ \<Rightarrow> False)"

lemma get_hops_evolves:
  "(\<forall>h. K (LEv (EvLookup h))) \<Longrightarrow> (\<forall>u. K (LEv (EvFetch u))) \<Longrightarrow> within (evolves K) (get_hops n u)"
proof (induction n arbitrary: u)
  case (Suc n)
  then show ?case unfolding get_hops.simps assert_public_url_def
    by (intro frame_rules; simp)
qed (auto intro: frame_rules)

lemma safe_get_evolves [frame_rules]:
  "(\<forall>h. K (LEv (EvLookup h))) \<Longrightarrow> (\<forall>u. K (LEv (EvFetch u))) \<Longrightarrow> within (evolves K) (safe_get t n)"
  unfolding safe_get_def by (intro frame_rules get_hops_evolves)

lemma safe_get_calm [calm_rules]: "calm (safe_get t n)"
proof -
  have "calm (get_hops n u)" for n u
    by (induction n arbitrary: u) (auto intro!: calm_rules simp: assert_public_url_def)
  then show ?thesis unfolding safe_get_def by (intro calm_rules)
qed

end
