(* ===== verification/Images.thy ===== *)
theory Images
  imports Net Sync_Email Sessions
begin

text \<open>
  Loading the remote images of one message on request, \<^verbatim>\<open>src/src/services/images.rs\<close>.
\<close>

definition may_act :: "mxid \<Rightarrow> bool act" where
  "may_act user = asks (\<lambda>E. level_for (c_perms (e_cfg E)) user \<noteq> None)"

definition is_load_images_reaction :: "string \<Rightarrow> bool" where
  "is_load_images_reaction key = List.member (utf8_chars key) 0x1F5BC"

definition max_images :: nat where
  "max_images = 20"

definition max_image_bytes :: nat where
  "max_image_bytes = 5 * 1024 * 1024"

definition content_mime :: "(string \<times> string) list \<Rightarrow> string" where
  "content_mime hs = (case header ''content-type'' hs of
     Some v \<Rightarrow> trim (hd (split_char (CHR '';'') v)) | None \<Rightarrow> [])"

definition declared_length :: "(string \<times> string) list \<Rightarrow> nat option" where
  "declared_length hs = Option.bind (header ''content-length'' hs) parse_usize"

definition fetch_and_upload :: "mxid \<Rightarrow> string \<Rightarrow> string act" where
  "fetch_and_upload ghost url =
     bind (safe_get url 3) (\<lambda>(st, hs, bytes).
     andthen (ensure (is_success st) ''HTTP error'')
     (andthen (ensure (starts_with (content_mime hs) ''image/'') ''not an image'')
     (andthen (ensure (case declared_length hs of Some n \<Rightarrow> n \<le> max_image_bytes | None \<Rightarrow> True) ''image too large'')
     (andthen (ensure (length bytes \<le> max_image_bytes) ''image too large'')
     (upload_media ghost bytes (content_mime hs))))))"

text \<open>The map from the URLs that loaded to their \<^verbatim>\<open>mxc\<close> URIs.\<close>

primrec load_all :: "mxid \<Rightarrow> remote_img list \<Rightarrow> (string \<times> string) list \<Rightarrow> (string \<times> string) list act" where
  "load_all ghost [] acc = ret acc"
| "load_all ghost (img # imgs) acc =
     bind (attempt (fetch_and_upload ghost (decode_src_entities (ri_url img)))) (\<lambda>r. case r of
       Inr mxc \<Rightarrow> load_all ghost imgs (AList.update (ri_url img) mxc acc)
     | Inl _ \<Rightarrow> load_all ghost imgs acc)"

definition loadable :: "string \<Rightarrow> remote_img list" where
  "loadable html = take max_images (filter (\<lambda>i. \<not> ri_decorative i) (extract_remote_images html))"

definition inline_email_images :: "room_id \<Rightarrow> event_id \<Rightarrow> mxid \<Rightarrow> string \<Rightarrow> string \<Rightarrow> unit act" where
  "inline_email_images room target ghost html plain =
     (if loadable html = [] then ret ()
      else bind (load_all ghost (loadable html) []) (\<lambda>url_to_mxc.
        if url_to_mxc = [] then ret ()
        else bind (asks (\<lambda>E. render_inline_images (e_lib E) html url_to_mxc)) (\<lambda>rich.
          bind (send_edit_as room target plain rich ghost) (\<lambda>_. ret ()))))"

definition fetch_email :: "jclient \<Rightarrow> email_id \<Rightarrow> email option act" where
  "fetch_email c email =
     bind (jcall c (GEmails GetBodies [email]) e_emails) (\<lambda>r.
     bind (junwrap ''Email/get failed'' r) (\<lambda>l. ret (case l of [] \<Rightarrow> None | e # _ \<Rightarrow> Some e)))"

definition load_images_of :: "room_id \<Rightarrow> event_id \<Rightarrow> mxid \<Rightarrow> email \<Rightarrow> unit act" where
  "load_images_of room target ghost e = (case original_html e of
     None \<Rightarrow> ret ()
   | Some html \<Rightarrow>
       bind (asks (\<lambda>E. eb_plain (from_email (e_lib E) e RenderPlain))) (\<lambda>plain.
       inline_email_images room target ghost html plain))"

definition handle_load_images :: "mxid \<Rightarrow> room_id \<Rightarrow> event_id \<Rightarrow> unit act" where
  "handle_load_images sender room target =
     bind (may_act sender) (\<lambda>ok.
     if \<not> ok then ret ()
     else bind (get_email_id_from_event_id target) (\<lambda>email_id. case email_id of
       None \<Rightarrow> ret ()
     | Some email \<Rightarrow> bind (get_ghost_email_by_room room) (\<lambda>ghost_email. case ghost_email of
         None \<Rightarrow> ret ()
       | Some a \<Rightarrow>
           bind (asks (\<lambda>E. local_mxid (email_to_localpart (l_lower (e_lib E)) a) (c_domain (e_cfg E)))) (\<lambda>ghost.
           bind (get_client sender) (\<lambda>client. case client of
             None \<Rightarrow> ret ()
           | Some c \<Rightarrow> bind (fetch_email c email) (\<lambda>e. case e of
               None \<Rightarrow> ret ()
             | Some em \<Rightarrow> load_images_of room target ghost em))))))"

section \<open>Frames\<close>

definition allows_fetch :: "(label \<Rightarrow> bool) \<Rightarrow> bool" where
  "allows_fetch K \<longleftrightarrow> (\<forall>h. K (LEv (EvLookup h))) \<and> (\<forall>u. K (LEv (EvFetch u)))"

lemma may_act_evolves [frame_rules]: "within (evolves K) (may_act u)"
  unfolding may_act_def by (intro frame_rules)

lemma load_all_evolves [frame_rules]:
  "allows_ghost K \<Longrightarrow> allows_fetch K \<Longrightarrow> within (evolves K) (load_all g l acc)"
proof (induction l arbitrary: acc)
  case (Cons i l)
  then show ?case unfolding load_all.simps fetch_and_upload_def
    by (intro frame_rules; simp add: allows_fetch_def allows_ghost_def)
qed (auto intro: frame_rules)

lemma load_images_evolves [frame_rules]:
  "allows_ghost K \<Longrightarrow> allows_fetch K \<Longrightarrow> allows_jread K \<Longrightarrow> within (evolves K) (handle_load_images u r e)"
  unfolding handle_load_images_def get_client_def fetch_email_def load_images_of_def inline_email_images_def
  by (intro frame_rules; simp)

lemma load_images_calm [calm_rules]: "calm (handle_load_images u r e)"
proof -
  have "calm (load_all g l acc)" for g l acc
    by (induction l arbitrary: acc) (auto intro!: calm_rules simp: fetch_and_upload_def)
  then show ?thesis
    unfolding handle_load_images_def may_act_def get_client_def fetch_email_def load_images_of_def
      inline_email_images_def
    by (intro calm_rules)
qed

end
