(* ===== verification/Ghost.thy ===== *)
theory Ghost
  imports Images Retry
begin

text \<open>
  Messages in a contact's room, the second half of \<^verbatim>\<open>src/src/ghost.rs\<close>: the text commands,
  queueing a message with its thread context for the worker, media, and moving a whole thread
  to Trash or Junk.
\<close>

section \<open>Text commands\<close>

datatype ghost_command = ShowImages | DeleteRoom | Spam

definition ghost_command_of :: "string \<Rightarrow> ghost_command option" where
  "ghost_command_of t =
     (if t = ''show-images'' \<or> t = ''!show-images'' then Some ShowImages
      else if t = ''delete-room'' \<or> t = ''!delete-room'' then Some DeleteRoom
      else if t = ''spam'' \<or> t = ''!spam'' then Some Spam
      else None)"

definition parse_ghost_command :: "(string \<Rightarrow> string) \<Rightarrow> string \<Rightarrow> ghost_command option" where
  "parse_ghost_command strip_fallback body = ghost_command_of (trim (strip_fallback body))"

definition reply_target_event :: "relation option \<Rightarrow> event_id option" where
  "reply_target_event rel = (case rel of
     Some (RelReply e) \<Rightarrow> Some e | Some (RelThread e) \<Rightarrow> Some e | _ \<Rightarrow> None)"

section \<open>Thread context\<close>

text \<open>Thread, parent email, root event, latest event and subject.\<close>

type_synonym thread_context = "thread_id \<times> email_id \<times> event_id \<times> event_id option \<times> string"

definition encode_thread_root :: "thread_context \<Rightarrow> string" where
  "encode_thread_root ctx = (case ctx of (thread, parent, root, _, _) \<Rightarrow>
     thread @ [thread_queue_separator] @ parent @ [thread_queue_separator] @ root)"

definition latest_of :: "(event_id \<times> room_id \<times> event_id option) option \<Rightarrow> event_id option" where
  "latest_of info = Option.bind info (\<lambda>(_, _, latest). latest)"

definition default_subject :: "string option \<Rightarrow> string" where
  "default_subject s = (case s of Some t \<Rightarrow> t | None \<Rightarrow> ''No Subject'')"

definition known_context :: "event_id \<Rightarrow> email_id \<Rightarrow> thread_id \<Rightarrow> thread_context act" where
  "known_context event parent thread =
     bind (get_thread_subject event) (\<lambda>subject.
     bind (get_thread_info thread) (\<lambda>info.
     ret (thread, parent, event, latest_of info, default_subject subject)))"

definition looked_up_context :: "event_id \<Rightarrow> email_id \<Rightarrow> thread_id \<Rightarrow> thread_context act" where
  "looked_up_context event parent thread =
     bind (get_thread_info thread) (\<lambda>info.
     let root = (case info of Some (r, _, _) \<Rightarrow> r | None \<Rightarrow> event) in
     bind (get_thread_subject root) (\<lambda>subject.
     ret (thread, parent, root, latest_of info, default_subject subject)))"

text \<open>From the event the message replies to: by its root, or by asking the mail server.\<close>

definition relation_context :: "jclient \<Rightarrow> event_id option \<Rightarrow> thread_context option act" where
  "relation_context c target = (case target of
     None \<Rightarrow> ret None
   | Some event \<Rightarrow>
       bind (attempt (get_email_id_from_event_id event)) (\<lambda>p. case p of
         Inr (Some parent) \<Rightarrow>
           bind (attempt (get_jmap_thread_id_by_root_event event)) (\<lambda>t. case t of
             Inr (Some thread) \<Rightarrow> bind (known_context event parent thread) (\<lambda>x. ret (Some x))
           | _ \<Rightarrow>
               bind (attempt (try_resolve_thread c parent)) (\<lambda>j. case j of
                 Inr (Some thread) \<Rightarrow> bind (looked_up_context event parent thread) (\<lambda>x. ret (Some x))
               | _ \<Rightarrow> ret None))
       | _ \<Rightarrow> ret None))"

definition room_context :: "room_id \<Rightarrow> thread_context option act" where
  "room_context room =
     bind (attempt (get_latest_thread_in_room room)) (\<lambda>r. case r of
       Inr (Some (thread, root, subject)) \<Rightarrow>
         bind (attempt (get_last_email_id_by_room room)) (\<lambda>p.
         let parent = (case p of Inr (Some i) \<Rightarrow> i | _ \<Rightarrow> []) in
         bind (get_thread_info thread) (\<lambda>info.
         ret (Some (thread, parent, root, latest_of info, default_subject subject))))
     | _ \<Rightarrow> ret None)"

definition resolve_thread_context :: "room_id \<Rightarrow> relation option \<Rightarrow> jclient \<Rightarrow> thread_context option act" where
  "resolve_thread_context room rel c =
     bind (relation_context c (reply_target_event rel)) (\<lambda>ctx. case ctx of
       Some x \<Rightarrow> ret (Some x)
     | None \<Rightarrow> room_context room)"

section \<open>Queueing\<close>

definition send_hint_key :: "room_id \<Rightarrow> string" where
  "send_hint_key room = ''send_hint:'' @ room"

definition hold_hint :: "int \<Rightarrow> string" where
  "hold_hint delay = ''Your messages are held '' @ show_int delay @ ''s before sending: '' @ held_mark @
     '' = waiting (redact to undo, edit to change), '' @ submitted_mark @ '' = sent, '' @ failed_mark @
     '' = failed. Change the window with `send-delay`.''"

definition maybe_send_hold_hint :: "mxid \<Rightarrow> room_id \<Rightarrow> int \<Rightarrow> unit act" where
  "maybe_send_hold_hint sender room delay =
     bind (attempt (get_jmap_state sender (send_hint_key room))) (\<lambda>r. case r of
       Inr (Some _) \<Rightarrow> ret ()
     | _ \<Rightarrow>
         andthen (notify (Some room) (hold_hint delay))
         (ignore (save_jmap_state sender (send_hint_key room) ''1'')))"

definition enqueue_held_send ::
    "mxid \<Rightarrow> room_id \<Rightarrow> event_id \<Rightarrow> string \<Rightarrow> string option \<Rightarrow> string option \<Rightarrow> unit act" where
  "enqueue_held_send sender room event body thread_root atts =
     bind (send_delay_for sender) (\<lambda>delay.
     andthen (add_to_outbound_queue sender room event body None thread_root atts delay)
     (if 0 < delay
      then andthen (mark_held sender room event) (maybe_send_hold_hint sender room delay)
      else ret ()))"

definition not_logged_in :: string where
  "not_logged_in = ''You are not logged in. Please type `login` in your private bridge room to connect your account.''"

definition queue_text :: "mxid \<Rightarrow> message_content \<Rightarrow> room_id \<Rightarrow> event_id \<Rightarrow> unit act" where
  "queue_text sender content room event =
     bind (attempt (append_user_signature sender (msg_body (mc_type content)))) (\<lambda>s.
     let body = (case s of Inr b \<Rightarrow> b | Inl _ \<Rightarrow> msg_body (mc_type content)) in
     bind (get_client sender) (\<lambda>client. case client of
       None \<Rightarrow> notify (Some room) not_logged_in
     | Some c \<Rightarrow>
         bind (resolve_thread_context room (mc_relates content) c) (\<lambda>ctx.
         enqueue_held_send sender room event body (map_option encode_thread_root ctx) None)))"

section \<open>Moving a thread\<close>

definition is_trash_reaction :: "string \<Rightarrow> bool" where
  "is_trash_reaction key = List.member (utf8_chars key) 0x1F5D1"

definition is_junk_reaction :: "string \<Rightarrow> bool" where
  "is_junk_reaction key = List.member (utf8_chars key) 0x1F6AB"

text \<open>
  \<open>None\<close>: the server could not move the thread and said so; otherwise whether the account
  has a mailbox for the role.
\<close>

definition move_latest_thread :: "jclient \<Rightarrow> room_id \<Rightarrow> mailbox_role \<Rightarrow> bool option act" where
  "move_latest_thread c room role =
     bind (get_latest_thread_in_room room) (\<lambda>latest. case latest of
       None \<Rightarrow> ret (Some True)
     | Some (thread, _, _) \<Rightarrow>
         bind (attempt (move_thread_to_role c thread role)) (\<lambda>r. case r of
           Inr had \<Rightarrow> ret (Some had)
         | Inl _ \<Rightarrow> ret None))"

definition leave_all :: "room_id \<Rightarrow> addr option \<Rightarrow> unit act" where
  "leave_all room ghost_email =
     bind bot_user_id (\<lambda>bot.
     andthen (ignore (leave_room room bot))
     (case ghost_email of
        None \<Rightarrow> ret ()
      | Some a \<Rightarrow>
          bind (asks (\<lambda>E. local_mxid (email_to_localpart (l_lower (e_lib E)) a) (c_domain (e_cfg E)))) (\<lambda>ghost.
          ignore (leave_room room ghost))))"

definition moved_msg :: "bool \<Rightarrow> string \<Rightarrow> string" where
  "moved_msg had_mailbox label =
     (if had_mailbox then ''Moved this conversation to '' @ label @ '' and unbridged the room.''
      else ''No '' @ label @ '' mailbox on your account, so I unbridged this room locally but couldn'' @ [CHR 0x27] @ ''t move the mail server-side.'')"

definition unmoved_msg :: "string \<Rightarrow> string" where
  "unmoved_msg label = ''Couldn'' @ [CHR 0x27] @ ''t move this conversation to '' @ label @
     '' (server error) '' @ em_dash @ '' nothing changed. Try again.''"

definition thread_action_with :: "jclient \<Rightarrow> room_id \<Rightarrow> mailbox_role \<Rightarrow> string \<Rightarrow> unit act" where
  "thread_action_with c room role label =
     bind (get_ghost_email_by_room room) (\<lambda>ghost_email.
     bind (move_latest_thread c room role) (\<lambda>moved. case moved of
       None \<Rightarrow> notify (Some room) (unmoved_msg label)
     | Some had_mailbox \<Rightarrow>
         andthen (unbridge_room room)
         (andthen (leave_all room ghost_email)
         (notify (Some room) (moved_msg had_mailbox label)))))"

definition handle_thread_action :: "mxid \<Rightarrow> room_id \<Rightarrow> mailbox_role \<Rightarrow> string \<Rightarrow> unit act" where
  "handle_thread_action sender room role label =
     bind (may_act sender) (\<lambda>ok.
     if \<not> ok then ret ()
     else bind (get_client sender) (\<lambda>client. case client of
       None \<Rightarrow> notify (Some room) ''You are not logged in.''
     | Some c \<Rightarrow> thread_action_with c room role label))"

section \<open>The handlers\<close>

definition show_images_hint :: string where
  "show_images_hint = ''Reply to the email message with `show-images` (or react '' @ img_marker @ '') to load its images.''"

definition handle_show_images :: "mxid \<Rightarrow> room_id \<Rightarrow> message_content \<Rightarrow> unit act" where
  "handle_show_images sender room content =
     bind (may_act sender) (\<lambda>ok.
     if \<not> ok then ret ()
     else case reply_target_event (mc_relates content) of
       None \<Rightarrow> notify (Some room) show_images_hint
     | Some target \<Rightarrow> handle_load_images sender room target)"

definition handle_ghost_outbound :: "mxid \<Rightarrow> message_content \<Rightarrow> room_id \<Rightarrow> event_id \<Rightarrow> unit act" where
  "handle_ghost_outbound sender content room event =
     bind (asks (\<lambda>E. parse_ghost_command (l_strip_fallback (e_lib E)) (msg_body (mc_type content)))) (\<lambda>cmd.
     case cmd of
       Some ShowImages \<Rightarrow> handle_show_images sender room content
     | Some DeleteRoom \<Rightarrow> handle_thread_action sender room RoleTrash ''Trash''
     | Some Spam \<Rightarrow> handle_thread_action sender room RoleJunk ''Junk''
     | None \<Rightarrow> queue_text sender content room event)"

definition media_failed :: "string \<Rightarrow> string" where
  "media_failed limit = utf8_encode 0x26A0 @ utf8_encode 0xFE0F @
     '' Media attachment upload failed or size exceeded JMAP server upload limit ('' @ limit @ '').''"

definition handle_ghost_media_outbound :: "mxid \<Rightarrow> message_content \<Rightarrow> room_id \<Rightarrow> event_id \<Rightarrow> unit act" where
  "handle_ghost_media_outbound sender content room event =
     bind (get_client sender) (\<lambda>client. case client of
       None \<Rightarrow> notify (Some room) not_logged_in
     | Some c \<Rightarrow>
         bind (attempt (upload_matrix_media c content)) (\<lambda>r. case r of
           Inl e \<Rightarrow>
             andthen (notify (Some room) (media_failed (human_bytes (max_upload_size c)))) (fail e)
         | Inr att \<Rightarrow>
             bind (resolve_thread_context room (mc_relates content) c) (\<lambda>ctx.
             bind (asks (\<lambda>E. l_atts_json (e_lib E) [att])) (\<lambda>json.
             enqueue_held_send sender room event ''Sent an attachment from Matrix.''
               (map_option encode_thread_root ctx) (Some json)))))"

end
