(* ===== verification/Commands.thy ===== *)
theory Commands
  imports Ghost Content Poller Login_State Puppet_Login
begin

text \<open>
  The commands of the private bridge room, \<^verbatim>\<open>src/src/commands.rs\<close> and
  \<^verbatim>\<open>src/src/commands/*.rs\<close>: the router, the permission gate in front of it, every command,
  and the interactive login flow.
\<close>

record command_context =
  cx_sender :: mxid
  cx_body :: string
  cx_room :: "room_id option"
  cx_event :: "event_id option"
  cx_content :: message_content

definition apostrophe :: string where
  "apostrophe = [CHR 0x27]"

definition say :: "command_context \<Rightarrow> string \<Rightarrow> unit act" where
  "say cx msg = notify (cx_room cx) msg"

section \<open>Help, status, logout, sync\<close>

definition matches_help :: "command_context \<Rightarrow> bool" where
  "matches_help cx = (let t = trim (cx_body cx) in t = ''help'' \<or> t = ''!help'')"

definition help_text :: string where
  "help_text = ''Available commands:'' @ nl @ nl @
     ''login - Start interactive login'' @ nl @
     ''logout - Disconnect your JMAP account (keeps your rooms)'' @ nl @
     ''status - Show bridge connection/sync status (alias: ping)'' @ nl @
     ''sync - Reconcile mail now and re-file your rooms into the email space'' @ nl @
     ''help - Show this message'' @ nl @
     ''signature <text> - Set custom signature'' @ nl @
     ''signature clear - Clear signature'' @ nl @
     ''!compose <address> [subject] - Start a new email conversation (then just type)'' @ nl @
     ''!email <to> <subject> <body> - Send a one-off email'' @ nl @
     ''show-images - In an email room, reply to a message with this (or react '' @ img_marker @
       '') to load its remote images'' @ nl @
     ''delete-room - In an email room, move the whole thread to Trash and unbridge it (or react '' @
       utf8_encode 0x1F5D1 @ '')'' @ nl @
     ''spam - In an email room, move the whole thread to Junk and unbridge it (or react '' @
       utf8_encode 0x1F6AB @ '')''"

definition execute_help :: "command_context \<Rightarrow> unit act" where
  "execute_help cx = say cx help_text"

definition matches_status :: "command_context \<Rightarrow> bool" where
  "matches_status cx = (let t = trim (cx_body cx) in
     t = ''status'' \<or> t = ''!status'' \<or> t = ''ping'' \<or> t = ''!ping'')"

definition status_report :: "bool \<Rightarrow> string \<Rightarrow> nat \<Rightarrow> nat \<Rightarrow> bool \<Rightarrow> string" where
  "status_report connected last_sync queued rooms double_puppet = (let b = utf8_encode 0x2022 in
     ''Bridge status:'' @ nl @
     b @ '' JMAP session: '' @ (if connected then ''connected'' else ''disconnected (reconnecting)'') @ nl @
     b @ '' Last sync: '' @ last_sync @ nl @
     b @ '' Pending outbound: '' @ show_nat queued @ nl @
     b @ '' Bridged rooms: '' @ show_nat rooms @ nl @
     b @ '' Double-puppet: '' @ (if double_puppet then ''on'' else ''off''))"

definition login_first :: string where
  "login_first = ''Not logged in. Type `login` to connect your JMAP account.''"

definition execute_status :: "command_context \<Rightarrow> unit act" where
  "execute_status cx = (let user = cx_sender cx in
     bind (get_user user) (\<lambda>u.
     if u = None then say cx login_first
     else bind (get_client user) (\<lambda>client.
       bind (get_last_sync user) (\<lambda>last_sync.
       bind (count_outbound_queue user) (\<lambda>queued.
       bind (count_bridged_rooms user) (\<lambda>rooms.
       bind (get_matrix_puppet_token user) (\<lambda>token.
       say cx (status_report (client \<noteq> None) (case last_sync of Some t \<Rightarrow> t | None \<Rightarrow> ''never'')
         queued rooms (token \<noteq> None)))))))))"

definition matches_logout :: "command_context \<Rightarrow> bool" where
  "matches_logout cx = (let t = trim (cx_body cx) in t = ''logout'' \<or> t = ''!logout'')"

definition logged_out_msg :: string where
  "logged_out_msg = ''Logged out. Your rooms are kept '' @ em_dash @
     '' type `login` to reconnect. Any unsent mail was discarded.''"

definition logout_failed_msg :: string where
  "logout_failed_msg = ''Logout failed '' @ em_dash @ '' please try again or contact the operator.''"

definition execute_logout :: "command_context \<Rightarrow> unit act" where
  "execute_logout cx = (let user = cx_sender cx in
     bind (get_client user) (\<lambda>client.
     bind (if client = None then bind (get_user user) (\<lambda>u. ret (u = None)) else ret False) (\<lambda>absent.
     if absent then say cx ''You are not logged in.''
     else bind (attempt (logout user)) (\<lambda>r. case r of
         Inl _ \<Rightarrow> say cx logout_failed_msg
       | Inr _ \<Rightarrow> say cx logged_out_msg))))"

text \<open>\<^verbatim>\<open>ClientManager::poll_now\<close> and \<^verbatim>\<open>repair_space\<close>, which \<^verbatim>\<open>sync\<close> runs one after the other.\<close>

definition poll_now :: "mxid \<Rightarrow> unit act" where
  "poll_now user = bind (get_client user) (\<lambda>client.
     bind (need ''no active JMAP session'' client) (\<lambda>c. poll user c))"

definition matches_sync :: "command_context \<Rightarrow> bool" where
  "matches_sync cx = (let t = trim (cx_body cx) in t = ''sync'' \<or> t = ''!sync'')"

definition synced_msg :: string where
  "synced_msg = ''Sync complete '' @ em_dash @ '' reconciled mail and re-filed your rooms into the email space.''"

definition execute_sync :: "command_context \<Rightarrow> unit act" where
  "execute_sync cx = (let user = cx_sender cx in
     bind (get_client user) (\<lambda>client.
     if client = None then say cx login_first
     else andthen (say cx (''Syncing'' @ ellipsis))
       (andthen (ignore (poll_now user))
       (andthen (ignore (repair_email_space user))
       (say cx synced_msg)))))"

section \<open>The send delay\<close>

definition matches_send_delay :: "command_context \<Rightarrow> bool" where
  "matches_send_delay cx = (let t = trim (cx_body cx) in
     t = ''send-delay'' \<or> t = ''!send-delay'' \<or> starts_with t ''send-delay '' \<or> starts_with t ''!send-delay '')"

definition send_delay_arg :: "string \<Rightarrow> string" where
  "send_delay_arg body =
     trim (trim_start_matches (trim_start_matches (trim body) ''!'') ''send-delay'')"

definition en_dash :: string where
  "en_dash = utf8_encode 0x2013"

definition send_delay_is :: "int \<Rightarrow> string" where
  "send_delay_is n = ''Send delay is '' @ show_int n @ ''s. Use `send-delay <seconds>` (0'' @ en_dash @
     show_int max_send_delay_secs @ '') or `send-delay off`.''"

definition send_delay_set :: "int \<Rightarrow> string" where
  "send_delay_set n = (if n = 0
     then ''Send delay turned off '' @ em_dash @ '' mail sends immediately. Redact a message to unsend only while it'' @
       apostrophe @ ''s still queued.''
     else ''Send delay set to '' @ show_int n @ ''s. Redact within the window to unsend, or edit to change the text.'')"

text \<open>The delay an argument asks for; \<open>Inl\<close> is the answer to one that is refused.\<close>

definition send_delay_of :: "string \<Rightarrow> string + int" where
  "send_delay_of arg =
     (if eq_ignore_ascii_case arg ''off'' then Inr 0
      else case parse_i64 arg of
        Some n \<Rightarrow> if 0 \<le> n \<and> n \<le> max_send_delay_secs then Inr n
          else Inl (''Send delay must be between 0 and '' @ show_int max_send_delay_secs @ '' seconds.'')
      | None \<Rightarrow> Inl ''Usage: `send-delay <seconds>` or `send-delay off`.'')"

definition execute_send_delay :: "command_context \<Rightarrow> unit act" where
  "execute_send_delay cx = (let arg = send_delay_arg (cx_body cx) in
     if arg = [] then bind (send_delay_for (cx_sender cx)) (\<lambda>n. say cx (send_delay_is n))
     else case send_delay_of arg of
       Inl msg \<Rightarrow> say cx msg
     | Inr secs \<Rightarrow> bind (attempt (set_send_delay (cx_sender cx) secs)) (\<lambda>r. case r of
         Inl _ \<Rightarrow> say cx ''Failed to save send delay.''
       | Inr _ \<Rightarrow> say cx (send_delay_set secs)))"

section \<open>Signature\<close>

definition matches_signature :: "command_context \<Rightarrow> bool" where
  "matches_signature cx \<longleftrightarrow> starts_with (cx_body cx) ''!signature'' \<or> starts_with (cx_body cx) ''signature''"

definition signature_args :: "string \<Rightarrow> string" where
  "signature_args body = (let t = trim body in
     if starts_with t ''!signature''
     then trim (case strip_prefix t ''!signature'' of Some r \<Rightarrow> r | None \<Rightarrow> [])
     else trim (case strip_prefix t ''signature'' of Some r \<Rightarrow> r | None \<Rightarrow> []))"

definition quoted_with :: "char \<Rightarrow> string \<Rightarrow> bool" where
  "quoted_with q s \<longleftrightarrow> starts_with s [q] \<and> ends_with s [q]"

text \<open>
  \<^verbatim>\<open>&args[1..args.len() - 1]\<close> of a quoted text. A lone quote is its own start and end, and
  the slice \<^verbatim>\<open>[1..0]\<close> panics.
\<close>

definition unquoted :: "string \<Rightarrow> string act" where
  "unquoted s = (if quoted_with (CHR 0x22) s \<or> quoted_with (CHR 0x27) s
     then (if length s < 2 then panic ''slice index starts at 1 but ends at 0''
       else ret (take (length s - 2) (drop 1 s)))
     else ret s)"

definition no_signature_msg :: string where
  "no_signature_msg = ''You currently have no signature configured.'' @ nl @ nl @
     ''To set one, type:'' @ nl @ ''signature <your signature text>''"

definition signature_intro :: string where
  "signature_intro = nl @ nl @ ''-- '' @ nl"

definition show_signature :: "command_context \<Rightarrow> unit act" where
  "show_signature cx = bind (attempt (get_user_signature (cx_sender cx))) (\<lambda>r. case r of
     Inr (Some s) \<Rightarrow> if s = [] then say cx no_signature_msg
       else say cx (''Your current signature is:'' @ signature_intro @ s)
   | Inr None \<Rightarrow> say cx no_signature_msg
   | Inl e \<Rightarrow> say cx (''Failed to fetch signature: '' @ err_text e))"

definition clear_signature :: "command_context \<Rightarrow> unit act" where
  "clear_signature cx = bind (attempt (delete_user_signature (cx_sender cx))) (\<lambda>r. case r of
     Inr _ \<Rightarrow> say cx ''Your signature has been successfully cleared!''
   | Inl e \<Rightarrow> say cx (''Failed to clear signature: '' @ err_text e))"

definition set_signature :: "command_context \<Rightarrow> string \<Rightarrow> unit act" where
  "set_signature cx args = bind (unquoted args) (\<lambda>text.
     bind (attempt (set_user_signature (cx_sender cx) text)) (\<lambda>r. case r of
       Inr _ \<Rightarrow> say cx (''Signature updated successfully!'' @ nl @ nl @
         ''It will appear on outbound emails as:'' @ signature_intro @ text)
     | Inl e \<Rightarrow> say cx (''Failed to set signature: '' @ err_text e)))"

definition execute_signature :: "command_context \<Rightarrow> unit act" where
  "execute_signature cx = (let args = signature_args (cx_body cx) in
     if args = [] then show_signature cx
     else if args = ''clear'' then clear_signature cx
     else set_signature cx args)"

section \<open>Compose and email\<close>

text \<open>The command as a whole word.\<close>

definition is_command_word :: "string \<Rightarrow> string \<Rightarrow> bool" where
  "is_command_word body name \<longleftrightarrow> body = name \<or>
     (case strip_prefix body name of None \<Rightarrow> False | Some rest \<Rightarrow> ws_len rest \<noteq> 0)"

definition matches_compose :: "command_context \<Rightarrow> bool" where
  "matches_compose cx = (let body = trim_start (cx_body cx) in
     is_command_word body ''!compose'' \<or> is_command_word body ''!email-to'')"

text \<open>\<^verbatim>\<open>splitn(2, char::is_whitespace)\<close>: the first word, and what follows one whitespace character.\<close>

definition split_first_ws :: "string \<Rightarrow> string \<times> string option" where
  "split_first_ws s = (case break_ws s of (w, r) \<Rightarrow>
     (w, if r = [] then None else Some (drop (ws_len r) r)))"

definition compose_rest :: "string \<Rightarrow> string option" where
  "compose_rest body = (case strip_prefix body ''!compose'' of
     Some r \<Rightarrow> Some r | None \<Rightarrow> strip_prefix body ''!email-to'')"

definition parse_compose :: "string \<Rightarrow> (addr \<times> string option) option" where
  "parse_compose body = Option.bind (compose_rest (trim_start body)) (\<lambda>r.
     case split_first_ws (trim_start r) of (w, more_text) \<Rightarrow>
       (let address = trim w in
        if address = [] then None
        else Some (address, case more_text of
            Some t \<Rightarrow> if trim t = [] then None else Some (trim t)
          | None \<Rightarrow> None)))"

definition looks_like_email :: "string \<Rightarrow> bool" where
  "looks_like_email a = (case split_char (CHR 0x40) a of
     [l, d] \<Rightarrow> l \<noteq> [] \<and> 3 \<le> length d \<and> List.member d (CHR ''.'')
       \<and> \<not> starts_with d ''.'' \<and> \<not> ends_with d ''.''
   | _ \<Rightarrow> False)"

definition session_first :: string where
  "session_first = ''You are not logged in. Type `login` to connect.''"

definition announce_conversation :: "command_context \<Rightarrow> room_id \<Rightarrow> addr \<Rightarrow> unit act" where
  "announce_conversation cx room address =
     andthen (notify (Some room) (''Opened a conversation with '' @ address @
       ''. Type your message here to send it as an email.''))
     (if cx_room cx \<noteq> Some room
      then say cx (''Opened a conversation with '' @ address @ '' '' @ em_dash @ '' open the new room to write.'')
      else ret ())"

definition open_conversation :: "command_context \<Rightarrow> addr \<Rightarrow> string option \<Rightarrow> unit act" where
  "open_conversation cx address subject =
     bind (attempt (create_contact_room (cx_sender cx) address address)) (\<lambda>r. case r of
       Inl e \<Rightarrow> say cx (''Couldn'' @ apostrophe @ ''t open a conversation with '' @ address @ '': '' @ err_text e)
     | Inr room \<Rightarrow>
         andthen (ignore (set_room_name room (clean_subject
           (case subject of Some s \<Rightarrow> s | None \<Rightarrow> ''Matrix Conversation''))))
         (announce_conversation cx room address))"

definition execute_compose :: "command_context \<Rightarrow> unit act" where
  "execute_compose cx = (case parse_compose (cx_body cx) of
     None \<Rightarrow> say cx ''Usage: !compose <address> [subject]''
   | Some (address, subject) \<Rightarrow>
       if \<not> looks_like_email address
       then say cx (apostrophe @ address @ apostrophe @ '' doesn'' @ apostrophe @ ''t look like an email address.'')
       else bind (get_client (cx_sender cx)) (\<lambda>client.
         if client = None then say cx session_first
         else open_conversation cx address subject))"

definition matches_email :: "command_context \<Rightarrow> bool" where
  "matches_email cx \<longleftrightarrow> starts_with (cx_body cx) ''!email ''"

text \<open>\<^verbatim>\<open>let _ = append_user_signature(..., &mut body)\<close>: on an error the body stays as it was.\<close>

definition signed_body :: "mxid \<Rightarrow> string \<Rightarrow> string act" where
  "signed_body user body = bind (attempt (append_user_signature user body)) (\<lambda>r.
     ret (case r of Inr b \<Rightarrow> b | Inl _ \<Rightarrow> body))"

definition send_one_off :: "command_context \<Rightarrow> addr \<Rightarrow> string \<Rightarrow> string \<Rightarrow> unit act" where
  "send_one_off cx to subject body =
     bind (get_client (cx_sender cx)) (\<lambda>client. case client of
       None \<Rightarrow> say cx session_first
     | Some c \<Rightarrow> bind (signed_body (cx_sender cx) body) (\<lambda>final.
         bind (attempt (send_email c to subject final [])) (\<lambda>r. case r of
           Inr _ \<Rightarrow> say cx ''Email sent successfully!''
         | Inl e \<Rightarrow> say cx (''Failed to send email: '' @ err_text e))))"

definition execute_email :: "command_context \<Rightarrow> unit act" where
  "execute_email cx = (case splitn 4 (CHR 0x20) (cx_body cx) of
     [_, to, subject, body] \<Rightarrow> send_one_off cx to subject body
   | _ \<Rightarrow> say cx ''Usage: !email <to> <subject> <body>'')"

section \<open>Replies in the private room\<close>

definition matches_reply :: "command_context \<Rightarrow> bool" where
  "matches_reply cx \<longleftrightarrow> mc_relates (cx_content cx) \<noteq> None"

definition is_media :: "msgtype \<Rightarrow> bool" where
  "is_media t = (case t of MText _ \<Rightarrow> False | MOther _ \<Rightarrow> False | _ \<Rightarrow> True)"

definition re_subject :: "string \<Rightarrow> string" where
  "re_subject s = (if starts_with s ''Re:'' then s else ''Re: '' @ s)"

definition warn_sign :: string where
  "warn_sign = utf8_encode 0x26A0 @ utf8_encode 0xFE0F"

definition reply_attachments :: "command_context \<Rightarrow> jclient \<Rightarrow> attachment_info list act" where
  "reply_attachments cx c =
     (if \<not> is_media (mc_type (cx_content cx)) then ret []
      else bind (attempt (upload_matrix_media c (cx_content cx))) (\<lambda>r. case r of
          Inr att \<Rightarrow> ret [att]
        | Inl e \<Rightarrow> andthen (say cx (warn_sign @ '' Could not attach file '' @ [CHR 0x22] @
            msg_body (mc_type (cx_content cx)) @ [CHR 0x22] @ '':'' @ nl @ err_text e)) (ret [])))"

definition sender_of :: "email \<Rightarrow> addr" where
  "sender_of e = (case em_from e of Some (a # _) \<Rightarrow> ea_email a | _ \<Rightarrow> [])"

definition send_reply :: "command_context \<Rightarrow> jclient \<Rightarrow> email \<Rightarrow> unit act" where
  "send_reply cx c e =
     bind (need ''Email missing threadId'' (em_thread e)) (\<lambda>thread.
     bind (reply_attachments cx c) (\<lambda>attachments.
     bind (signed_body (cx_sender cx) (cx_body cx)) (\<lambda>body.
     bind (asks (c_quote_replies \<circ> e_cfg)) (\<lambda>quote_replies.
     bind (attempt (reply_to_email c quote_replies (sender_of e)
         (re_subject (case em_subject e of Some s \<Rightarrow> s | None \<Rightarrow> [])) body thread attachments)) (\<lambda>r. case r of
       Inr _ \<Rightarrow> say cx ''Reply sent successfully!''
     | Inl err \<Rightarrow> say cx (''Failed to send reply: '' @ err_text err))))))"

definition reply_to :: "command_context \<Rightarrow> event_id \<Rightarrow> unit act" where
  "reply_to cx target =
     bind (get_email_id_from_event_id target) (\<lambda>i. case i of
       None \<Rightarrow> ret ()
     | Some email_id \<Rightarrow> bind (get_client (cx_sender cx)) (\<lambda>client. case client of
         None \<Rightarrow> ret ()
       | Some c \<Rightarrow> bind (jcall c (GEmails GetForReply [email_id]) e_emails) (\<lambda>r.
           bind (junwrap ''Email/get failed'' r) (\<lambda>found.
           if found = [] then ret () else send_reply cx c (last found)))))"

definition execute_reply :: "command_context \<Rightarrow> unit act" where
  "execute_reply cx = (case reply_target_event (mc_relates (cx_content cx)) of
     None \<Rightarrow> ret () | Some target \<Rightarrow> reply_to cx target)"

section \<open>Double puppet\<close>

text \<open>The event of a message with a secret in it, redacted when its room and id are known.\<close>

definition redact_secret :: "room_id option \<Rightarrow> event_id option \<Rightarrow> string \<Rightarrow> unit act" where
  "redact_secret room event reason = (case (event, room) of
     (Some e, Some r) \<Rightarrow> ignore (redact_event r e reason)
   | _ \<Rightarrow> ret ())"

definition matches_login_matrix :: "command_context \<Rightarrow> bool" where
  "matches_login_matrix cx = (let t = trim_start (cx_body cx) in
     starts_with t ''login-matrix'' \<or> starts_with t ''!login-matrix'')"

definition second_word :: "string \<Rightarrow> string option" where
  "second_word body = (case split_whitespace body of _ # w # _ \<Rightarrow> if w = [] then None else Some w | _ \<Rightarrow> None)"

definition login_matrix_usage :: string where
  "login_matrix_usage = (let arrow = utf8_encode 0x2192 in
     ''Usage: `login-matrix <access-token>` '' @ em_dash @ '' paste a Matrix access token (in Element: Settings '' @
     arrow @ '' Help & About '' @ arrow @ '' Access Token) so I can auto-accept invites to your email rooms.'')"

definition store_puppet_token :: "command_context \<Rightarrow> string \<Rightarrow> unit act" where
  "store_puppet_token cx token =
     bind (attempt (set_matrix_puppet_token (cx_sender cx) token)) (\<lambda>r. case r of
       Inl e \<Rightarrow> say cx (''Failed to store the token: '' @ err_text e)
     | Inr _ \<Rightarrow> andthen (ensure_running (cx_sender cx) token)
         (say cx (''Done '' @ em_dash @ '' I'' @ apostrophe @ ''ll auto-accept invites to your email rooms from now on.'')))"

definition execute_login_matrix :: "command_context \<Rightarrow> unit act" where
  "execute_login_matrix cx =
     andthen (redact_secret (cx_room cx) (cx_event cx) ''Removing Matrix access token'')
     (case second_word (cx_body cx) of
       None \<Rightarrow> say cx login_matrix_usage
     | Some token \<Rightarrow> bind (attempt (whoami token)) (\<lambda>r. case r of
         Inl e \<Rightarrow> say cx (''That access token was rejected: '' @ err_text e)
       | Inr owner \<Rightarrow>
           if owner \<noteq> cx_sender cx
           then say cx ''That access token belongs to a different account. Provide a token for your own account.''
           else bind (get_user (cx_sender cx)) (\<lambda>u.
             if u = None
             then say cx ''Please `login` to connect your JMAP account first, then run `login-matrix` again.''
             else store_puppet_token cx token)))"

text \<open>After a login: mint a token with the shared secret, for a local user without one.\<close>

definition is_local_user :: "string \<Rightarrow> mxid \<Rightarrow> bool" where
  "is_local_user domain user = ends_with user (CHR '':'' # domain)"

definition mint_puppet :: "mxid \<Rightarrow> string \<Rightarrow> unit act" where
  "mint_puppet user secret =
     bind (attempt (mint_via_shared_secret user secret)) (\<lambda>r. case r of
       Inl _ \<Rightarrow> ret ()
     | Inr token \<Rightarrow> bind (attempt (set_matrix_puppet_token user token)) (\<lambda>st. case st of
         Inl _ \<Rightarrow> ret ()
       | Inr _ \<Rightarrow> ensure_running user token))"

definition try_auto_double_puppet :: "mxid \<Rightarrow> unit act" where
  "try_auto_double_puppet user =
     bind (asks (c_secret \<circ> e_cfg)) (\<lambda>secret.
     bind (asks (c_domain \<circ> e_cfg)) (\<lambda>domain. case secret of
       None \<Rightarrow> ret ()
     | Some k \<Rightarrow> if \<not> is_local_user domain user then ret ()
         else bind (attempt (get_matrix_puppet_token user)) (\<lambda>r. case r of
           Inr (Some _) \<Rightarrow> ret ()
         | _ \<Rightarrow> mint_puppet user k)))"

section \<open>Login\<close>

definition matches_login :: "command_context \<Rightarrow> bool" where
  "matches_login cx = (let t = trim (cx_body cx) in
     t = ''login'' \<or> t = ''!login'' \<or> starts_with (cx_body cx) ''!login '')"

definition handle_one_shot_login :: "command_context \<Rightarrow> unit act" where
  "handle_one_shot_login cx =
     andthen (redact_secret (cx_room cx) (cx_event cx) ''Removing plain-text credentials'')
     (case split_whitespace (cx_body cx) of
       _ # username # password # url # _ \<Rightarrow>
         bind (attempt (login (cx_sender cx) username password url)) (\<lambda>r. case r of
           Inr _ \<Rightarrow> andthen (say cx ''Successfully logged in!'') (try_auto_double_puppet (cx_sender cx))
         | Inl e \<Rightarrow> say cx (''Login failed: '' @ err_text e))
     | _ \<Rightarrow> say cx ''Usage: !login <username> <token> <url>'')"

definition execute_login :: "command_context \<Rightarrow> unit act" where
  "execute_login cx = (let t = trim (cx_body cx) in
     if t = ''login'' \<or> t = ''!login''
     then andthen (set_login_state (cx_sender cx) WaitingForEmail)
       (say cx ''Please enter your email address:'')
     else if starts_with (cx_body cx) ''!login '' then handle_one_shot_login cx
     else ret ())"

definition handle_login_waiting_for_email :: "mxid \<Rightarrow> string \<Rightarrow> room_id option \<Rightarrow> unit act" where
  "handle_login_waiting_for_email user body room =
     andthen (set_login_state user (WaitingForPassword (trim body)))
     (notify room ''Great! Now enter your JMAP password or API token:'')"

definition handle_login_waiting_for_password ::
    "mxid \<Rightarrow> string \<Rightarrow> room_id option \<Rightarrow> event_id option \<Rightarrow> addr \<Rightarrow> unit act" where
  "handle_login_waiting_for_password user body room event email =
     andthen (redact_secret room event ''Removing password'')
     (andthen (set_login_state user (WaitingForUrl email (trim body)))
     (notify room ''Finally, enter your JMAP Session URL (e.g. https://jmap.example.com/.well-known/jmap):''))"

definition login_failed_msg :: string where
  "login_failed_msg = ''Login failed: could not log in with those details. Please try again from the start by typing `login`.''"

definition handle_login_waiting_for_url ::
    "mxid \<Rightarrow> string \<Rightarrow> room_id option \<Rightarrow> addr \<Rightarrow> string \<Rightarrow> unit act" where
  "handle_login_waiting_for_url user body room email password =
     andthen (notify room ''Attempting to log in...'')
     (bind (attempt (login user email password (trim body))) (\<lambda>r. case r of
       Inr _ \<Rightarrow> andthen (clear_login_state user)
         (andthen (notify room ''Success! You are now logged in.'') (try_auto_double_puppet user))
     | Inl _ \<Rightarrow> andthen (notify room login_failed_msg) (clear_login_state user)))"

section \<open>The router\<close>

datatype command = HelpCommand | StatusCommand | LogoutCommand | SyncCommand | SendDelayCommand
  | LoginMatrixCommand | LoginCommand | ComposeCommand | EmailCommand | SignatureCommand | ReplyCommand

definition commands :: "command list" where
  "commands = [HelpCommand, StatusCommand, LogoutCommand, SyncCommand, SendDelayCommand,
     LoginMatrixCommand, LoginCommand, ComposeCommand, EmailCommand, SignatureCommand, ReplyCommand]"

fun command_matches :: "command \<Rightarrow> command_context \<Rightarrow> bool" where
  "command_matches HelpCommand cx = matches_help cx"
| "command_matches StatusCommand cx = matches_status cx"
| "command_matches LogoutCommand cx = matches_logout cx"
| "command_matches SyncCommand cx = matches_sync cx"
| "command_matches SendDelayCommand cx = matches_send_delay cx"
| "command_matches LoginMatrixCommand cx = matches_login_matrix cx"
| "command_matches LoginCommand cx = matches_login cx"
| "command_matches ComposeCommand cx = matches_compose cx"
| "command_matches EmailCommand cx = matches_email cx"
| "command_matches SignatureCommand cx = matches_signature cx"
| "command_matches ReplyCommand cx = matches_reply cx"

text \<open>No command overrides the default of the trait.\<close>

definition min_level :: "command \<Rightarrow> level" where
  "min_level c = User"

fun execute :: "command \<Rightarrow> command_context \<Rightarrow> unit act" where
  "execute HelpCommand cx = execute_help cx"
| "execute StatusCommand cx = execute_status cx"
| "execute LogoutCommand cx = execute_logout cx"
| "execute SyncCommand cx = execute_sync cx"
| "execute SendDelayCommand cx = execute_send_delay cx"
| "execute LoginMatrixCommand cx = execute_login_matrix cx"
| "execute LoginCommand cx = execute_login cx"
| "execute ComposeCommand cx = execute_compose cx"
| "execute EmailCommand cx = execute_email cx"
| "execute SignatureCommand cx = execute_signature cx"
| "execute ReplyCommand cx = execute_reply cx"

fun dispatch :: "command list \<Rightarrow> command_context \<Rightarrow> level \<Rightarrow> unit act" where
  "dispatch [] cx level = ret ()"
| "dispatch (c # cs) cx level = (if command_matches c cx
     then (if level < min_level c then say cx ''That command requires admin permission on this bridge.''
       else execute c cx)
     else dispatch cs cx level)"

definition matches_any :: "command_context \<Rightarrow> bool" where
  "matches_any cx = list_ex (\<lambda>c. command_matches c cx) commands"

definition not_permitted_msg :: string where
  "not_permitted_msg = ''You are not permitted to use this bridge. Ask the operator for access.''"

definition handle_login_none :: "command_context \<Rightarrow> unit act" where
  "handle_login_none cx =
     bind (asks (\<lambda>E. level_for (c_perms (e_cfg E)) (cx_sender cx))) (\<lambda>level. case level of
       None \<Rightarrow> if matches_any cx then say cx not_permitted_msg else ret ()
     | Some l \<Rightarrow> dispatch commands cx l)"

end
