(* ===== verification/Transactions.thy ===== *)
theory Transactions
  imports Commands
begin

text \<open>
  What an appservice transaction does, \<^verbatim>\<open>src/src/services/transactions.rs\<close>: read receipts,
  membership changes, and the routing of every timeline event to its handler.
\<close>

section \<open>Read receipts\<close>

definition mark_read_for :: "email_id \<Rightarrow> mxid \<Rightarrow> unit act" where
  "mark_read_for email_id user =
     bind (get_user user) (\<lambda>u.
     if u = None then ret ()
     else bind (get_client user) (\<lambda>client. case client of
         None \<Rightarrow> ret ()
       | Some c \<Rightarrow> ignore (mark_as_read c email_id)))"

definition handle_receipt_entry :: "event_id \<times> mxid list option \<Rightarrow> unit act" where
  "handle_receipt_entry entry = (case entry of (event, readers) \<Rightarrow>
     bind (get_email_id_from_event_id event) (\<lambda>i. case i of
       None \<Rightarrow> ret ()
     | Some email_id \<Rightarrow> (case readers of
         None \<Rightarrow> ret ()
       | Some users \<Rightarrow> for_each users (mark_read_for email_id))))"

definition handle_receipt :: "(event_id \<times> mxid list option) list \<Rightarrow> unit act" where
  "handle_receipt entries = for_each entries handle_receipt_entry"

definition process_ephemeral :: "ephemeral option \<Rightarrow> unit act" where
  "process_ephemeral e = (case e of
     Some (EpReceipt entries) \<Rightarrow> ignore (handle_receipt entries)
   | _ \<Rightarrow> ret ())"

section \<open>Membership\<close>

definition is_bridge_user :: "mxid \<Rightarrow> bool" where
  "is_bridge_user user \<longleftrightarrow> starts_with user ''@_jmap_''"

definition welcome_msg :: string where
  "welcome_msg = ''Welcome! Please type `login` to connect your JMAP account to this bridge.''"

definition accept_invite :: "room_id \<Rightarrow> mxid \<Rightarrow> unit act" where
  "accept_invite room target =
     bind bot_user_id (\<lambda>bot.
     if target = bot \<or> (is_bridge_user target \<and> target \<noteq> bot)
     then bind (attempt (join_room_as room target)) (\<lambda>r. case r of
         Inl _ \<Rightarrow> ret ()
       | Inr _ \<Rightarrow> if target = bot then notify (Some room) welcome_msg else ret ())
     else ret ())"

definition greet_member :: "mxid \<Rightarrow> room_id \<Rightarrow> unit act" where
  "greet_member sender room =
     (if is_bridge_user sender then ret ()
      else bind (get_ghost_email_by_room room) (\<lambda>ghost_email.
        if ghost_email = None then ret ()
        else bind (get_client sender) (\<lambda>client.
          if client = None then notify (Some room) welcome_msg else ret ())))"

definition handle_room_member_event :: "mxid \<Rightarrow> mxid \<Rightarrow> room_id \<Rightarrow> membership \<Rightarrow> unit act" where
  "handle_room_member_event sender target room ms = (case ms of
     MsInvite \<Rightarrow> accept_invite room target
   | MsJoin \<Rightarrow> greet_member sender room
   | MsOther \<Rightarrow> ret ())"

section \<open>Reactions, redactions and edits\<close>

text \<open>The detached task a reaction starts, if it is one of the three the bridge knows.\<close>

definition reaction_task :: "mxid \<Rightarrow> room_id \<Rightarrow> (event_id \<times> string) option \<Rightarrow> task option" where
  "reaction_task sender room annotation = (case annotation of
     None \<Rightarrow> None
   | Some (target, key) \<Rightarrow>
       if is_load_images_reaction key then Some (TLoadImages sender room target)
       else if is_trash_reaction key then Some (TThreadAction sender room RoleTrash ''Trash'')
       else if is_junk_reaction key then Some (TThreadAction sender room RoleJunk ''Junk'')
       else None)"

definition handle_reaction :: "mxid \<Rightarrow> room_id \<Rightarrow> (event_id \<times> string) option \<Rightarrow> unit act" where
  "handle_reaction sender room annotation = (case reaction_task sender room annotation of
     None \<Rightarrow> ret () | Some t \<Rightarrow> mem (Spawn t))"

definition unsent_msg :: string where
  "unsent_msg = utf8_encode 0x1F5D9 @ '' Unsent '' @ em_dash @ '' that message was still within the send-delay window.''"

definition updated_msg :: string where
  "updated_msg = utf8_encode 0x270E @ '' Updated the queued message before it sends.''"

definition redacted_event :: "(event_id option \<times> event_id option) option \<Rightarrow> event_id option" where
  "redacted_event r = (case r of
     None \<Rightarrow> None
   | Some (Some e, _) \<Rightarrow> Some e
   | Some (None, e) \<Rightarrow> e)"

definition cancel_queued :: "room_id \<Rightarrow> event_id \<Rightarrow> unit act" where
  "cancel_queued room event =
     bind (attempt (cancel_outbound_by_event event)) (\<lambda>r. case r of
       Inr True \<Rightarrow> notify (Some room) unsent_msg
     | _ \<Rightarrow> ret ())"

definition edit_queued :: "room_id \<Rightarrow> event_id \<Rightarrow> string \<Rightarrow> unit act" where
  "edit_queued room event body =
     bind (attempt (update_outbound_body_by_event event body)) (\<lambda>r. case r of
       Inr True \<Rightarrow> notify (Some room) updated_msg
     | _ \<Rightarrow> ret ())"

section \<open>Messages\<close>

definition handle_ghost_message :: "mxid \<Rightarrow> message_content \<Rightarrow> room_id \<Rightarrow> event_id \<Rightarrow> unit act" where
  "handle_ghost_message sender content room event = (case mc_type content of
     MText _ \<Rightarrow> handle_ghost_outbound sender content room event
   | MOther _ \<Rightarrow> ret ()
   | _ \<Rightarrow> handle_ghost_media_outbound sender content room event)"

text \<open>In a contact's room only a database error stops the transaction.\<close>

definition propagate_sqlx :: "unit act \<Rightarrow> unit act" where
  "propagate_sqlx m = bind (attempt m) (\<lambda>r. case r of
     Inl e \<Rightarrow> if is_sqlx e then fail e else ret ()
   | Inr _ \<Rightarrow> ret ())"

definition handle_private_message :: "mxid \<Rightarrow> message_content \<Rightarrow> room_id \<Rightarrow> event_id \<Rightarrow> unit act" where
  "handle_private_message sender content room event =
     bind (get_login_state sender) (\<lambda>st. ignore (let body = msg_body (mc_type content) in case st of
       LsNone \<Rightarrow> handle_login_none \<lparr>cx_sender = sender, cx_body = body, cx_room = Some room,
         cx_event = Some event, cx_content = content\<rparr>
     | WaitingForEmail \<Rightarrow> handle_login_waiting_for_email sender body (Some room)
     | WaitingForPassword email \<Rightarrow>
         handle_login_waiting_for_password sender body (Some room) (Some event) email
     | WaitingForUrl email password \<Rightarrow>
         handle_login_waiting_for_url sender body (Some room) email password))"

definition handle_room_message :: "mxid \<Rightarrow> message_content \<Rightarrow> room_id \<Rightarrow> event_id \<Rightarrow> unit act" where
  "handle_room_message sender content room event =
     bind (get_ghost_email_by_room room) (\<lambda>ghost_email.
     if ghost_email \<noteq> None then propagate_sqlx (handle_ghost_message sender content room event)
     else handle_private_message sender content room event)"

definition is_routed :: "msgtype \<Rightarrow> bool" where
  "is_routed t = (case t of MText _ \<Rightarrow> True | MFile _ \<Rightarrow> True | MImage _ \<Rightarrow> True | _ \<Rightarrow> False)"

definition handle_message_event :: "mxid \<Rightarrow> message_content \<Rightarrow> room_id \<Rightarrow> event_id \<Rightarrow> unit act" where
  "handle_message_event sender content room event = (case mc_relates content of
     Some (RelReplace target body) \<Rightarrow> edit_queued room target body
   | _ \<Rightarrow> if is_routed (mc_type content) then handle_room_message sender content room event
       else ret ())"

section \<open>The transaction\<close>

definition process_event :: "timeline_event \<Rightarrow> unit act" where
  "process_event e = (let sender = te_sender e; room = te_room e in case te_kind e of
     EMember target ms \<Rightarrow> ignore (handle_room_member_event sender target room ms)
   | EOtherState \<Rightarrow> ret ()
   | kind \<Rightarrow> if is_bridge_user sender then ret () else (case kind of
       EReaction annotation \<Rightarrow> handle_reaction sender room annotation
     | ERedaction r \<Rightarrow> (case redacted_event r of None \<Rightarrow> ret () | Some t \<Rightarrow> cancel_queued room t)
     | EMessage (Some content) \<Rightarrow> handle_message_event sender content room (te_id e)
     | _ \<Rightarrow> ret ()))"

definition process_raw_event :: "timeline_event option \<Rightarrow> unit act" where
  "process_raw_event e = (case e of None \<Rightarrow> ret () | Some ev \<Rightarrow> process_event ev)"

definition process_transaction :: "matrix_txn \<Rightarrow> unit act" where
  "process_transaction txn =
     andthen (for_each (tx_ephemeral txn) process_ephemeral)
     (for_each (tx_events txn) process_raw_event)"

section \<open>Detached tasks\<close>

text \<open>The bodies of the tasks that reactions start.\<close>

definition run_reaction_task :: "task \<Rightarrow> unit act" where
  "run_reaction_task t = (case t of
     TLoadImages sender room target \<Rightarrow> ignore (handle_load_images sender room target)
   | TThreadAction sender room role label \<Rightarrow> ignore (handle_thread_action sender room role label)
   | _ \<Rightarrow> ret ())"

end
