(* ===== verification/Routes.thy ===== *)
theory Routes
  imports Transactions
begin

text \<open>
  The appservice endpoints, \<^verbatim>\<open>src/src/routes.rs\<close>: the token check in front of every
  handler, the transaction endpoint with its claim, and the user and alias queries.
\<close>

section \<open>Authentication\<close>

text \<open>\<^verbatim>\<open>ct_eq\<close> on the bytes: equality, in a time that does not depend on where they differ.\<close>

definition token_matches :: "string \<Rightarrow> string \<Rightarrow> bool" where
  "token_matches provided expected \<longleftrightarrow> provided = expected"

text \<open>A response by its status code and the Matrix error code of its body.\<close>

datatype response = Response nat string

definition empty_json :: response where
  "empty_json = Response 200 []"

definition internal_error :: response where
  "internal_error = Response 500 []"

definition not_found :: response where
  "not_found = Response 404 []"

definition bearer_token :: "string option \<Rightarrow> string option" where
  "bearer_token authorization = Option.bind authorization (\<lambda>h.
     map_option trim (strip_prefix h ''Bearer ''))"

text \<open>The first \<^verbatim>\<open>access_token\<close> among the pairs of the query that have an equals sign.\<close>

fun find_access_token :: "(string \<times> string) list \<Rightarrow> string option" where
  "find_access_token [] = None"
| "find_access_token ((k, v) # ps) = (if k = ''access_token'' then Some v else find_access_token ps)"

definition query_token :: "string option \<Rightarrow> string option" where
  "query_token query_string = Option.bind query_string (\<lambda>q.
     find_access_token (List.map_filter (\<lambda>pair. split_once pair (CHR ''='')) (split_char (CHR ''&'') q)))"

definition request_token :: "string option \<Rightarrow> string option \<Rightarrow> string option" where
  "request_token authorization query_string = (case bearer_token authorization of
     Some t \<Rightarrow> Some t | None \<Rightarrow> query_token query_string)"

definition auth_middleware :: "string option \<Rightarrow> string option \<Rightarrow> response act \<Rightarrow> response act" where
  "auth_middleware authorization query_string next_handler =
     bind (asks (c_hs_token \<circ> e_cfg)) (\<lambda>hs_token.
     case request_token authorization query_string of
       Some token \<Rightarrow> if token_matches token hs_token then next_handler
         else ret (Response 403 ''M_FORBIDDEN'')
     | None \<Rightarrow> ret (Response 401 ''M_MISSING_TOKEN''))"

section \<open>Handlers\<close>

text \<open>Only a database error releases the claim, so that the homeserver delivers again.\<close>

definition process_claimed :: "string \<Rightarrow> matrix_txn \<Rightarrow> response act" where
  "process_claimed txn_key txn =
     bind (attempt (process_transaction txn)) (\<lambda>r. case r of
       Inl e \<Rightarrow> if is_sqlx e
         then andthen (ignore (unclaim_transaction txn_key)) (ret internal_error)
         else ret empty_json
     | Inr _ \<Rightarrow> ret empty_json)"

definition handle_transactions :: "string \<Rightarrow> matrix_txn \<Rightarrow> response act" where
  "handle_transactions txn_key txn =
     bind (attempt (claim_transaction txn_key)) (\<lambda>r. case r of
       Inr False \<Rightarrow> ret empty_json
     | Inl _ \<Rightarrow> ret internal_error
     | Inr True \<Rightarrow> process_claimed txn_key txn)"

definition handle_users :: "mxid \<Rightarrow> response act" where
  "handle_users user =
     (if is_bridge_user user
      then bind (asks (\<lambda>E. l_user_ok (e_lib E) user)) (\<lambda>valid.
        if \<not> valid then ret not_found
        else bind (asks (\<lambda>E. l_localpart (e_lib E) user)) (\<lambda>lp.
          bind (attempt (ensure_user_exists lp)) (\<lambda>r. case r of
            Inl _ \<Rightarrow> ret not_found
          | Inr _ \<Rightarrow> ret empty_json)))
      else ret not_found)"

definition handle_rooms :: "string \<Rightarrow> response act" where
  "handle_rooms room_alias = ret not_found"

definition handle_ping :: "string option \<Rightarrow> response act" where
  "handle_ping txn_key = ret empty_json"

end
