(* ===== verification/Handlers.thy ===== *)
theory Handlers
  imports Routes Samples
begin

text \<open>
  What one timeline event can do at all: a bound on the labels of every command, of the
  ghost-room handlers and of an event as a whole, by the user who sent it. Properties of the
  endpoints restrict this bound further.
\<close>

section \<open>The labels of one user's event\<close>

fun task_owner :: "task \<Rightarrow> mxid" where
  "task_owner (TLoadImages u _ _) = u"
| "task_owner (TThreadAction u _ _ _) = u"
| "task_owner (TPuppet u _) = u"
| "task_owner (TEventLoop u _) = u"
| "task_owner (TReconnect r) = ru_mxid r"

fun sender_mem :: "mxid \<Rightarrow> memop \<Rightarrow> bool" where
  "sender_mem user (SetClient u _) = (u = user)"
| "sender_mem user (DropClient u) = (u = user)"
| "sender_mem user (AddPoller u) = (u = user)"
| "sender_mem user (DropPoller u) = (u = user)"
| "sender_mem user (SetLogin u _ _) = (u = user)"
| "sender_mem user (DropLogin u) = (u = user)"
| "sender_mem user (PurgeLogins _) = False"
| "sender_mem user (AddPuppet u) = (u = user)"
| "sender_mem user (DropPuppet _) = False"
| "sender_mem user (Spawn t) = (task_owner t = user)"

definition sender_stmt :: "mxid \<Rightarrow> stmt \<Rightarrow> bool" where
  "sender_stmt user s \<longleftrightarrow> (case s of
     UpsertUser r \<Rightarrow> ru_mxid r = user | BlankToken u \<Rightarrow> u = user
   | PutKv u _ _ \<Rightarrow> u = user | DelKv u _ \<Rightarrow> u = user | PutSig u _ \<Rightarrow> u = user | DelSig u \<Rightarrow> u = user
   | PutGhost _ _ u \<Rightarrow> u = user | ClearQueue u \<Rightarrow> u = user
   | Enqueue u _ _ _ _ _ _ delay \<Rightarrow> u = user \<and> 0 \<le> delay \<and> delay \<le> max_send_delay_secs
   | ClaimTxn _ \<Rightarrow> False | UnclaimTxn _ \<Rightarrow> False | PruneTxns \<Rightarrow> False | PruneDestroyed \<Rightarrow> False
   | DropAllLocks \<Rightarrow> False | PutBridge _ _ \<Rightarrow> False | AgeRow _ \<Rightarrow> False | Dequeue _ \<Rightarrow> False
   | SetLastEmail _ _ \<Rightarrow> False | _ \<Rightarrow> True)"

definition sender_label :: "mxid \<Rightarrow> label \<Rightarrow> bool" where
  "sender_label user l \<longleftrightarrow> (case l of LDb s \<Rightarrow> sender_stmt user s | LMem m \<Rightarrow> sender_mem user m | _ \<Rightarrow> True)"

lemma sender_label_simps [simp]:
  "sender_label u (LEv e)" "sender_label u (LMem m) = sender_mem u m" "sender_label u (LDb s) = sender_stmt u s"
  by (simp_all add: sender_label_def)

lemma sender_allows [simp]:
  "allows_ghost (sender_label u)" "allows_jread (sender_label u)" "allows_submit (sender_label u) c"
  "allows_rooms (sender_label u) u" "allows_attach (sender_label u)" "allows_sync (sender_label u) u"
  "allows_fetch (sender_label u)" "allows_session (sender_label u) u"
  by (simp_all add: allows_ghost_def allows_jread_def allows_submit_def allows_rooms_def allows_attach_def
      allows_sync_def allows_fetch_def allows_session_def sender_stmt_def)

text \<open>
  Most of what an event can do leaves the login dialogues alone and connects to no mail server:
  \<open>plain_label\<close> is the bound for everything but logging in.
\<close>

definition keeps_dialogue :: "label \<Rightarrow> bool" where
  "keeps_dialogue l \<longleftrightarrow> (case l of LMem (SetLogin _ _ _) \<Rightarrow> False | LMem (DropLogin _) \<Rightarrow> False
     | LMem (PurgeLogins _) \<Rightarrow> False | _ \<Rightarrow> True)"

definition connects :: "label \<Rightarrow> bool" where
  "connects l \<longleftrightarrow> (case l of LEv (EvConnect _ _ _) \<Rightarrow> True | _ \<Rightarrow> False)"

definition plain_label :: "mxid \<Rightarrow> label \<Rightarrow> bool" where
  "plain_label user l \<longleftrightarrow> sender_label user l \<and> keeps_dialogue l \<and> \<not> connects l"

lemma label_parts [simp]:
  "keeps_dialogue (LEv e)" "keeps_dialogue (LDb s)" "\<not> connects (LMem m)" "\<not> connects (LDb s)" "keeps_dialogue LTick"
  "\<not> connects LTick"
  by (simp_all add: keeps_dialogue_def connects_def)

lemma plain_label_simps [simp]:
  "plain_label u (LEv e) \<longleftrightarrow> \<not> connects (LEv e)" "plain_label u (LMem m) \<longleftrightarrow> sender_mem u m \<and> keeps_dialogue (LMem m)"
  "plain_label u (LDb s) = sender_stmt u s"
  by (simp_all add: plain_label_def)

lemma plain_allows [simp]:
  "allows_ghost (plain_label u)" "allows_jread (plain_label u)" "allows_submit (plain_label u) c"
  "allows_rooms (plain_label u) u" "allows_attach (plain_label u)" "allows_sync (plain_label u) u"
  "allows_fetch (plain_label u)"
  by (simp_all add: allows_ghost_def allows_jread_def allows_submit_def allows_rooms_def allows_attach_def
      allows_sync_def allows_fetch_def sender_stmt_def connects_def)

lemma within_mono: "within (evolves K) m \<Longrightarrow> (\<And>l. K l \<Longrightarrow> L l) \<Longrightarrow> within (evolves L) m"
  unfolding within_def using evolves_mono by blast

lemma plain_is_sender: "within (evolves (plain_label u)) m \<Longrightarrow> within (evolves (sender_label u)) m"
  by (erule within_mono) (simp add: plain_label_def)

lemmas plain_defs = sender_stmt_def keeps_dialogue_def connects_def

section \<open>Commands\<close>

lemma within_bind_range:
  assumes "within (evolves K) m" and "\<And>E w x w'. m E w = (Ok x, w') \<Longrightarrow> within (evolves K) (f x)"
  shows "within (evolves K) (bind m f)"
  unfolding within_def
proof (intro allI)
  fix E w
  show "evolves K w (snd (bind m f E w))"
    using withinD [OF assms(1), of E w] assms(2) [of E w]
    by (cases "m E w"; cases "fst (m E w)") (auto simp: bind_def within_def intro: evolves_trans)
qed

lemma say_evolves [frame_rules]: "allows_ghost K \<Longrightarrow> within (evolves K) (say cx m)"
  unfolding say_def by (intro frame_rules)

lemma poll_now_evolves [frame_rules]: "allows_sync K u \<Longrightarrow> within (evolves K) (poll_now u)"
  unfolding poll_now_def by (intro frame_rules)

lemma plain_commands_plain [frame_rules]:
  "within (evolves (plain_label u)) (execute_help cx)"
  "within (evolves (plain_label u)) (execute_status cx)"
  "within (evolves (plain_label u)) (execute_reply cx)"
  "within (evolves (plain_label u)) (execute_email cx)"
  unfolding execute_help_def execute_status_def execute_reply_def reply_to_def send_reply_def
    reply_attachments_def signed_body_def execute_email_def send_one_off_def Let_def
  by (intro frame_rules; simp add: plain_defs)+

lemmas plain_commands_sender [frame_rules] = plain_commands_plain [THEN plain_is_sender]

lemma unquoted_evolves [frame_rules]: "within (evolves K) (unquoted s)"
  unfolding unquoted_def by (intro frame_rules)

lemma own_commands_plain [frame_rules]:
  "u = cx_sender cx \<Longrightarrow> within (evolves (plain_label u)) (execute_logout cx)"
  "u = cx_sender cx \<Longrightarrow> within (evolves (plain_label u)) (execute_sync cx)"
  "u = cx_sender cx \<Longrightarrow> within (evolves (plain_label u)) (execute_send_delay cx)"
  "u = cx_sender cx \<Longrightarrow> within (evolves (plain_label u)) (execute_signature cx)"
  "u = cx_sender cx \<Longrightarrow> within (evolves (plain_label u)) (execute_compose cx)"
  unfolding execute_logout_def execute_sync_def execute_send_delay_def execute_signature_def
    show_signature_def clear_signature_def set_signature_def execute_compose_def open_conversation_def
    announce_conversation_def Let_def
  by (intro frame_rules; simp add: plain_defs)+

lemmas own_commands_sender [frame_rules] = own_commands_plain [THEN plain_is_sender]

lemma redact_secret_evolves [frame_rules]: "allows_ghost K \<Longrightarrow> within (evolves K) (redact_secret r e k)"
  unfolding redact_secret_def by (intro frame_rules)

lemma puppet_commands_plain [frame_rules]:
  "u = cx_sender cx \<Longrightarrow> within (evolves (plain_label u)) (execute_login_matrix cx)"
  "within (evolves (plain_label u)) (try_auto_double_puppet u)"
  unfolding execute_login_matrix_def store_puppet_token_def try_auto_double_puppet_def mint_puppet_def
  by (intro frame_rules; simp add: plain_defs)+

lemmas puppet_commands_sender [frame_rules] = puppet_commands_plain [THEN plain_is_sender]

lemma login_commands_sender [frame_rules]:
  "u = cx_sender cx \<Longrightarrow> within (evolves (sender_label u)) (execute_login cx)"
  "within (evolves (sender_label u)) (handle_login_waiting_for_email u b r)"
  "within (evolves (sender_label u)) (handle_login_waiting_for_password u b r e m)"
  "within (evolves (sender_label u)) (handle_login_waiting_for_url u b r m p)"
  unfolding execute_login_def handle_one_shot_login_def handle_login_waiting_for_email_def
    handle_login_waiting_for_password_def handle_login_waiting_for_url_def Let_def
  by (simp_all only:) (intro frame_rules; simp add: sender_stmt_def)+

lemma execute_sender [frame_rules]: "u = cx_sender cx \<Longrightarrow> within (evolves (sender_label u)) (execute c cx)"
  by (cases c) (simp_all only: execute.simps, (intro frame_rules; simp)+)

lemma dispatch_sender [frame_rules]:
  "u = cx_sender cx \<Longrightarrow> within (evolves (sender_label u)) (dispatch cs cx l)"
  by (induction cs) (simp_all only: dispatch.simps, (intro frame_rules; simp)+)

lemma login_none_sender [frame_rules]:
  "u = cx_sender cx \<Longrightarrow> within (evolves (sender_label u)) (handle_login_none cx)"
  unfolding handle_login_none_def by (intro frame_rules; simp)

section \<open>Messages in ghost rooms\<close>

lemma contexts_evolve [frame_rules]:
  "allows_jread K \<Longrightarrow> within (evolves K) (resolve_thread_context r rel c)"
  unfolding resolve_thread_context_def relation_context_def known_context_def looked_up_context_def
    room_context_def Let_def
  by (intro frame_rules; simp)

lemma enqueue_plain [frame_rules]:
  "within (evolves (plain_label u)) (enqueue_held_send u r e b t a)"
  unfolding enqueue_held_send_def maybe_send_hold_hint_def
proof (rule within_bind_range)
  fix E w n w'
  assume "send_delay_for u E w = (Ok n, w')"
  then have "0 \<le> n \<and> n \<le> max_send_delay_secs" by (rule send_delay_range)
  then show "within (evolves (plain_label u)) (andthen (add_to_outbound_queue u r e b None t a n)
      (if 0 < n then andthen (mark_held u r e) (bind (attempt (get_jmap_state u (send_hint_key r)))
        (\<lambda>x. case x of Inr (Some _) \<Rightarrow> ret () | _ \<Rightarrow> andthen (notify (Some r) (hold_hint n))
          (ignore (save_jmap_state u (send_hint_key r) ''1'')))) else ret ()))"
    by (intro frame_rules; simp add: plain_defs)
qed (intro frame_rules)

lemmas enqueue_sender [frame_rules] = enqueue_plain [THEN plain_is_sender]

lemma within_ghost_command:
  "within R a \<Longrightarrow> within R b \<Longrightarrow> within R c \<Longrightarrow>
   within R (case g of ShowImages \<Rightarrow> a | DeleteRoom \<Rightarrow> b | Spam \<Rightarrow> c)"
  by (cases g) auto

lemma within_membership:
  "within R a \<Longrightarrow> within R b \<Longrightarrow> within R c \<Longrightarrow>
   within R (case m of MsInvite \<Rightarrow> a | MsJoin \<Rightarrow> b | MsOther \<Rightarrow> c)"
  by (cases m) auto

lemma within_login_state:
  "within R a \<Longrightarrow> within R b \<Longrightarrow> (\<And>x. within R (f x)) \<Longrightarrow> (\<And>x y. within R (g x y)) \<Longrightarrow>
   within R (case s of LsNone \<Rightarrow> a | WaitingForEmail \<Rightarrow> b | WaitingForPassword x \<Rightarrow> f x | WaitingForUrl x y \<Rightarrow> g x y)"
  by (cases s) auto

lemma within_bool: "within R a \<Longrightarrow> within R b \<Longrightarrow> within R (case v of True \<Rightarrow> a | False \<Rightarrow> b)"
  by (cases v) auto

lemmas handler_branches = within_bool within_ghost_command within_membership within_login_state

lemma ghost_outbound_plain [frame_rules]:
  "within (evolves (plain_label u)) (handle_thread_action u r ro l)"
  "within (evolves (plain_label u)) (handle_show_images u r mc)"
  "within (evolves (plain_label u)) (handle_ghost_outbound u mc r e)"
  "within (evolves (plain_label u)) (handle_ghost_media_outbound u mc r e)"
  unfolding handle_thread_action_def thread_action_with_def move_latest_thread_def leave_all_def
    handle_show_images_def handle_ghost_outbound_def queue_text_def handle_ghost_media_outbound_def Let_def
  by (intro frame_rules handler_branches; simp add: plain_defs)+

lemmas ghost_outbound_sender [frame_rules] = ghost_outbound_plain [THEN plain_is_sender]

section \<open>Events\<close>

lemma membership_plain [frame_rules]:
  "within (evolves (plain_label u)) (handle_room_member_event u t r ms)"
  unfolding handle_room_member_event_def accept_invite_def greet_member_def
  by (intro frame_rules handler_branches; simp add: plain_defs)

lemmas membership_sender [frame_rules] = membership_plain [THEN plain_is_sender]

lemma ghost_message_plain [frame_rules]:
  "within (evolves (plain_label u)) (handle_ghost_message u mc r e)"
  unfolding handle_ghost_message_def by (cases "mc_type mc") (simp_all add: frame_rules)

lemmas ghost_message_sender [frame_rules] = ghost_message_plain [THEN plain_is_sender]

lemma messages_sender [frame_rules]:
  "within (evolves (sender_label u)) (handle_private_message u mc r e)"
  "within (evolves (sender_label u)) (handle_room_message u mc r e)"
  unfolding handle_private_message_def handle_room_message_def propagate_sqlx_def Let_def
  by (intro frame_rules handler_branches; simp)+

lemma queue_changes_plain [frame_rules]:
  "within (evolves (plain_label u)) (edit_queued r t b)" "within (evolves (plain_label u)) (cancel_queued r t)"
  unfolding edit_queued_def cancel_queued_def by (intro frame_rules handler_branches; simp add: plain_defs)+

lemmas queue_changes_sender [frame_rules] = queue_changes_plain [THEN plain_is_sender]

lemma message_event_sender [frame_rules]:
  "within (evolves (sender_label u)) (handle_message_event u mc r e)"
  unfolding handle_message_event_def
  by (cases "mc_relates mc"; simp add: frame_rules split: relation.split)

lemma reaction_plain [frame_rules]: "within (evolves (plain_label u)) (handle_reaction u r a)"
  unfolding handle_reaction_def reaction_task_def
  by (cases a) (auto simp: frame_rules simp: keeps_dialogue_def intro!: mem_evolves ev.pure)

lemmas reaction_sender [frame_rules] = reaction_plain [THEN plain_is_sender]

lemma event_sender: "within (evolves (sender_label (te_sender ev))) (process_event ev)"
  unfolding process_event_def Let_def
  by (cases "te_kind ev") (auto simp: frame_rules split: option.split)

end
