(* ===== verification/Access.thy ===== *)
theory Access
  imports Handlers
begin

text \<open>
  What the appservice side guarantees: an event acts only on the account of its sender, mail is
  held for at most the longest delay, a user without a permission is only told so, a transaction
  is processed once, and only the homeserver's token reaches a handler.
\<close>

section \<open>An event stays with its sender\<close>

text \<open>The part of a world that belongs to the other users, and the bridge's own rows.\<close>

record foreign =
  fo_users :: "registered_user list"
  fo_state :: "state_row list"
  fo_sigs :: "(mxid \<times> string) list"
  fo_txns :: "(string \<times> int) list"
  fo_bridge :: "(string \<times> string) list"
  fo_clients :: "(mxid \<times> jclient) list"
  fo_logins :: "(mxid \<times> login_state \<times> int) list"
  fo_pollers :: "mxid list"
  fo_puppets :: "mxid list"
  fo_tasks :: "task list"

definition foreign_to :: "mxid \<Rightarrow> world \<Rightarrow> foreign" where
  "foreign_to u w = \<lparr>fo_users = filter (\<lambda>r. ru_mxid r \<noteq> u) (t_users (w_db w)),
     fo_state = filter (\<lambda>r. sr_user r \<noteq> u) (t_state (w_db w)),
     fo_sigs = filter (\<lambda>r. fst r \<noteq> u) (t_sigs (w_db w)),
     fo_txns = t_txns (w_db w), fo_bridge = t_bridge (w_db w),
     fo_clients = filter (\<lambda>r. fst r \<noteq> u) (w_clients w),
     fo_logins = filter (\<lambda>r. fst r \<noteq> u) (w_logins w),
     fo_pollers = filter (\<lambda>m. m \<noteq> u) (w_pollers w),
     fo_puppets = filter (\<lambda>m. m \<noteq> u) (w_puppets w),
     fo_tasks = filter (\<lambda>t. task_owner t \<noteq> u) (w_tasks w)\<rparr>"

lemma filter_drop_own: "(\<And>x. p x \<Longrightarrow> \<not> q x) \<Longrightarrow> filter q (drop_rows p t) = filter q t"
  by (auto simp: drop_rows_def intro: filter_cong)

lemma drop_sigs: "drop_rows (\<lambda>r. fst r = u) t = filter (\<lambda>r. fst r \<noteq> u) t"
  by (simp add: drop_rows_def)

lemma filter_upd_own:
  "(\<And>x. p x \<Longrightarrow> \<not> q x \<and> \<not> q (f x)) \<Longrightarrow> filter q (upd_rows p f t) = filter q t"
  by (induction t) (auto simp: upd_rows_def)

lemma filter_put_own:
  "\<not> q r \<Longrightarrow> (\<And>x. k x = k r \<Longrightarrow> \<not> q x) \<Longrightarrow> filter q (put_row k r t) = filter q t"
  by (auto simp: put_row_def filter_drop_own)

lemma filter_update_own: "filter (\<lambda>r. fst r \<noteq> u) (AList.update u v l) = filter (\<lambda>r. fst r \<noteq> u) l"
  by (induction l) auto

lemma filter_delete_own: "filter (\<lambda>r. fst r \<noteq> u) (AList.delete u l) = filter (\<lambda>r. fst r \<noteq> u) l"
  by (induction l) auto

lemma filter_removeAll_own: "filter (\<lambda>m. m \<noteq> u) (removeAll u l) = filter (\<lambda>m. m \<noteq> u) l"
  by (induction l) auto

lemma foreign_step:
  assumes "world_step l w w'" and "l = LTick \<or> sender_label u l"
  shows "foreign_to u w' = foreign_to u w"
  using assms(1)
proof (cases rule: world_step.cases)
  case (step_db s n d)
  have "sender_stmt u s" using step_db assms(2) by simp
  then show ?thesis using step_db
    by (cases s) (auto simp: sender_stmt_def foreign_to_def sr_pk_def drop_sigs split: if_splits option.splits
        intro!: filter_drop_own filter_upd_own filter_put_own)
next
  case (step_mem m)
  then have "sender_mem u m" using assms(2) by simp
  then show ?thesis using step_mem
    by (cases m) (auto simp: foreign_to_def filter_update_own filter_delete_own filter_removeAll_own
        List.insert_def)
qed (simp_all add: foreign_to_def emit_def)

lemma foreign_evolves: "evolves (sender_label u) w w' \<Longrightarrow> foreign_to u w' = foreign_to u w"
  by (rule evolves_invariant [where I = "\<lambda>w'. foreign_to u w' = foreign_to u w"])
    (assumption, simp, drule foreign_step, assumption, simp)

text \<open>C11: whatever an event asks for, it changes nothing that belongs to another user: accounts,
  key-value rows, signatures, sessions, login dialogues, puppets and tasks of everyone but the
  sender stay as they were, and so do the processed transactions and the bridge's own rows.\<close>

theorem event_stays_with_sender:
  "foreign_to (te_sender ev) (snd (process_event ev E w)) = foreign_to (te_sender ev) w"
  by (rule foreign_evolves) (use event_sender [of ev] in \<open>simp add: within_def\<close>)

section \<open>Mail is held briefly\<close>

definition queue_origin :: "mxid \<Rightarrow> world \<Rightarrow> int \<Rightarrow> outbound_row \<Rightarrow> bool" where
  "queue_origin u w t r \<longleftrightarrow>
     list_ex (\<lambda>r0. om_id r0 = om_id r \<and> om_user r0 = om_user r \<and> release_at r0 = release_at r) (t_outbound (w_db w))
     \<or> om_user r = u \<and> w_clock w \<le> release_at r \<and> release_at r \<le> t + max_send_delay_secs"

lemma queue_origin_later: "queue_origin u w a r \<Longrightarrow> a \<le> b \<Longrightarrow> queue_origin u w b r"
  by (auto simp: queue_origin_def)

lemma queue_origin_body [simp]: "queue_origin u w t (r\<lparr>om_body := b\<rparr>) = queue_origin u w t r"
  by (simp add: queue_origin_def)

lemma queue_origin_new:
  "om_user r = u \<Longrightarrow> w_clock w \<le> release_at r \<Longrightarrow> release_at r \<le> t + max_send_delay_secs \<Longrightarrow>
   queue_origin u w t r"
  by (simp add: queue_origin_def)

lemma list_all_upd:
  "list_all P t \<Longrightarrow> (\<And>r. P r \<Longrightarrow> P (f r)) \<Longrightarrow> list_all P (upd_rows p f t)"
  by (induction t) (auto simp: upd_rows_def)

lemma list_all_drop: "list_all P t \<Longrightarrow> list_all P (drop_rows p t)"
  by (auto simp: drop_rows_def list_all_iff)

lemma queue_origin_step:
  assumes "world_step l w1 w2" and "l = LTick \<or> sender_label u l" and "w_clock w \<le> w_clock w1"
    and "list_all (queue_origin u w (w_clock w1)) (t_outbound (w_db w1))"
  shows "list_all (queue_origin u w (w_clock w2)) (t_outbound (w_db w2))"
  using assms(1)
proof (cases rule: world_step.cases)
  case (step_db s n d)
  then have "sender_stmt u s" using assms(2) by simp
  then have "list_all (queue_origin u w (w_clock w1)) (t_outbound d)"
    using step_db assms(3,4)
    by (cases s) (auto simp: sender_stmt_def list_all_drop delay_date_def
          queue_origin_new list_all_upd [where P = "queue_origin u w (w_clock w1)"]
        split: if_splits option.splits)
  then show ?thesis using step_db by simp
next
  case (step_tick i n)
  then show ?thesis using assms(4) by (auto simp: list_all_iff intro: queue_origin_later)
next
  case (step_mem m)
  then show ?thesis using assms(4) by (cases m) auto
qed (use assms(4) in \<open>auto simp: emit_def\<close>)

text \<open>An event adds to the queue only mail of its own sender, due between the moment the
  event was handled and the longest send delay after it; every other row keeps its owner and its
  release.\<close>

theorem new_mail_held_briefly:
  "list_all (queue_origin (te_sender ev) w (w_clock (snd (process_event ev E w))))
     (t_outbound (w_db (snd (process_event ev E w))))"
proof -
  let ?u = "te_sender ev" and ?w' = "snd (process_event ev E w)"
  have ev: "evolves (sender_label ?u) w ?w'" using event_sender [of ev] by (simp add: within_def)
  have "w_clock w \<le> w_clock ?w' \<and> list_all (queue_origin ?u w (w_clock ?w')) (t_outbound (w_db ?w'))"
  proof (rule evolves_invariant [OF ev])
    show "w_clock w \<le> w_clock w \<and> list_all (queue_origin ?u w (w_clock w)) (t_outbound (w_db w))"
      by (auto simp: list_all_iff queue_origin_def list_ex_iff)
    fix l w1 w2
    assume "world_step l w1 w2" "l = LTick \<or> sender_label ?u l"
      "w_clock w \<le> w_clock w1 \<and> list_all (queue_origin ?u w (w_clock w1)) (t_outbound (w_db w1))"
    then show "w_clock w \<le> w_clock w2 \<and> list_all (queue_origin ?u w (w_clock w2)) (t_outbound (w_db w2))"
      using queue_origin_step [of l w1 w2 ?u w] world_step_clock [of l w1 w2] by simp
  qed
  then show ?thesis by blast
qed

section \<open>Default deny\<close>

text \<open>A run that only sends: everything but the trace, the clock and the step counter is as it was.\<close>

definition only_sends :: "world \<Rightarrow> world \<Rightarrow> bool" where
  "only_sends w w' \<longleftrightarrow> w' = w\<lparr>w_trace := w_trace w', w_step := w_step w', w_clock := w_clock w'\<rparr>"

lemma only_sends_iff: "only_sends w w' \<longleftrightarrow> w_db w' = w_db w \<and> w_clients w' = w_clients w \<and>
   w_pollers w' = w_pollers w \<and> w_logins w' = w_logins w \<and> w_puppets w' = w_puppets w \<and> w_tasks w' = w_tasks w"
  by (cases w; cases w') (auto simp: only_sends_def)

lemma only_sends_evolves:
  assumes "evolves K w w'" and "\<And>s. \<not> K (LDb s)" and "\<And>m. \<not> K (LMem m)"
  shows "only_sends w w'"
proof (rule evolves_invariant [OF assms(1)])
  fix l w1 w2
  assume "world_step l w1 w2" "l = LTick \<or> K l" "only_sends w w1"
  then show "only_sends w w2"
    using assms(2,3) by (cases rule: world_step.cases) (auto simp: only_sends_iff emit_def)
qed (simp add: only_sends_iff)

text \<open>A notice in a room: the message, and the repair of the bot's membership before it is sent again.\<close>

definition notice_in :: "room_id option \<Rightarrow> string \<Rightarrow> ev \<Rightarrow> bool" where
  "notice_in room msg e \<longleftrightarrow> (case e of
     EvMx (AsGhost (GSend r _ (OText b None None)) _ _) \<Rightarrow> room = Some r \<and> b = msg
   | EvMx (AsGhost (GInvite r _) _ _) \<Rightarrow> room = Some r
   | EvMx (AsGhost (GJoin r) _ _) \<Rightarrow> room = Some r
   | _ \<Rightarrow> False)"

definition notice_label :: "room_id option \<Rightarrow> string \<Rightarrow> label \<Rightarrow> bool" where
  "notice_label room msg l \<longleftrightarrow> (case l of LEv e \<Rightarrow> notice_in room msg e | _ \<Rightarrow> False)"

lemma notify_notices: "within (evolves (notice_label room msg)) (notify room msg)"
  unfolding notify_def send_message_def
  by (intro frame_rules send_message_as_evolves;
      simp add: allows_send_def notice_label_def notice_in_def thread_relation_def)

text \<open>The private room of a user without a permission: whatever the message, nothing but
  the trace changes, and all that is sent is the refusal in that room.\<close>

theorem unpermitted_user_only_told:
  assumes "level_for (c_perms (e_cfg E)) (cx_sender cx) = None"
  shows "only_sends w (snd (handle_login_none cx E w)) \<and>
    (\<exists>sent. w_trace (snd (handle_login_none cx E w)) = sent @ w_trace w \<and>
      list_all (notice_in (cx_room cx) not_permitted_msg) sent)"
proof -
  let ?K = "notice_label (cx_room cx) not_permitted_msg"
  have run: "handle_login_none cx E w = (if matches_any cx then say cx not_permitted_msg E w else (Ok (), w))"
    using assms by (simp add: handle_login_none_def bind_def asks_def ret_def)
  have ev: "evolves ?K w (snd (handle_login_none cx E w))"
    unfolding run using notify_notices by (simp add: say_def within_def evolves_refl)
  from only_sends_evolves [OF this] have "only_sends w (snd (handle_login_none cx E w))"
    by (simp add: notice_label_def)
  with evolves_events [OF ev] show ?thesis by (simp add: notice_label_def)
qed

theorem unpermitted_user_only_told_witness:
  "only_sends sample_world (snd (handle_login_none
     \<lparr>cx_sender = ''@a:x.org'', cx_body = ''logout'', cx_room = Some ''!r:x.org'', cx_event = None,
      cx_content = \<lparr>mc_type = MText ''logout'', mc_relates = None\<rparr>\<rparr> sample_env sample_world))"
  by (rule unpermitted_user_only_told [THEN conjunct1])
    (simp add: sample_env_def sample_config_def level_for_def)

text \<open>C17: the actions in a contact's room, by command or by reaction, do nothing at all for a
  user without a permission: no mail moves, no room is unbridged, no image is fetched and no
  answer betrays the room.\<close>

theorem room_actions_default_deny:
  assumes "level_for (c_perms (e_cfg E)) u = None"
  shows "handle_thread_action u r role label E w = (Ok (), w) \<and>
    handle_show_images u r content E w = (Ok (), w) \<and>
    handle_load_images u r e E w = (Ok (), w) \<and>
    run_reaction_task (TThreadAction u r role label) E w = (Ok (), w)"
  using assms
  by (simp_all add: handle_thread_action_def handle_show_images_def handle_load_images_def may_act_def
      run_reaction_task_def ignore_def attempt_def bind_def asks_def ret_def)

theorem room_actions_default_deny_witness:
  "handle_thread_action ''@a:x.org'' ''!r:x.org'' RoleTrash ''Trash'' sample_env sample_world = (Ok (), sample_world)"
  by (rule room_actions_default_deny [THEN conjunct1]) (simp add: sample_env_def sample_config_def level_for_def)

section \<open>A transaction is processed once\<close>

definition claimed :: "string \<Rightarrow> db \<Rightarrow> bool" where
  "claimed k d \<longleftrightarrow> has_row (\<lambda>r. fst r = k) (t_txns d)"

definition keeps_claims :: "label \<Rightarrow> bool" where
  "keeps_claims l \<longleftrightarrow> (case l of LDb (UnclaimTxn _) \<Rightarrow> False | LDb PruneTxns \<Rightarrow> False | _ \<Rightarrow> True)"

lemma claimed_step:
  assumes "world_step l w w'" and "l = LTick \<or> keeps_claims l" and "claimed k (w_db w)"
  shows "claimed k (w_db w')"
  using assms(1)
proof (cases rule: world_step.cases)
  case (step_db s n d)
  then show ?thesis using assms(2,3)
    by (cases s) (auto simp: keeps_claims_def claimed_def has_row_iff split: if_splits option.splits)
next
  case (step_mem m)
  then show ?thesis using assms(3) by (cases m) auto
qed (use assms(3) in \<open>auto simp: emit_def\<close>)

lemma claimed_evolves: "evolves K w w' \<Longrightarrow> (\<And>l. K l \<Longrightarrow> keeps_claims l) \<Longrightarrow> claimed k (w_db w) \<Longrightarrow> claimed k (w_db w')"
  by (rule evolves_invariant [where I = "\<lambda>w. claimed k (w_db w)"]) (auto intro: claimed_step)

lemma sender_keeps_claims: "sender_label u l \<Longrightarrow> keeps_claims l"
  by (auto simp: keeps_claims_def sender_label_def sender_stmt_def split: label.splits stmt.splits)

lemma transaction_keeps_claims: "within (evolves keeps_claims) (process_transaction txn)"
proof -
  have weaken: "within (evolves (sender_label u)) m \<Longrightarrow> within (evolves keeps_claims) m" for u and m :: "unit act"
    unfolding within_def by (blast intro: evolves_mono sender_keeps_claims)
  have jread: "allows_jread keeps_claims" by (simp add: allows_jread_def keeps_claims_def)
  have "within (evolves keeps_claims) (process_ephemeral e)" for e
    unfolding process_ephemeral_def handle_receipt_def handle_receipt_entry_def mark_read_for_def
    by (cases e; simp add: frame_rules split: ephemeral.split)
      (intro frame_rules conjI allI impI; simp add: keeps_claims_def)
  moreover have "within (evolves keeps_claims) (process_raw_event e)" for e
    unfolding process_raw_event_def using weaken [OF event_sender] by (cases e) (simp_all add: frame_rules)
  ultimately show ?thesis unfolding process_transaction_def by (intro frame_rules)
qed

lemma claim_run:
  "claim_transaction k E w = (r, w') \<Longrightarrow> r = Ok True \<and> claimed k (w_db w') \<or> r = Ok False \<and> claimed k (w_db w') \<or> (\<exists>e. r = Err e)"
  by (auto simp: claim_transaction_def bind_def run_def Let_def ret_def claimed_def has_row_iff
      split: option.splits if_splits)

lemma handled_claimed:
  assumes "handle_transactions k txn E w = (Ok empty_json, w')"
  shows "claimed k (w_db w')"
proof -
  obtain r w1 where c: "claim_transaction k E w = (r, w1)" by (cases "claim_transaction k E w")
  from claim_run [OF c] assms have claimed: "claimed k (w_db w1)"
    by (auto simp: handle_transactions_def bind_def attempt_def c ret_def empty_json_def internal_error_def)
  from claim_run [OF c] assms consider "w' = w1" | "process_claimed k txn E w1 = (Ok empty_json, w')"
    by (auto simp: handle_transactions_def bind_def attempt_def c ret_def empty_json_def internal_error_def)
  then show ?thesis
  proof cases
    case 2
    then have "w' = snd (process_transaction txn E w1)"
      by (cases "process_transaction txn E w1"; cases "fst (process_transaction txn E w1)")
        (auto simp: process_claimed_def bind_def attempt_def ret_def andthen_def ignore_def empty_json_def
          internal_error_def split: if_splits prod.splits outcome.splits)
    then show ?thesis
      using claimed claimed_evolves [of keeps_claims w1 w' k] transaction_keeps_claims [of txn]
      by (simp add: within_def)
  qed (simp add: claimed)
qed

text \<open>C13: a transaction that was answered with success is not processed again: however the world
  went on, as long as the claim was neither pruned nor released, delivering the same id again
  (with whatever events) changes nothing and sends nothing.\<close>

theorem transaction_processed_once:
  assumes "handle_transactions k txn E w = (Ok empty_json, w1)" and "evolves keeps_claims w1 w2"
    and "e_fault (e_net E') (w_step w2) = None"
  shows "handle_transactions k txn' E' w2 = (Ok empty_json, tick E' w2)"
proof -
  have "claimed k (w_db w2)" using claimed_evolves [OF assms(2)] handled_claimed [OF assms(1)] by simp
  then have "claim_transaction k E' w2 = (Ok False, tick E' w2)"
    using assms(3) by (simp add: claim_transaction_def bind_def run_def Let_def ret_def claimed_def tick_def)
  then show ?thesis by (simp add: handle_transactions_def bind_def attempt_def ret_def)
qed

theorem transaction_processed_once_witness:
  "handle_transactions ''t'' \<lparr>tx_events = [None], tx_ephemeral = []\<rparr> sample_env
      (snd (handle_transactions ''t'' \<lparr>tx_events = [], tx_ephemeral = []\<rparr> sample_env sample_world))
    = (Ok empty_json, tick sample_env
      (snd (handle_transactions ''t'' \<lparr>tx_events = [], tx_ephemeral = []\<rparr> sample_env sample_world)))"
proof (rule transaction_processed_once [OF _ evolves_refl])
  let ?w1 = "snd (handle_transactions ''t'' \<lparr>tx_events = [], tx_ephemeral = []\<rparr> sample_env sample_world)"
  show "handle_transactions ''t'' \<lparr>tx_events = [], tx_ephemeral = []\<rparr> sample_env sample_world = (Ok empty_json, ?w1)"
    by (simp add: handle_transactions_def process_claimed_def process_transaction_def claim_transaction_def
        bind_def attempt_def run_def Let_def ret_def andthen_def sample_defs empty_db_def tick_def)
  show "e_fault (e_net sample_env) (w_step ?w1) = None"
    by (simp add: sample_env_def quiet_answers_def)
qed

section \<open>Only the homeserver's token\<close>

lemma bearer_token_trimmed: "trim tok = tok \<Longrightarrow> bearer_token (Some (''Bearer '' @ tok)) = Some tok"
  by (simp add: bearer_token_def strip_prefix_def starts_with_def)

lemma query_token_only: "CHR ''&'' \<notin> set tok \<Longrightarrow> query_token (Some (''access_token='' @ tok)) = Some tok"
  by (simp add: query_token_def split_char_none map_filter_simps)

text \<open>A handler runs exactly for the homeserver's token, given in the header or, without one,
  in the query; a wrong token in the header is not saved by a right one in the query, and every
  other request is refused without any effect.\<close>

theorem only_homeserver_token_passes:
  assumes "trim tok = tok" and "CHR ''&'' \<notin> set tok"
  shows "auth_middleware (Some (''Bearer '' @ tok)) q h E w =
      (if tok = c_hs_token (e_cfg E) then h E w else (Ok (Response 403 ''M_FORBIDDEN''), w)) \<and>
    auth_middleware None (Some (''access_token='' @ tok)) h E w =
      (if tok = c_hs_token (e_cfg E) then h E w else (Ok (Response 403 ''M_FORBIDDEN''), w)) \<and>
    auth_middleware None None h E w = (Ok (Response 401 ''M_MISSING_TOKEN''), w)"
  using assms
  by (simp_all add: auth_middleware_def request_token_def bearer_token_trimmed query_token_only
      bearer_token_def [of None] query_token_def [of None] token_matches_def bind_def asks_def ret_def
      del: append.simps)

theorem only_homeserver_token_passes_witness:
  "auth_middleware (Some (''Bearer '' @ ''no'')) (Some ''access_token=hs'') (handle_ping None) sample_env sample_world
    = (Ok (Response 403 ''M_FORBIDDEN''), sample_world)"
proof -
  have t: "trim ''no'' = ''no''"
    by (simp add: trim_def trim_end_def trim_start.simps trim_rev.simps ws1_def ws2_def ws3_def)
  show ?thesis
    using only_homeserver_token_passes [OF t, THEN conjunct1, of "Some ''access_token=hs''" "handle_ping None" sample_env sample_world]
    by (simp add: sample_env_def sample_config_def)
qed

section \<open>Secrets\<close>

definition redacted_first :: "room_id \<Rightarrow> event_id \<Rightarrow> world \<Rightarrow> world \<Rightarrow> bool" where
  "redacted_first room event w w' \<longleftrightarrow> (\<exists>sent t reason bot_user ts.
     w_trace w' = sent @ EvMx (AsGhost (GRedact room event t reason) bot_user ts) # w_trace w)"

lemma redacted_first_later: "redacted_first r e w w1 \<Longrightarrow> evolves K w1 w2 \<Longrightarrow> redacted_first r e w w2"
  unfolding redacted_first_def using evolves_trace by (metis append.assoc)

definition ids_well_formed :: "env \<Rightarrow> room_id \<Rightarrow> event_id \<Rightarrow> bool" where
  "ids_well_formed E room event \<longleftrightarrow> l_room_ok (e_lib E) room \<and> l_event_ok (e_lib E) event \<and>
     l_user_ok (e_lib E) (bot_mxid (c_domain (e_cfg E)))"

lemma redact_secret_run:
  assumes "ids_well_formed E room event"
  shows "\<exists>w1. redact_secret (Some room) (Some event) reason E w = (Ok (), w1) \<and> redacted_first room event w w1"
  using assms
  by (auto simp: redact_secret_def redact_event_def ids_well_formed_def ignore_def attempt_def bind_def andthen_def
      parse_room_def parse_event_def parse_user_def asks_def ensure_def ret_def fail_def txn_id_def fresh_def
      bot_user_id_def send_as_ghost_def mx_call_def redacted_first_def status_text_def tick_def emit_def
      split: http_out.split sum.split prod.split)

lemma redact_then:
  assumes "ids_well_formed E room event" and "within (evolves K) n"
  shows "redacted_first room event w (snd (andthen (redact_secret (Some room) (Some event) reason) n E w))"
proof -
  obtain w1 where w1: "redact_secret (Some room) (Some event) reason E w = (Ok (), w1)" "redacted_first room event w w1"
    using redact_secret_run [OF assms(1)] by blast
  have "evolves K w1 (snd (n E w1))" using assms(2) by (simp add: within_def)
  with w1 show ?thesis by (simp add: andthen_def bind_def redacted_first_later)
qed

text \<open>C33: the three places where a user pastes a secret into the room (the one-shot login, the
  password step of the dialogue, \<^verbatim>\<open>login-matrix\<close>) ask the homeserver to redact that message
  before anything else, whatever becomes of the secret.\<close>

theorem secrets_redacted_first:
  assumes "ids_well_formed E room event" and "cx_room cx = Some room" and "cx_event cx = Some event"
  shows "redacted_first room event w (snd (handle_one_shot_login cx E w)) \<and>
    redacted_first room event w (snd (execute_login_matrix cx E w)) \<and>
    redacted_first room event w
      (snd (handle_login_waiting_for_password (cx_sender cx) (cx_body cx) (Some room) (Some event) email E w))"
  unfolding handle_one_shot_login_def execute_login_matrix_def handle_login_waiting_for_password_def
    store_puppet_token_def assms(2,3)
  by (intro conjI) (rule redact_then [OF assms(1), where K = "sender_label (cx_sender cx)"],
      (intro frame_rules; simp add: sender_stmt_def))+

definition sample_command :: "string \<Rightarrow> command_context" where
  "sample_command body = \<lparr>cx_sender = ''@a:x.org'', cx_body = body, cx_room = Some ''!r:x.org'',
     cx_event = Some ''$s'', cx_content = \<lparr>mc_type = MText body, mc_relates = None\<rparr>\<rparr>"

theorem secrets_redacted_first_witness:
  "redacted_first ''!r:x.org'' ''$s'' sample_world
     (snd (execute_login_matrix (sample_command ''login-matrix tok'') sample_env sample_world))"
  by (rule secrets_redacted_first [THEN conjunct2, THEN conjunct1])
    (simp_all add: sample_command_def ids_well_formed_def sample_env_def plain_crates_def)

text \<open>C18: \<^verbatim>\<open>login-matrix\<close> takes only a token of the sender's own account: unless the
  homeserver says that the token belongs to the sender, nothing is stored and no puppet
  starts.\<close>

theorem login_matrix_only_own_token:
  assumes "second_word (cx_body cx) = Some token"
    and "fst (whoami token E (snd (redact_secret (cx_room cx) (cx_event cx) ''Removing Matrix access token'' E w)))
      \<noteq> Ok (cx_sender cx)"
  shows "only_sends w (snd (execute_login_matrix cx E w))"
proof -
  define K :: "label \<Rightarrow> bool" where "K = (\<lambda>l. case l of LEv _ \<Rightarrow> True | _ \<Rightarrow> False)"
  have g: "allows_ghost K" "\<And>e. K (LEv e)" by (simp_all add: K_def allows_ghost_def)
  let ?r = "redact_secret (cx_room cx) (cx_event cx) ''Removing Matrix access token''"
  obtain r w1 where w1: "?r E w = (r, w1)" by (cases "?r E w")
  obtain o1 w2 where w2: "whoami token E w1 = (o1, w2)" by (cases "whoami token E w1")
  have e1: "evolves K w w1"
    using redact_secret_evolves [OF g(1), of "cx_room cx" "cx_event cx"] withinD [of "evolves K" ?r E w r w1] w1 by simp
  have "within (evolves K) (whoami token)" by (intro frame_rules g)
  then have e2: "evolves K w1 w2" using withinD [of "evolves K" "whoami token" E w1 o1 w2] w2 by simp
  have e3: "evolves K w2 (snd (say cx m E w2))" for m
    using say_evolves [OF g(1)] by (simp add: within_def)
  have "calm ?r" unfolding redact_secret_def by (intro calm_rules)
  then have r: "r = Ok () \<or> (\<exists>e. r = Err e)" using calmD [of ?r E w] w1 by auto
  have e4: "evolves K w w2" "evolves K w (snd (say cx m E w2))" for m
    using evolves_trans [OF e2 e1] evolves_trans [OF e3] by blast+
  have "evolves K w (snd (execute_login_matrix cx E w))"
    using r w1 w2 assms e1 e4
    by (cases o1) (auto simp: execute_login_matrix_def andthen_def bind_def attempt_def)
  from only_sends_evolves [OF this] show ?thesis by (simp add: K_def)
qed

theorem login_matrix_only_own_token_witness:
  "only_sends sample_world (snd (execute_login_matrix (sample_command ''login-matrix tok'') sample_env sample_world))"
proof (rule login_matrix_only_own_token)
  show "second_word (cx_body (sample_command ''login-matrix tok'')) = Some ''tok''"
    by (simp add: sample_command_def) code_simp
  show "fst (whoami ''tok'' sample_env v) \<noteq> Ok u" for v u
    by (simp add: whoami_def json_field_def mx_call_def bind_def fail_def sample_env_def quiet_answers_def)
qed

section \<open>Commands that fail\<close>

lemma unquoted_lone:
  "unquoted s = (if s \<in> set [[CHR 0x22], [CHR 0x27]] then panic ''slice index starts at 1 but ends at 0''
     else ret (if quoted_with (CHR 0x22) s \<or> quoted_with (CHR 0x27) s then take (length s - 2) (drop 1 s) else s))"
  by (cases s; cases "tl s") (auto simp: unquoted_def quoted_with_def starts_with_def ends_with_def)

text \<open>The signature command panics exactly on an argument that is one quotation mark: the
  slice between its quotes starts after it ends. Every other signature command returns.\<close>

theorem signature_panics_on_lone_quote:
  "comes_back (fst (execute_signature cx E w)) =
     (signature_args (cx_body cx) \<notin> set [[CHR 0x22], [CHR 0x27]])"
proof -
  let ?a = "signature_args (cx_body cx)"
  have say: "calm (say cx m)" for m unfolding say_def by (intro calm_rules)
  have "calm (show_signature cx)" "calm (clear_signature cx)"
    unfolding show_signature_def clear_signature_def by (intro calm_rules say)+
  moreover have "calm (set_signature cx ?a)" if "?a \<notin> set [[CHR 0x22], [CHR 0x27]]"
    using that unfolding set_signature_def unquoted_lone by (simp add: calm_rules say)
  moreover have "\<not> comes_back (fst (set_signature cx ?a E w))" if "?a \<in> set [[CHR 0x22], [CHR 0x27]]"
    using that unfolding set_signature_def unquoted_lone by (simp add: bind_def panic_def)
  ultimately show ?thesis
    by (auto simp: execute_signature_def Let_def calm_def)
qed

section \<open>Edits of held mail\<close>

text \<open>An edit of a message that is still held rewrites the queued body by the edited event's
  id alone; whether the editor is the user who wrote the mail is not asked.\<close>

theorem edit_ignores_owner:
  assumes "\<not> is_bridge_user (te_sender ev)" and "te_kind ev = EMessage (Some content)"
    and "mc_relates content = Some (RelReplace target body)" and "e_fault (e_net E) (w_step w) = None"
  shows "t_outbound (w_db (snd (process_event ev E w))) =
    upd_rows (\<lambda>r. om_event r = target) (om_body_update (\<lambda>_. body)) (t_outbound (w_db w))"
proof -
  define K :: "label \<Rightarrow> bool" where "K = (\<lambda>l. case l of LEv _ \<Rightarrow> True | _ \<Rightarrow> False)"
  have "within (evolves K) (notify (Some r) m)" for r m
    by (intro frame_rules) (simp add: K_def allows_ghost_def)
  then have "only_sends v (snd (notify (Some r) m E v))" for r m v
    using only_sends_evolves [of K v] by (simp add: within_def K_def)
  then have quiet: "w_db (snd (notify (Some r) m E v)) = w_db v" for r m v
    by (simp add: only_sends_iff)
  show ?thesis using assms
    by (auto simp: process_event_def handle_message_event_def edit_queued_def
        update_outbound_body_by_event_def exec_changed_def bind_def attempt_def run_def Let_def ret_def quiet
        split: bool.split)
qed

theorem edit_ignores_owner_witness:
  "map om_body (t_outbound (w_db (snd (process_event
      \<lparr>te_sender = ''@b:y.org'', te_id = ''$x'', te_room = ''!other:y.org'',
       te_kind = EMessage (Some \<lparr>mc_type = MText '' * no'', mc_relates = Some (RelReplace ''$e'' ''no'')\<rparr>)\<rparr>
      sample_env sample_world)))) = [''no'']"
  by (subst edit_ignores_owner [where target = "''$e''" and body = "''no''"
      and content = "\<lparr>mc_type = MText '' * no'', mc_relates = Some (RelReplace ''$e'' ''no'')\<rparr>"])
    (simp_all add: is_bridge_user_def starts_with_def sample_defs upd_rows_def)

end
