(* ===== verification/Inbound.thy ===== *)
theory Inbound
  imports Poller Samples
begin

text \<open>
  What inbound bridging guarantees: a bridged email is not bridged again, the user's own mail
  and mail without a sender leave no trace, the read-state gate follows \<^verbatim>\<open>$seen\<close>, a windowed
  backfill keeps its anchor, and a poll stays within its own user's rows.
\<close>

section \<open>Only the key-value rows of one user\<close>

definition kv_only :: "mxid \<Rightarrow> label \<Rightarrow> bool" where
  "kv_only user l \<longleftrightarrow> (case l of
     LDb (PutKv u _ _) \<Rightarrow> u = user | LDb (DelKv u _) \<Rightarrow> u = user | LDb _ \<Rightarrow> False | _ \<Rightarrow> True)"

lemma kv_only_step:
  assumes st: "world_step l w1 w2" and l: "l = LTick \<or> kv_only u l" and "\<exists>x. w_db w1 = d\<lparr>t_state := x\<rparr>"
  shows "\<exists>x. w_db w2 = d\<lparr>t_state := x\<rparr>"
  using st
proof (cases rule: world_step.cases)
  case (step_db s n d')
  have "\<exists>y. d' = (w_db w1)\<lparr>t_state := y\<rparr>"
    using step_db l by (cases s) (auto simp: kv_only_def split: if_splits)
  then show ?thesis using step_db assms(3) by auto
next
  case (step_mem m)
  then show ?thesis using assms(3) by (cases m) auto
qed (use assms(3) in \<open>auto simp: emit_def\<close>)

lemma kv_only_db: "evolves (kv_only u) w w' \<Longrightarrow> w_db w' = (w_db w)\<lparr>t_state := t_state (w_db w')\<rparr>"
proof -
  assume e: "evolves (kv_only u) w w'"
  have "\<exists>x. w_db w = (w_db w)\<lparr>t_state := x\<rparr>" by (rule exI [of _ "t_state (w_db w)"]) simp
  then have "\<exists>x. w_db w' = (w_db w)\<lparr>t_state := x\<rparr>"
    by (rule evolves_invariant [OF e]) (blast intro: kv_only_step)
  then show ?thesis by auto
qed

section \<open>A bridged email is not bridged again\<close>

definition mirrors_read :: "mxid \<Rightarrow> email_id \<Rightarrow> label \<Rightarrow> bool" where
  "mirrors_read user i l \<longleftrightarrow> (case l of
     LDb (PutKv u k _) \<Rightarrow> u = user \<and> k = read_synced_key i
   | LDb (DelKv u k) \<Rightarrow> u = user \<and> k = read_synced_key i
   | LEv (EvMx (ReadReceipt _ _ _)) \<Rightarrow> True
   | LEv (EvMx (MarkedUnread _ _ _ _)) \<Rightarrow> True
   | _ \<Rightarrow> False)"

lemma mirrors_read_allowed: "em_id e = Some i \<Longrightarrow> allows_read_state (mirrors_read u i) u (em_id e)"
  by (simp add: allows_read_state_def mirrors_read_def)

definition read_request :: "ev \<Rightarrow> bool" where
  "read_request e \<longleftrightarrow> (case e of EvMx (ReadReceipt _ _ _) \<Rightarrow> True | EvMx (MarkedUnread _ _ _ _) \<Rightarrow> True | _ \<Rightarrow> False)"

lemma mapped_email_evolves:
  assumes "em_id e = Some i" and "is_mapped i (w_db w)"
  shows "evolves (mirrors_read u i) w (snd (process_email u c e E w))"
proof (cases "e_fault (e_net E) (w_step w)")
  case (Some m)
  then have "snd (process_email u c e E w) = tick E w"
    using assms(1) by (simp add: process_email_def need_def has_message_mapped_def query_def bind_def Let_def)
  then show ?thesis by (simp add: tick_evolves evolves_refl)
next
  case None
  then have "process_email u c e E w = sync_read_state u e E (tick E w)"
    using assms by (simp add: process_email_def need_def has_message_mapped_def query_def bind_def Let_def)
  moreover have "evolves (mirrors_read u i) (tick E w) (snd (sync_read_state u e E (tick E w)))"
    using read_state_mirror_evolves [OF mirrors_read_allowed [OF assms(1), of u]] by (simp add: within_def)
  moreover have "evolves (mirrors_read u i) w (tick E w)" by (intro tick_evolves evolves_refl)
  ultimately show ?thesis by (metis evolves_trans)
qed

lemma mirrors_read_rows:
  assumes "evolves (mirrors_read u i) w w'"
  shows "filter (\<lambda>r. sr_pk r \<noteq> (u, read_synced_key i)) (t_state (w_db w')) =
    filter (\<lambda>r. sr_pk r \<noteq> (u, read_synced_key i)) (t_state (w_db w))"
    (is "?rest w' = ?rest w")
proof (rule evolves_invariant [OF assms, where I = "\<lambda>w'. ?rest w' = ?rest w"])
  fix l w1 w2
  assume st: "world_step l w1 w2" and l: "l = LTick \<or> mirrors_read u i l" and k: "?rest w1 = ?rest w"
  have put: "filter (\<lambda>r. sr_pk r \<noteq> a) (drop_rows (\<lambda>r. sr_pk r = a) t) = filter (\<lambda>r. sr_pk r \<noteq> a) t" for a t
    by (simp add: drop_rows_def)
  show "?rest w2 = ?rest w"
    using st
  proof (cases rule: world_step.cases)
    case (step_db s n d)
    then show ?thesis using l k
      by (cases s) (auto simp: mirrors_read_def put_row_def put sr_pk_def [of "state_row_ext _ _ _ _"] split: if_splits)
  next
    case (step_mem m)
    then show ?thesis using k by (cases m) auto
  qed (use k in \<open>auto simp: emit_def\<close>)
qed simp

text \<open>C15: an email that is already mapped to an event, or known to be destroyed, is not bridged
  again: whatever it is processed with, at most its own read-state row in the key-value store of that
  user changes, every other row of every table stays, and only read receipts and unread flags are sent.\<close>

theorem mapped_email_not_bridged_again:
  assumes "em_id e = Some i" and "is_mapped i (w_db w)"
  defines "w' \<equiv> \<lambda>E u c. snd (process_email u c e E w)"
  shows "w_db (w' E u c) = (w_db w)\<lparr>t_state := t_state (w_db (w' E u c))\<rparr> \<and>
    filter (\<lambda>r. sr_pk r \<noteq> (u, read_synced_key i)) (t_state (w_db (w' E u c))) =
      filter (\<lambda>r. sr_pk r \<noteq> (u, read_synced_key i)) (t_state (w_db w)) \<and>
    (\<exists>sent. w_trace (w' E u c) = sent @ w_trace w \<and> list_all read_request sent)"
proof (intro conjI)
  have ev: "evolves (mirrors_read u i) w (w' E u c)"
    unfolding w'_def by (rule mapped_email_evolves [OF assms(1,2)])
  then have "evolves (kv_only u) w (w' E u c)"
    by (rule evolves_mono) (auto simp: mirrors_read_def kv_only_def split: label.splits stmt.splits)
  then show "w_db (w' E u c) = (w_db w)\<lparr>t_state := t_state (w_db (w' E u c))\<rparr>" by (rule kv_only_db)
  show "filter (\<lambda>r. sr_pk r \<noteq> (u, read_synced_key i)) (t_state (w_db (w' E u c))) =
      filter (\<lambda>r. sr_pk r \<noteq> (u, read_synced_key i)) (t_state (w_db w))"
    by (rule mirrors_read_rows [OF ev])
  show "\<exists>sent. w_trace (w' E u c) = sent @ w_trace w \<and> list_all read_request sent"
    using evolves_events [OF ev] unfolding mirrors_read_def read_request_def by simp
qed

theorem mapped_email_not_bridged_again_witness:
  "\<exists>sent. w_trace (snd (process_email ''@a:x.org'' sample_client sample_email sample_env
      (sample_world\<lparr>w_db := sample_db\<lparr>t_messages := [(''M1'', ''$m'')]\<rparr>\<rparr>))) = sent \<and> list_all read_request sent"
proof -
  let ?w = "sample_world\<lparr>w_db := sample_db\<lparr>t_messages := [(''M1'', ''$m'')]\<rparr>\<rparr>"
  have m: "em_id sample_email = Some ''M1''" "is_mapped ''M1'' (w_db ?w)" and t: "w_trace ?w = []"
    by (simp_all add: sample_email_def is_mapped_def sample_world_def)
  show ?thesis
    using mapped_email_not_bridged_again [OF m, where E = sample_env and u = "''@a:x.org''" and c = sample_client,
        THEN conjunct2, THEN conjunct2]
    by (simp only: t append_Nil2)
qed

section \<open>Mail that is not bridged\<close>

definition known_address :: "mxid \<Rightarrow> db \<Rightarrow> addr option" where
  "known_address user d = map_option sr_val (find_row (\<lambda>r. sr_pk r = (user, ''user_email'')) (t_state d))"

text \<open>The user's own mail and mail without a sender are skipped without any effect: no row
  of the database changes and nothing is sent.\<close>

theorem own_or_senderless_mail_skipped:
  assumes "em_id e = Some i" and "\<not> is_mapped i (w_db w)"
    and "should_skip_inbound (map_option ea_email (first_from e)) (known_address u (w_db w))"
  shows "w_db (snd (process_email u c e E w)) = w_db w \<and> w_trace (snd (process_email u c e E w)) = w_trace w"
  using assms
  by (simp add: process_email_def need_def has_message_mapped_def get_user_email_def get_jmap_state_def
      known_address_def query_def bind_def ret_def Let_def split: option.split)

theorem own_or_senderless_mail_skipped_witness:
  "w_db (snd (process_email ''@a:x.org'' sample_client (sample_email\<lparr>em_from := None\<rparr>) sample_env sample_world))
    = sample_db"
proof -
  have "em_id (sample_email\<lparr>em_from := None\<rparr>) = Some ''M1''" "\<not> is_mapped ''M1'' (w_db sample_world)"
    "should_skip_inbound (map_option ea_email (first_from (sample_email\<lparr>em_from := None\<rparr>)))
      (known_address ''@a:x.org'' (w_db sample_world))"
    by (simp_all add: sample_email_def is_mapped_def sample_defs empty_db_def should_skip_inbound_def first_from_def)
  from own_or_senderless_mail_skipped [OF this, of sample_client sample_env, THEN conjunct1]
  show ?thesis by (simp only: sample_world_def world.simps)
qed

section \<open>The read-state gate\<close>

definition gate :: "mxid \<Rightarrow> email_id \<Rightarrow> db \<Rightarrow> bool" where
  "gate user i d \<longleftrightarrow> find_row (\<lambda>r. sr_pk r = (user, read_synced_key i)) (t_state d) \<noteq> None"

definition edge_label :: "mxid \<Rightarrow> bool \<Rightarrow> email_id \<Rightarrow> label \<Rightarrow> bool" where
  "edge_label user seen i l \<longleftrightarrow> (case l of
     LDb (PutKv u k _) \<Rightarrow> u = user \<and> k = read_synced_key i \<and> seen
   | LDb (DelKv u k) \<Rightarrow> u = user \<and> k = read_synced_key i \<and> \<not> seen
   | LEv (EvMx (ReadReceipt _ _ _)) \<Rightarrow> seen
   | LEv (EvMx (MarkedUnread _ _ b _)) \<Rightarrow> b = (\<not> seen)
   | _ \<Rightarrow> False)"

definition edge_request :: "bool \<Rightarrow> ev \<Rightarrow> bool" where
  "edge_request seen e \<longleftrightarrow> (case e of
     EvMx (ReadReceipt _ _ _) \<Rightarrow> seen | EvMx (MarkedUnread _ _ b _) \<Rightarrow> b = (\<not> seen) | _ \<Rightarrow> False)"

lemma edge_label_request: "edge_label u seen i (LEv e) = edge_request seen e"
  by (simp add: edge_label_def edge_request_def)

lemma read_state_edges:
  "em_id e = Some i \<Longrightarrow> within (evolves (edge_label u (is_seen e) i)) (sync_read_state u e)"
  unfolding sync_read_state_def mirror_edge_def mirror_read_def mirror_unread_def Let_def
  by (intro frame_rules; simp add: edge_label_def)

lemma edge_gate_step:
  assumes "world_step l w1 w2" and "l = LTick \<or> edge_label u seen i l"
    and "gate u i (w_db w1) = g \<or> gate u i (w_db w1) = seen"
  shows "gate u i (w_db w2) = g \<or> gate u i (w_db w2) = seen"
  using assms(1)
proof (cases rule: world_step.cases)
  case (step_db s n d)
  have "gate u i d = seen" using step_db assms(2)
    by (cases s) (auto simp: edge_label_def gate_def find_row_put_same [where key = sr_pk, simplified] split: if_splits)
  then show ?thesis using step_db by simp
next
  case (step_mem m)
  then show ?thesis using assms(3) by (cases m) auto
qed (use assms(3) in \<open>auto simp: emit_def\<close>)

text \<open>C21: the read-state gate of an email either stays or becomes what \<^verbatim>\<open>$seen\<close> says, and
  the requests made are those of the edge taken: receipts and a cleared unread flag for an email
  that is seen, a set unread flag for one that is not.\<close>

theorem read_gate_follows_seen:
  assumes "em_id e = Some i"
  shows "(gate u i (w_db (snd (sync_read_state u e E w))) = gate u i (w_db w) \<or>
      gate u i (w_db (snd (sync_read_state u e E w))) = is_seen e) \<and>
    (\<exists>sent. w_trace (snd (sync_read_state u e E w)) = sent @ w_trace w \<and> list_all (edge_request (is_seen e)) sent)"
proof
  let ?w' = "snd (sync_read_state u e E w)"
  have ev: "evolves (edge_label u (is_seen e) i) w ?w'"
    using read_state_edges [OF assms] by (simp add: within_def)
  show "gate u i (w_db ?w') = gate u i (w_db w) \<or> gate u i (w_db ?w') = is_seen e"
    by (rule evolves_invariant [OF ev], simp, rule edge_gate_step)
  show "\<exists>sent. w_trace ?w' = sent @ w_trace w \<and> list_all (edge_request (is_seen e)) sent"
    using evolves_events [OF ev] by (simp add: edge_label_request)
qed

theorem read_gate_follows_seen_witness:
  "\<exists>sent. w_trace (snd (sync_read_state ''@a:x.org'' sample_email sample_env sample_world)) = sent @ [] \<and>
    list_all (edge_request False) sent"
proof -
  have "em_id sample_email = Some ''M1''" "is_seen sample_email = False" "w_trace sample_world = []"
    by (simp_all add: sample_email_def is_seen_def sample_world_def)
  then show ?thesis using read_gate_follows_seen [of sample_email "''M1''", where u = "''@a:x.org''" and w = sample_world and E = sample_env]
    by (simp only: simp_thms)
qed

text \<open>When the gate already agrees with \<^verbatim>\<open>$seen\<close>, delivering the email again does
  nothing.\<close>

theorem read_state_idempotent:
  assumes "em_id e = Some i" and "gate u i (w_db w) = is_seen e" and "e_fault (e_net E) (w_step w) = None"
  shows "sync_read_state u e E w = (Ok (), tick E w)"
  using assms
  by (auto simp: sync_read_state_def get_jmap_state_def query_def attempt_def bind_def ret_def gate_def Let_def
      split: option.splits)

theorem read_state_idempotent_witness:
  "sync_read_state ''@a:x.org'' sample_email sample_env sample_world = (Ok (), tick sample_env sample_world)"
  by (rule read_state_idempotent [where i = "''M1''"])
    (simp_all add: sample_email_def is_seen_def gate_def sample_defs empty_db_def)

section \<open>The backfill window\<close>

lemma digits_val_snoc: "digits_val (s @ [c]) = 10 * digits_val s + digit_val c"
  by (simp add: digits_val_def)

lemma digit_char_val: "n < 10 \<Longrightarrow> digit_val (digit_char n) = n \<and> is_digit (digit_char n)"
  by (simp add: digit_char_def digit_val_def is_digit_def Let_def)

lemma show_nat_digits: "digits_val (show_nat n) = n \<and> list_all is_digit (show_nat n) \<and> show_nat n \<noteq> []"
proof (induction n rule: show_nat.induct)
  case (1 n)
  show ?case
  proof (cases "n < 10")
    case True
    then show ?thesis using digit_char_val [of n]
      by (simp add: show_nat.simps [of n] digits_val_def)
  next
    case False
    have m: "n mod 10 < 10" by simp
    show ?thesis using 1 False digit_char_val [OF m]
      by (simp add: show_nat.simps [of n] digits_val_snoc)
  qed
qed

lemma digit_no_sign: "is_digit c \<Longrightarrow> c \<noteq> CHR ''-'' \<and> c \<noteq> CHR ''+''"
  by (auto simp: is_digit_def Let_def)

lemma parse_show_nat: "n < 2 ^ 64 \<Longrightarrow> parse_usize (show_nat n) = Some n"
  using show_nat_digits [of n] digit_no_sign
  by (cases "show_nat n") (auto simp: parse_usize_def strip_plus_def parse_digits_def)

lemma parse_show_int:
  assumes "- (2 ^ 63) \<le> z" and "z < 2 ^ 63"
  shows "parse_i64 (show_int z) = Some z"
proof (cases "z < 0")
  case True
  then show ?thesis using assms show_nat_digits [of "nat (- z)"]
    by (simp add: show_int_def parse_i64_def parse_digits_def nat_le_iff)
next
  case False
  then show ?thesis using assms show_nat_digits [of "nat z"] digit_no_sign
    by (cases "show_nat (nat z)") (auto simp: show_int_def parse_i64_def strip_plus_def parse_digits_def nat_less_iff)
qed

text \<open>The cutoff of a windowed backfill is anchored once: after it was resolved and saved,
  every later resolution gives the same cutoff, however much time has passed, as long as its row
  is there.\<close>

theorem backfill_cutoff_stable:
  assumes "c_window (e_cfg E) = Some window" and "- (2 ^ 63) \<le> cutoff" and "cutoff < 2 ^ 63"
    and "find_row (\<lambda>r. sr_pk r = (u, backfill_cutoff_key)) (t_state (w_db w)) =
      Some \<lparr>sr_user = u, sr_key = backfill_cutoff_key, sr_val = show_int cutoff\<rparr>"
    and "e_fault (e_net E) (w_step w) = None"
  shows "resolve_backfill_cutoff u E w = (Ok (Some cutoff), tick E w)"
  using assms parse_show_int [OF assms(2,3)]
  by (simp add: resolve_backfill_cutoff_def asks_def get_jmap_state_def query_def attempt_def bind_def ret_def Let_def)

theorem backfill_cutoff_stable_witness:
  "resolve_backfill_cutoff ''@a:x.org'' (sample_env\<lparr>e_cfg := sample_config\<lparr>c_window := Some ''1y''\<rparr>\<rparr>)
      (sample_world\<lparr>w_db := sample_db\<lparr>t_state := [\<lparr>sr_user = ''@a:x.org'', sr_key = backfill_cutoff_key,
        sr_val = show_int 1700000000\<rparr>]\<rparr>\<rparr>)
    = (Ok (Some 1700000000), tick (sample_env\<lparr>e_cfg := sample_config\<lparr>c_window := Some ''1y''\<rparr>\<rparr>)
      (sample_world\<lparr>w_db := sample_db\<lparr>t_state := [\<lparr>sr_user = ''@a:x.org'', sr_key = backfill_cutoff_key,
        sr_val = show_int 1700000000\<rparr>]\<rparr>\<rparr>))"
  by (rule backfill_cutoff_stable) (simp_all add: sample_env_def sample_world_def quiet_answers_def sr_pk_def)

section \<open>A poll stays within its user\<close>

text \<open>
  What one user's inbound side may do to the database, as a bound on labels; of the queue, the
  accounts, the signatures and the transactions it touches nothing.
\<close>

definition own_rows :: "mxid \<Rightarrow> label \<Rightarrow> bool" where
  "own_rows user l \<longleftrightarrow> (case l of
     LDb (PutKv u _ _) \<Rightarrow> u = user | LDb (DelKv u _) \<Rightarrow> u = user | LDb (PutGhost _ _ u) \<Rightarrow> u = user
   | LDb (PutMessage _ _) \<Rightarrow> True | LDb (PutThreadAndSubject _ _ _ _) \<Rightarrow> True | LDb (SetLatest _ _) \<Rightarrow> True
   | LDb (MarkDestroyed _) \<Rightarrow> True | LDb (PutMailbox _ _) \<Rightarrow> True
   | LDb (TakeLock _) \<Rightarrow> True | LDb (DropLock _) \<Rightarrow> True
   | LDb _ \<Rightarrow> False | LMem _ \<Rightarrow> False | _ \<Rightarrow> True)"

lemma own_rows_sync: "allows_sync (own_rows u) u"
  by (simp add: allows_sync_def allows_rooms_def allows_attach_def allows_ghost_def allows_jread_def own_rows_def)

text \<open>The part of a world another user can see through the tables keyed by user.\<close>

definition others_view :: "mxid \<Rightarrow> db \<Rightarrow> state_row list \<times> registered_user list \<times> (mxid \<times> string) list \<times> outbound_row list \<times> (string \<times> int) list" where
  "others_view user d = (filter (\<lambda>r. sr_user r \<noteq> user) (t_state d), t_users d, t_sigs d, t_outbound d, t_txns d)"

lemma other_rows_kept:
  "filter (\<lambda>r. (sr_user r = u \<longrightarrow> sr_key r \<noteq> k) \<and> sr_user r \<noteq> u) t = filter (\<lambda>r. sr_user r \<noteq> u) t"
  by (rule filter_cong) auto

lemma own_rows_step:
  assumes st: "world_step l w1 w2" and l: "l = LTick \<or> own_rows u l" and v: "others_view u (w_db w1) = v"
  shows "others_view u (w_db w2) = v"
  using st
proof (cases rule: world_step.cases)
  case (step_db s n d)
  have "others_view u d = others_view u (w_db w1)"
    using step_db l by (cases s)
      (auto simp: own_rows_def others_view_def put_row_def drop_rows_def sr_pk_def other_rows_kept
        split: if_splits)
  then show ?thesis using step_db v by simp
next
  case (step_mem m)
  then show ?thesis using l by (simp add: own_rows_def)
qed (use v in \<open>auto simp: emit_def\<close>)

text \<open>C25: a poll, or any number of turns of the backfill task, of one user keeps every
  constraint of the schema, leaves the queue, the accounts, the signatures and the processed
  transactions as they were, and touches no other user's key-value rows.\<close>

theorem poll_stays_within_user:
  assumes "db_ok (w_db w)"
  shows "db_ok (w_db (snd (poll u c E w))) \<and> others_view u (w_db (snd (poll u c E w))) = others_view u (w_db w) \<and>
    db_ok (w_db (snd (run_backfill n u c E w))) \<and>
    others_view u (w_db (snd (run_backfill n u c E w))) = others_view u (w_db w)"
proof -
  have "evolves (own_rows u) w (snd (poll u c E w))" "evolves (own_rows u) w (snd (run_backfill n u c E w))"
    using poll_evolves [OF own_rows_sync] run_backfill_evolves [OF own_rows_sync] by (simp_all add: within_def)
  moreover have "others_view u (w_db w') = others_view u (w_db w)" if "evolves (own_rows u) w w'" for w'
    by (rule evolves_invariant [OF that]) (auto intro: own_rows_step)
  ultimately show ?thesis using evolves_db_ok assms by blast
qed

theorem poll_stays_within_user_witness:
  "db_ok (w_db (snd (poll ''@b:x.org'' sample_client sample_env sample_world))) \<and>
   others_view ''@b:x.org'' (w_db (snd (poll ''@b:x.org'' sample_client sample_env sample_world)))
     = others_view ''@b:x.org'' sample_db"
proof -
  have "db_ok (w_db sample_world)" "w_db sample_world = sample_db" by (simp_all add: sample_world_def)
  then show ?thesis using poll_stays_within_user [of sample_world "''@b:x.org''" sample_client sample_env 0] by simp
qed

end
