(* ===== verification/Delivery.thy ===== *)
theory Delivery
  imports Outbox Access Inbound
begin

text \<open>
  From a Matrix event to a mail: the endpoints, the polls, the backfills, the pruning and the
  outbound worker take turns on one world, in any order. What the worker submits is traced back
  through the queue to an event of the user whose account sends it.
\<close>

section \<open>Turns\<close>

datatype duty =
    Deliver timeline_event
  | Receipt "ephemeral option"
  | Poll mxid jclient
  | Backfill nat mxid jclient
  | Prune
  | Work

text \<open>The errors of a turn are logged where it runs; the next turn starts from the world it left.\<close>

fun perform :: "duty \<Rightarrow> unit act" where
  "perform (Deliver ev) = process_event ev"
| "perform (Receipt e) = process_ephemeral e"
| "perform (Poll u c) = poll u c"
| "perform (Backfill n u c) = bind (run_backfill n u c) (\<lambda>_. ret ())"
| "perform Prune = prune_old_data"
| "perform Work = retry_round"

fun after :: "env \<Rightarrow> duty list \<Rightarrow> world \<Rightarrow> world" where
  "after E [] w = w"
| "after E (d # ds) w = after E ds (snd (perform d E w))"

section \<open>Who is in the queue\<close>

definition queues_for :: "mxid set \<Rightarrow> label \<Rightarrow> bool" where
  "queues_for us l \<longleftrightarrow> (\<forall>u r e b h t a dl. l = LDb (Enqueue u r e b h t a dl) \<longrightarrow> u \<in> us)"

definition authored :: "mxid set \<Rightarrow> world \<Rightarrow> bool" where
  "authored us w \<longleftrightarrow> (\<forall>r \<in> set (t_outbound (w_db w)). om_user r \<in> us)"

lemma exec_owners:
  assumes "exec t s d = Inr (n, d')" and "queues_for us (LDb s)"
    and "\<forall>r \<in> set (t_outbound d). om_user r \<in> us" and "r \<in> set (t_outbound d')"
  shows "om_user r \<in> us"
  using assms by (cases s) (auto simp: queues_for_def set_upd_rows split: if_splits option.splits)

lemma queues_for_authored:
  assumes "evolves (queues_for us) w w'" and "authored us w"
  shows "authored us w'"
proof (rule evolves_invariant [OF assms(1), where I = "authored us"])
  fix l w1 w2
  assume st: "world_step l w1 w2" and l: "l = LTick \<or> queues_for us l" and a: "authored us w1"
  show "authored us w2"
    using st
  proof (cases rule: world_step.cases)
    case (step_db s n d)
    then show ?thesis using l a exec_owners [of "w_clock w1" s "w_db w1" n d us] by (auto simp: authored_def)
  next
    case (step_mem m)
    then show ?thesis using a by (cases m) (auto simp: authored_def)
  qed (use a in \<open>auto simp: authored_def emit_def\<close>)
qed (rule assms(2))

lemma queues_for_simps [simp]:
  "queues_for us (LEv e)" "queues_for us (LMem m)" "queues_for us LTick"
  "queues_for us (LDb s) \<longleftrightarrow> (\<forall>u r e b h t a dl. s = Enqueue u r e b h t a dl \<longrightarrow> u \<in> us)"
  by (auto simp: queues_for_def)

lemma allows_queues_for [simp]:
  "allows_submission (queues_for us) m" "allows_sync (queues_for us) u" "allows_jread (queues_for us)"
  by (simp_all add: allows_submission_def allows_jread_def allows_sync_def allows_rooms_def allows_attach_def
      allows_ghost_def)

lemma work_queues_for: "within (evolves (queues_for us)) retry_round"
proof -
  have "within (evolves (queues_for us)) (handle_message m)" for m
    by (intro frame_rules) simp_all
  then show ?thesis unfolding retry_round_def by (intro frame_rules; simp)
qed

lemma deliver_queues_for:
  assumes "te_sender ev \<in> us"
  shows "within (evolves (queues_for us)) (process_event ev)"
proof -
  have "evolves (queues_for us) w (snd (process_event ev E w))" for E w
  proof (rule evolves_mono)
    show "evolves (sender_label (te_sender ev)) w (snd (process_event ev E w))"
      using event_sender [of ev] by (simp add: within_def)
    show "queues_for us l" if "sender_label (te_sender ev) l" for l
      using that assms by (cases l) (auto simp: sender_stmt_def)
  qed
  then show ?thesis by (simp add: within_def)
qed

lemma perform_queues_for:
  assumes "\<And>ev. d = Deliver ev \<Longrightarrow> te_sender ev \<in> us"
  shows "within (evolves (queues_for us)) (perform d)"
proof (cases d)
  case (Receipt e)
  have "within (evolves (queues_for us)) (process_ephemeral e)"
    unfolding process_ephemeral_def handle_receipt_def handle_receipt_entry_def mark_read_for_def
    by (cases e; simp add: frame_rules split: ephemeral.split)
  then show ?thesis by (simp add: Receipt)
next
  case Prune
  have "within (evolves (queues_for us)) prune_old_data"
    unfolding prune_old_data_def exec_unit_def by (intro frame_rules; simp)
  then show ?thesis by (simp add: Prune)
qed (use assms deliver_queues_for work_queues_for in \<open>auto intro!: frame_rules\<close>)

definition authors :: "duty list \<Rightarrow> mxid set" where
  "authors ds = {te_sender ev | ev. Deliver ev \<in> set ds}"

lemma after_authored: "authored us w \<Longrightarrow> authors ds \<subseteq> us \<Longrightarrow> authored us (after E ds w)"
proof (induction ds arbitrary: w)
  case (Cons d ds)
  have "within (evolves (queues_for us)) (perform d)"
    by (rule perform_queues_for) (use Cons.prems(2) in \<open>auto simp: authors_def\<close>)
  then have "authored us (snd (perform d E w))"
    using queues_for_authored [OF _ Cons.prems(1)] by (simp add: within_def)
  then show ?case using Cons by (auto simp: authors_def)
qed simp

text \<open>C5: whatever the bridge did before, starting from an empty queue, a mail that the outbound
  worker submits goes through the account of a user from whom a Matrix event was delivered in the
  meantime: nobody's account sends mail that nobody with that Matrix id asked for.\<close>

theorem submitted_mail_has_author:
  assumes "t_outbound (w_db w) = []"
  shows "\<exists>u. w_trace (snd (retry_round E (after E ds w))) = u @ w_trace (after E ds w) \<and>
    (\<forall>c d. EvJmap c (Submit d) \<in> set u \<longrightarrow>
      (\<exists>ev. Deliver ev \<in> set ds \<and> client_of (te_sender ev) (after E ds w) = Some c))"
proof -
  have "authored (authors ds) (after E ds w)"
    by (rule after_authored) (use assms in \<open>simp_all add: authored_def\<close>)
  then have author_of: "\<exists>ev. Deliver ev \<in> set ds \<and> om_user row = te_sender ev"
    if "row \<in> set (t_outbound (w_db (after E ds w)))" for row
    using that by (auto simp: authored_def authors_def)
  obtain u where u: "w_trace (snd (retry_round E (after E ds w))) = u @ w_trace (after E ds w)"
    "\<And>c d. EvJmap c (Submit d) \<in> set u \<Longrightarrow> \<exists>row \<in> set (t_outbound (w_db (after E ds w))).
      sends_for (after E ds w) (outbound_message.truncate row) (EvJmap c (Submit d))"
    using round_submits [OF surjective_pairing, of E "after E ds w"] by blast
  have "\<exists>ev. Deliver ev \<in> set ds \<and> client_of (te_sender ev) (after E ds w) = Some c"
    if "EvJmap c (Submit d) \<in> set u" for c d
    using u(2) [OF that] author_of by (fastforce simp: sends_for_def outbound_message.defs)
  then show ?thesis using u(1) by blast
qed

text \<open>An event of \<open>@a:x.org\<close> in the room of a contact, and the mail that comes of it.\<close>

definition ghost_event :: timeline_event where
  "ghost_event = \<lparr>te_sender = ''@a:x.org'', te_id = ''$e1'', te_room = ''!r:x.org'',
     te_kind = EMessage (Some \<lparr>mc_type = MText ''hi'', mc_relates = None\<rparr>)\<rparr>"

definition idle_world :: world where
  "idle_world = mail_world\<lparr>w_db := (w_db mail_world)\<lparr>t_outbound := []\<rparr>\<rparr>"

lemma mail_of_event:
  "list_ex is_submit (w_trace (snd (retry_round mail_env (after mail_env [Deliver ghost_event] idle_world))))"
  by code_simp

lemma no_mail_yet: "\<not> list_ex is_submit (w_trace (after mail_env [Deliver ghost_event] idle_world))"
  by code_simp

theorem submitted_mail_has_author_witness:
  "\<exists>c d. EvJmap c (Submit d) \<in> set (w_trace (snd (retry_round mail_env (after mail_env [Deliver ghost_event] idle_world))))
     \<and> client_of ''@a:x.org'' (after mail_env [Deliver ghost_event] idle_world) = Some c"
proof -
  let ?w = "after mail_env [Deliver ghost_event] idle_world"
  have "t_outbound (w_db idle_world) = []" by (simp add: idle_world_def)
  from submitted_mail_has_author [OF this, of mail_env "[Deliver ghost_event]"] obtain u where
    u: "w_trace (snd (retry_round mail_env ?w)) = u @ w_trace ?w"
      "\<forall>c d. EvJmap c (Submit d) \<in> set u \<longrightarrow> (\<exists>ev. Deliver ev \<in> set [Deliver ghost_event] \<and> client_of (te_sender ev) ?w = Some c)"
    by blast
  obtain e where e: "e \<in> set (w_trace (snd (retry_round mail_env ?w)))" "is_submit e"
    using mail_of_event by (auto simp: list_ex_iff)
  then have in_u: "e \<in> set u" using no_mail_yet u(1) by (auto simp: list_ex_iff)
  obtain c d where cd: "e = EvJmap c (Submit d)" using e(2) by (cases e rule: is_submit.cases) auto
  then obtain ev where "Deliver ev \<in> set [Deliver ghost_event]" "client_of (te_sender ev) ?w = Some c"
    using u(2) in_u by blast
  moreover have "te_sender ghost_event = ''@a:x.org''" by (simp add: ghost_event_def)
  ultimately have "client_of ''@a:x.org'' ?w = Some c" by simp
  then show ?thesis using e(1) cd by blast
qed

end
