(* ===== verification/Room_Lock.thy ===== *)
theory Room_Lock
  imports Rooms
begin

text \<open>
  Several tasks that run \<^verbatim>\<open>ensure_email_space\<close> (\<^verbatim>\<open>src/src/ghost.rs\<close>) for one user at once:
  the sync of new mail, the space repair and the commands all call it. Each database or
  homeserver call is one step, and the steps of the tasks interleave in any order. The
  room-creation lock is the row of \<^verbatim>\<open>room_creation_locks\<close>; the scope guard releases it in a
  step of its own, after the function has left the block. \<open>Rooms\<close> has the same function as one
  task runs it alone.
\<close>

section \<open>The step relation\<close>

datatype phase =
    Checking | Locking | Rechecking | Creating
  | Recording room_id
  | Releasing "room_id option"
  | Returned room_id
  | Failed

record lock_system =
  ls_known :: "room_id option"
  ls_lock :: bool
  ls_phase :: "nat \<Rightarrow> phase"
  ls_created :: nat

definition lock_init :: lock_system where
  "lock_init = \<lparr>ls_known = None, ls_lock = False, ls_phase = (\<lambda>_. Checking), ls_created = 0\<rparr>"

definition goto :: "nat \<Rightarrow> phase \<Rightarrow> lock_system \<Rightarrow> lock_system" where
  "goto p ph s = s\<lparr>ls_phase := (ls_phase s)(p := ph)\<rparr>"

definition left_with :: "room_id option \<Rightarrow> phase" where
  "left_with r = (case r of Some room \<Rightarrow> Returned room | None \<Rightarrow> Failed)"

datatype lock_label = Quiet | RecordFailed

text \<open>
  The failing steps are the early returns of \<^verbatim>\<open>?\<close>, and the release whose error is ignored.
  Only a failure to record a room that was created is told apart.
\<close>

inductive lock_step :: "lock_label \<Rightarrow> lock_system \<Rightarrow> lock_system \<Rightarrow> bool" where
  check_known: "ls_phase s p = Checking \<Longrightarrow> ls_known s = Some r \<Longrightarrow>
    lock_step Quiet s (goto p (Returned r) s)"
| check_unknown: "ls_phase s p = Checking \<Longrightarrow> ls_known s = None \<Longrightarrow>
    lock_step Quiet s (goto p Locking s)"
| lock_taken: "ls_phase s p = Locking \<Longrightarrow> ls_lock s \<Longrightarrow>
    lock_step Quiet s (goto p Checking s)"
| lock_free: "ls_phase s p = Locking \<Longrightarrow> \<not> ls_lock s \<Longrightarrow>
    lock_step Quiet s (goto p Rechecking (s\<lparr>ls_lock := True\<rparr>))"
| outside_failed: "ls_phase s p = Checking \<or> ls_phase s p = Locking \<Longrightarrow>
    lock_step Quiet s (goto p Failed s)"
| recheck_known: "ls_phase s p = Rechecking \<Longrightarrow> ls_known s = Some r \<Longrightarrow>
    lock_step Quiet s (goto p (Releasing (Some r)) s)"
| recheck_unknown: "ls_phase s p = Rechecking \<Longrightarrow> ls_known s = None \<Longrightarrow>
    lock_step Quiet s (goto p Creating s)"
| recheck_failed: "ls_phase s p = Rechecking \<or> ls_phase s p = Creating \<Longrightarrow>
    lock_step Quiet s (goto p (Releasing None) s)"
| created: "ls_phase s p = Creating \<Longrightarrow>
    lock_step Quiet s (goto p (Recording r) (s\<lparr>ls_created := Suc (ls_created s)\<rparr>))"
| recorded: "ls_phase s p = Recording r \<Longrightarrow>
    lock_step Quiet s (goto p (Releasing (Some r)) (s\<lparr>ls_known := Some r\<rparr>))"
| record_failed: "ls_phase s p = Recording r \<Longrightarrow>
    lock_step RecordFailed s (goto p (Releasing None) s)"
| released: "ls_phase s p = Releasing r \<Longrightarrow>
    lock_step Quiet s (goto p (left_with r) (s\<lparr>ls_lock := False\<rparr>))"
| release_failed: "ls_phase s p = Releasing r \<Longrightarrow>
    lock_step Quiet s (goto p (left_with r) s)"

inductive lock_run :: "lock_label list \<Rightarrow> lock_system \<Rightarrow> bool" where
  run_init: "lock_run [] lock_init"
| run_step: "lock_run ls s \<Longrightarrow> lock_step l s s' \<Longrightarrow> lock_run (l # ls) s'"

section \<open>Mutual exclusion\<close>

fun holds :: "phase \<Rightarrow> bool" where
  "holds Rechecking = True"
| "holds Creating = True"
| "holds (Recording r) = True"
| "holds (Releasing r) = True"
| "holds _ = False"

text \<open>A task is inside the locked block only while the lock row exists, and it is the only one.\<close>

definition exclusive :: "lock_system \<Rightarrow> bool" where
  "exclusive s \<longleftrightarrow> (\<forall>p q. holds (ls_phase s p) \<longrightarrow> ls_lock s \<and> (holds (ls_phase s q) \<longrightarrow> p = q))"

lemma goto_simps [simp]:
  "ls_phase (goto p ph s) q = (if q = p then ph else ls_phase s q)"
  "ls_known (goto p ph s) = ls_known s" "ls_lock (goto p ph s) = ls_lock s"
  "ls_created (goto p ph s) = ls_created s"
  by (simp_all add: goto_def)

lemma holds_left [simp]: "\<not> holds (left_with r)"
  by (cases r) (simp_all add: left_with_def)

lemma exclusiveD: "exclusive s \<Longrightarrow> holds (ls_phase s p) \<Longrightarrow> holds (ls_phase s q) \<Longrightarrow> q = p"
  by (auto simp: exclusive_def)

lemma exclusive_lock: "exclusive s \<Longrightarrow> holds (ls_phase s p) \<Longrightarrow> ls_lock s"
  by (auto simp: exclusive_def)

text \<open>A step of a task that keeps or leaves its hold, and the step that takes the lock.\<close>

lemma exclusive_goto:
  "exclusive s \<Longrightarrow> (holds ph \<Longrightarrow> holds (ls_phase s p)) \<Longrightarrow> exclusive (goto p ph s)"
  unfolding exclusive_def by (auto split: if_splits)

lemma exclusive_unlock:
  "exclusive s \<Longrightarrow> holds (ls_phase s p) \<Longrightarrow> \<not> holds ph \<Longrightarrow> exclusive (goto p ph (s\<lparr>ls_lock := False\<rparr>))"
  unfolding exclusive_def by (auto split: if_splits)

lemma exclusive_lock_free:
  "exclusive s \<Longrightarrow> \<not> ls_lock s \<Longrightarrow> exclusive (goto p ph (s\<lparr>ls_lock := True\<rparr>))"
  unfolding exclusive_def by (auto split: if_splits)

lemma exclusive_update [simp]:
  "exclusive (goto p ph (s\<lparr>ls_created := n\<rparr>)) = exclusive (goto p ph s)"
  "exclusive (goto p ph (s\<lparr>ls_known := k\<rparr>)) = exclusive (goto p ph s)"
  by (simp_all add: exclusive_def)

lemma lock_step_exclusive: "lock_step l s s' \<Longrightarrow> exclusive s \<Longrightarrow> exclusive s'"
  by (induction rule: lock_step.induct)
    (auto intro: exclusive_goto exclusive_unlock exclusive_lock_free)

lemma lock_run_exclusive: "lock_run ls s \<Longrightarrow> exclusive s"
proof (induction rule: lock_run.induct)
  case run_init
  show ?case by (simp add: exclusive_def lock_init_def)
qed (rule lock_step_exclusive)

section \<open>One room\<close>

text \<open>
  While every record succeeds: the known room is the only one created, a task creates or
  records only while none is known, and whoever has a room has the known one.
\<close>

fun has_room :: "phase \<Rightarrow> room_id option" where
  "has_room (Releasing r) = r"
| "has_room (Returned r) = Some r"
| "has_room _ = None"

definition in_creation :: "phase \<Rightarrow> bool" where
  "in_creation ph \<longleftrightarrow> ph = Creating \<or> (\<exists>r. ph = Recording r)"

definition recording :: "lock_system \<Rightarrow> bool" where
  "recording s \<longleftrightarrow> (\<exists>p r. ls_phase s p = Recording r)"

definition one_room :: "lock_system \<Rightarrow> bool" where
  "one_room s \<longleftrightarrow> exclusive s
     \<and> (\<forall>p. in_creation (ls_phase s p) \<longrightarrow> ls_known s = None)
     \<and> (\<forall>p r. has_room (ls_phase s p) = Some r \<longrightarrow> ls_known s = Some r)
     \<and> ls_created s = (if ls_known s \<noteq> None \<or> recording s then 1 else 0)"

lemma has_room_left [simp]: "has_room (left_with r) = r"
  by (cases r) (simp_all add: left_with_def)

lemma creation_simps [simp]:
  "\<not> in_creation Checking" "\<not> in_creation Locking" "\<not> in_creation Rechecking" "in_creation Creating"
  "in_creation (Recording r)" "\<not> in_creation (Releasing x)" "\<not> in_creation (Returned r)"
  "\<not> in_creation Failed" "\<not> in_creation (left_with x)"
  by (auto simp: in_creation_def left_with_def split: option.splits)

lemma creation_holds: "in_creation ph \<Longrightarrow> holds ph"
  by (auto simp: in_creation_def)

lemma left_not_recording [simp]: "left_with x \<noteq> Recording r" "Recording r \<noteq> left_with x"
  by (auto simp: left_with_def split: option.splits)

lemma recording_goto:
  "(\<And>r. ph \<noteq> Recording r) \<Longrightarrow> (\<And>r. ls_phase s p \<noteq> Recording r) \<Longrightarrow> recording (goto p ph s) = recording s"
  unfolding recording_def goto_simps by metis

lemma recording_update [simp]:
  "recording (goto p ph (s\<lparr>ls_lock := b\<rparr>)) = recording (goto p ph s)"
  "recording (goto p ph (s\<lparr>ls_created := n\<rparr>)) = recording (goto p ph s)"
  "recording (goto p ph (s\<lparr>ls_known := k\<rparr>)) = recording (goto p ph s)"
  by (simp_all add: recording_def)

lemma recording_new [simp]: "recording (goto p (Recording r) s)"
  unfolding recording_def by auto

lemma recording_alone:
  "exclusive s \<Longrightarrow> holds (ls_phase s p) \<Longrightarrow> (\<And>r. ph \<noteq> Recording r) \<Longrightarrow> \<not> recording (goto p ph s)"
  unfolding recording_def goto_simps by (metis exclusiveD holds.simps(3))

text \<open>A step that neither creates nor records keeps the invariant.\<close>

lemma one_room_goto:
  assumes "one_room s" and "exclusive (goto p ph (s\<lparr>ls_lock := b\<rparr>))"
    and "(\<And>r. ls_phase s p \<noteq> Recording r)" and "(\<And>r. ph \<noteq> Recording r)"
    and "in_creation ph \<Longrightarrow> ls_known s = None"
    and "\<And>r. has_room ph = Some r \<Longrightarrow> ls_known s = Some r"
  shows "one_room (goto p ph (s\<lparr>ls_lock := b\<rparr>))"
  using assms recording_goto [of ph s p] unfolding one_room_def by (auto split: if_splits)

lemma one_room_goto':
  "one_room s \<Longrightarrow> exclusive (goto p ph s) \<Longrightarrow> (\<And>r. ls_phase s p \<noteq> Recording r) \<Longrightarrow>
   (\<And>r. ph \<noteq> Recording r) \<Longrightarrow> (in_creation ph \<Longrightarrow> ls_known s = None) \<Longrightarrow>
   (\<And>r. has_room ph = Some r \<Longrightarrow> ls_known s = Some r) \<Longrightarrow> one_room (goto p ph s)"
  using one_room_goto [of s p ph "ls_lock s"] by simp

lemma creating_unknown: "one_room s \<Longrightarrow> in_creation (ls_phase s p) \<Longrightarrow> ls_known s = None"
  unfolding one_room_def by blast

lemma one_room_exclusive: "one_room s \<Longrightarrow> exclusive s"
  by (simp add: one_room_def)

lemma has_room_known: "one_room s \<Longrightarrow> has_room (ls_phase s p) = Some r \<Longrightarrow> ls_known s = Some r"
  unfolding one_room_def by blast

lemma one_room_step: "lock_step l s s' \<Longrightarrow> l = Quiet \<Longrightarrow> one_room s \<Longrightarrow> one_room s'"
proof (induction rule: lock_step.induct)
  case (created s p r)
  then have ex: "exclusive s" by (simp add: one_room_def)
  have k: "ls_known s = None" by (rule creating_unknown [of s p]) (use created in simp_all)
  have "ls_phase s q \<noteq> Recording x" for q x
    using exclusiveD [OF ex, of p q] created by auto
  then have "\<not> recording s" by (simp add: recording_def)
  then have "ls_created s = 0" using created k by (simp add: one_room_def)
  then show ?case
    using created ex k unfolding one_room_def
    by (auto simp: exclusive_goto split: if_splits)
next
  case (recorded s p r)
  then have ex: "exclusive s" by (simp add: one_room_def)
  have k: "ls_known s = None" by (rule creating_unknown [of s p]) (use recorded in simp_all)
  have alone: "\<not> in_creation (ls_phase s q)" if "q \<noteq> p" for q
    using exclusiveD [OF ex, of p q] that recorded creation_holds by auto
  have "recording s" using recorded by (auto simp: recording_def)
  then show ?case
    using recorded ex k alone unfolding one_room_def
    by (auto simp: exclusive_goto split: if_splits)
next
  case (released s p r)
  then have ex: "exclusive s" by (simp add: one_room_def)
  have "ls_known s = Some x" if "r = Some x" for x
    by (rule has_room_known [of s p]) (use released that in simp_all)
  then show ?case
    using released ex by (intro one_room_goto exclusive_unlock) auto
next
  case (release_failed s p r)
  then have ex: "exclusive s" by (simp add: one_room_def)
  have "ls_known s = Some x" if "r = Some x" for x
    by (rule has_room_known [of s p]) (use release_failed that in simp_all)
  then show ?case
    using release_failed ex by (intro one_room_goto' exclusive_goto) auto
next
  case (lock_free s p)
  then show ?case
    by (intro one_room_goto exclusive_lock_free) (auto simp: one_room_def)
qed (auto intro!: one_room_goto' exclusive_goto intro: one_room_exclusive)

lemma one_room_init: "one_room lock_init"
  by (auto simp: one_room_def exclusive_def lock_init_def recording_def)

lemma one_room_run: "lock_run ls s \<Longrightarrow> RecordFailed \<notin> set ls \<Longrightarrow> one_room s"
proof (induction rule: lock_run.induct)
  case (run_step ls s l s')
  then show ?case by (cases l) (auto intro: one_room_step)
qed (rule one_room_init)

section \<open>Properties\<close>

text \<open>However the steps of any number of tasks interleave and whichever of them fail, at most
  one task at a time is between taking the room-creation lock and releasing it.\<close>

theorem creation_lock_exclusive:
  assumes "lock_run ls s" and "holds (ls_phase s p)" and "holds (ls_phase s q)"
  shows "p = q"
  using exclusiveD [OF lock_run_exclusive] assms by metis

abbreviation step1 :: lock_system where "step1 \<equiv> goto 0 Locking lock_init"
abbreviation step2 :: lock_system where "step2 \<equiv> goto 0 Rechecking (step1\<lparr>ls_lock := True\<rparr>)"
abbreviation step3 :: lock_system where "step3 \<equiv> goto 0 Creating step2"
abbreviation step4 :: lock_system where
  "step4 \<equiv> goto 0 (Recording ''!space'') (step3\<lparr>ls_created := Suc (ls_created step3)\<rparr>)"
abbreviation step5 :: lock_system where
  "step5 \<equiv> goto 0 (Releasing (Some ''!space'')) (step4\<lparr>ls_known := Some ''!space''\<rparr>)"
abbreviation step6 :: lock_system where "step6 \<equiv> goto 1 (Returned ''!space'') step5"
abbreviation step7 :: lock_system where
  "step7 \<equiv> goto 0 (left_with (Some ''!space'')) (step6\<lparr>ls_lock := False\<rparr>)"

lemma init_simps [simp]:
  "ls_phase lock_init q = Checking" "ls_known lock_init = None" "\<not> ls_lock lock_init"
  "ls_created lock_init = 0"
  by (simp_all add: lock_init_def)

lemma sample_run2: "lock_run [Quiet, Quiet] step2"
  by (rule run_step [OF run_step [OF run_init check_unknown] lock_free]) simp_all

lemma sample_run5: "lock_run [Quiet, Quiet, Quiet, Quiet, Quiet] step5"
  by (rule run_step [OF run_step [OF run_step [OF sample_run2 recheck_unknown] created] recorded])
    simp_all

lemma sample_run7: "lock_run [Quiet, Quiet, Quiet, Quiet, Quiet, Quiet, Quiet] step7"
  by (rule run_step [OF run_step [OF sample_run5 check_known] released]) simp_all

theorem creation_lock_exclusive_witness: "(0::nat) = 0 \<and> holds (ls_phase step2 0)"
  using creation_lock_exclusive [OF sample_run2, of 0 0] by simp

text \<open>C8: As long as no database error hits the record of a space that was just created, at most
  one space is created for the user, and all the tasks that return a space return the same
  one.\<close>

theorem at_most_one_space:
  assumes "lock_run ls s" and "RecordFailed \<notin> set ls"
    and "ls_phase s p = Returned r" and "ls_phase s q = Returned r'"
  shows "r = r' \<and> ls_known s = Some r \<and> ls_created s = 1"
proof -
  have one: "one_room s" using assms(1,2) by (rule one_room_run)
  have "ls_known s = Some r" "ls_known s = Some r'"
    using has_room_known [OF one, of p r] has_room_known [OF one, of q r'] assms(3,4) by simp_all
  moreover have "ls_created s = 1" using one \<open>ls_known s = Some r\<close> by (simp add: one_room_def)
  ultimately show ?thesis by simp
qed

theorem at_most_one_space_witness: "ls_known step7 = Some ''!space'' \<and> ls_created step7 = 1"
proof -
  have "ls_phase step7 0 = Returned ''!space''" "ls_phase step7 1 = Returned ''!space''"
    by (simp_all add: left_with_def)
  from at_most_one_space [OF sample_run7 _ this] show ?thesis by simp
qed

end
