(* ===== verification/Thread_Lock.thy ===== *)
theory Thread_Lock
  imports Room_Lock Sync_Email
begin

text \<open>
  Several tasks that run \<^verbatim>\<open>process_new_thread\<close> (\<^verbatim>\<open>src/src/sync/email.rs\<close>) for emails of one new
  thread at once: the poll, the backfill and the live events each fetch mail. Each call that leaves
  the process is one step. \<open>Sync_Email\<close> has the same function as one task runs it alone; here the
  tasks interleave in any order and any call may fail. The system is shown to refine the lock of
  \<open>Room_Lock\<close>, from which it gets its exclusion.
\<close>

section \<open>The step relation\<close>

text \<open>
  Where a task is: looking the thread up, asking for the lock, looking again under it, making the
  contact room, saving the room's contact, naming the room (name, own address, topic), posting the
  first message, saving the thread, posting a reply, saving a reply and making it the latest event,
  saving the first message or the attachments, releasing the lock, and out of the function. The
  flag says whether the lock is held.
\<close>

datatype thread_phase =
    Looking | Asking | Looking_again | Making
  | Enrolling room_id
  | Naming room_id
  | Opening room_id
  | Mapping_thread room_id event_id
  | Replying room_id bool
  | Advancing room_id event_id bool
  | Filing room_id bool
  | Unlocking "room_id option"
  | Out "room_id option"

record thread_system =
  ts_thread :: "(event_id \<times> room_id \<times> event_id) option"
  ts_lock :: bool
  ts_phase :: "nat \<Rightarrow> thread_phase"
  ts_rooms :: "room_id list"
  ts_posts :: "(room_id \<times> event_id) list"

definition thread_init :: thread_system where
  "thread_init = \<lparr>ts_thread = None, ts_lock = False, ts_phase = (\<lambda>_. Looking), ts_rooms = [], ts_posts = []\<rparr>"

definition turn :: "nat \<Rightarrow> thread_phase \<Rightarrow> thread_system \<Rightarrow> thread_system" where
  "turn p ph s = s\<lparr>ts_phase := (ts_phase s)(p := ph)\<rparr>"

definition leave :: "room_id option \<Rightarrow> bool \<Rightarrow> thread_phase" where
  "leave r locked = (if locked then Unlocking r else Out r)"

text \<open>A room that was made and is given up before its thread is saved is \<open>Abandoned\<close>.\<close>

datatype thread_label = Calm | Abandoned room_id

inductive thread_step :: "thread_label \<Rightarrow> thread_system \<Rightarrow> thread_system \<Rightarrow> bool" where
  look_known: "ts_phase s p = Looking \<Longrightarrow> ts_thread s = Some (e, r, l) \<Longrightarrow>
    thread_step Calm s (turn p (Replying r False) s)"
| look_unknown: "ts_phase s p = Looking \<Longrightarrow> ts_thread s = None \<Longrightarrow>
    thread_step Calm s (turn p Asking s)"
| ask_taken: "ts_phase s p = Asking \<Longrightarrow> ts_lock s \<Longrightarrow>
    thread_step Calm s (turn p Looking s)"
| ask_free: "ts_phase s p = Asking \<Longrightarrow> \<not> ts_lock s \<Longrightarrow>
    thread_step Calm s (turn p Looking_again (s\<lparr>ts_lock := True\<rparr>))"
| outside_fails: "ts_phase s p = Looking \<or> ts_phase s p = Asking \<Longrightarrow>
    thread_step Calm s (turn p (Out None) s)"
| again_known: "ts_phase s p = Looking_again \<Longrightarrow> ts_thread s = Some (e, r, l) \<Longrightarrow>
    thread_step Calm s (turn p (Replying r True) s)"
| again_unknown: "ts_phase s p = Looking_again \<Longrightarrow> ts_thread s = None \<Longrightarrow>
    thread_step Calm s (turn p Making s)"
| again_fails: "ts_phase s p = Looking_again \<or> ts_phase s p = Making \<Longrightarrow>
    thread_step Calm s (turn p (Unlocking None) s)"
| made: "ts_phase s p = Making \<Longrightarrow>
    thread_step Calm s (turn p (Enrolling r) (s\<lparr>ts_rooms := r # ts_rooms s\<rparr>))"
| enrolled: "ts_phase s p = Enrolling r \<Longrightarrow>
    thread_step Calm s (turn p (Naming r) s)"
| named: "ts_phase s p = Naming r \<Longrightarrow>
    thread_step Calm s (turn p (Opening r) s)"
| opened: "ts_phase s p = Opening r \<Longrightarrow>
    thread_step Calm s (turn p (Mapping_thread r e) (s\<lparr>ts_posts := (r, e) # ts_posts s\<rparr>))"
| mapped: "ts_phase s p = Mapping_thread r e \<Longrightarrow>
    thread_step Calm s (turn p (Filing r True) (s\<lparr>ts_thread := Some (e, r, e)\<rparr>))"
| given_up: "ts_phase s p \<in> {Enrolling r, Naming r, Opening r, Mapping_thread r e} \<Longrightarrow>
    thread_step (Abandoned r) s (turn p (Unlocking None) s)"
| replied: "ts_phase s p = Replying r b \<Longrightarrow>
    thread_step Calm s (turn p (Advancing r e b) (s\<lparr>ts_posts := (r, e) # ts_posts s\<rparr>))"
| advanced: "ts_phase s p = Advancing r e b \<Longrightarrow>
    thread_step Calm s (turn p (Filing r b)
      (s\<lparr>ts_thread := map_option (\<lambda>(root, room, _). (root, room, e)) (ts_thread s)\<rparr>))"
| not_advanced: "ts_phase s p = Advancing r e b \<Longrightarrow>
    thread_step Calm s (turn p (Filing r b) s)"
| filed: "ts_phase s p \<in> {Replying r b, Advancing r e b, Filing r b} \<Longrightarrow>
    thread_step Calm s (turn p (leave (Some r) b) s)"
| unlocked: "ts_phase s p = Unlocking r \<Longrightarrow>
    thread_step Calm s (turn p (Out r) (s\<lparr>ts_lock := False\<rparr>))"
| unlock_fails: "ts_phase s p = Unlocking r \<Longrightarrow>
    thread_step Calm s (turn p (Out r) s)"

inductive thread_run :: "thread_label list \<Rightarrow> thread_system \<Rightarrow> bool" where
  trun_init: "thread_run [] thread_init"
| trun_step: "thread_run ls s \<Longrightarrow> thread_step l s s' \<Longrightarrow> thread_run (l # ls) s'"

lemma turn_simps [simp]:
  "ts_phase (turn p ph s) q = (if q = p then ph else ts_phase s q)"
  "ts_thread (turn p ph s) = ts_thread s" "ts_lock (turn p ph s) = ts_lock s"
  "ts_rooms (turn p ph s) = ts_rooms s" "ts_posts (turn p ph s) = ts_posts s"
  by (simp_all add: turn_def)

section \<open>The lock it refines\<close>

fun abs_phase :: "thread_phase \<Rightarrow> phase" where
  "abs_phase Looking = Checking"
| "abs_phase Asking = Locking"
| "abs_phase Looking_again = Rechecking"
| "abs_phase Making = Creating"
| "abs_phase (Enrolling r) = Recording r"
| "abs_phase (Naming r) = Recording r"
| "abs_phase (Opening r) = Recording r"
| "abs_phase (Mapping_thread r e) = Recording r"
| "abs_phase (Replying r b) = (if b then Releasing (Some r) else Returned r)"
| "abs_phase (Advancing r e b) = (if b then Releasing (Some r) else Returned r)"
| "abs_phase (Filing r b) = (if b then Releasing (Some r) else Returned r)"
| "abs_phase (Unlocking x) = Releasing x"
| "abs_phase (Out x) = left_with x"

definition abs_system :: "thread_system \<Rightarrow> lock_system" where
  "abs_system s = \<lparr>ls_known = map_option (fst \<circ> snd) (ts_thread s), ls_lock = ts_lock s,
     ls_phase = abs_phase \<circ> ts_phase s, ls_created = length (ts_rooms s)\<rparr>"

lemma abs_simps [simp]:
  "ls_known (abs_system s) = map_option (fst \<circ> snd) (ts_thread s)"
  "ls_lock (abs_system s) = ts_lock s" "ls_phase (abs_system s) p = abs_phase (ts_phase s p)"
  "ls_created (abs_system s) = length (ts_rooms s)"
  by (simp_all add: abs_system_def)

lemma abs_turn: "abs_system (turn p ph s) = goto p (abs_phase ph) (abs_system s)"
  by (auto simp: abs_system_def turn_def goto_def fun_eq_iff)

lemma abs_update [simp]:
  "abs_system (s\<lparr>ts_lock := b\<rparr>) = (abs_system s)\<lparr>ls_lock := b\<rparr>"
  "abs_system (s\<lparr>ts_posts := x\<rparr>) = abs_system s"
  "abs_system (s\<lparr>ts_thread := t\<rparr>) = (abs_system s)\<lparr>ls_known := map_option (fst \<circ> snd) t\<rparr>"
  "abs_system (s\<lparr>ts_rooms := rs\<rparr>) = (abs_system s)\<lparr>ls_created := length rs\<rparr>"
  by (simp_all add: abs_system_def)

text \<open>A step of a task inside one abstract phase changes nothing there.\<close>

lemma goto_same: "ls_phase s p = ph \<Longrightarrow> goto p ph s = s"
  by (auto simp: goto_def)

lemma known_same: "ls_known s = k \<Longrightarrow> s\<lparr>ls_known := k\<rparr> = s"
  by auto

lemma advanced_known: "map_option (fst \<circ> snd) (map_option (\<lambda>(root, room, _). (root, room, e)) t) = map_option (fst \<circ> snd) t"
  by (cases t) auto

fun abs_label :: "thread_label \<Rightarrow> lock_label" where
  "abs_label Calm = Quiet"
| "abs_label (Abandoned r) = RecordFailed"

lemma left_None: "left_with None = Failed"
  by (simp add: left_with_def)

text \<open>Every step is a step of the lock, or changes nothing the lock sees.\<close>

lemma abs_step:
  assumes "thread_step l s s'"
  shows "lock_step (abs_label l) (abs_system s) (abs_system s') \<or> l = Calm \<and> abs_system s' = abs_system s"
  using assms
proof (cases rule: thread_step.cases)
  case (made p r)
  then show ?thesis using created [of "abs_system s" p r] by (simp add: abs_turn)
next
  case (mapped p r e)
  then show ?thesis using recorded [of "abs_system s" p r] by (simp add: abs_turn)
next
  case (advanced p r e b)
  then show ?thesis by (simp add: abs_turn advanced_known known_same goto_same)
next
  case (filed p r b e)
  then show ?thesis by (auto simp: abs_turn leave_def left_with_def goto_same)
qed (auto simp: abs_turn goto_same left_None intro: lock_step.intros)

lemma abs_init: "abs_system thread_init = lock_init"
  by (simp add: abs_system_def thread_init_def lock_init_def fun_eq_iff)

lemma abs_run: "thread_run ls s \<Longrightarrow> \<exists>ks. lock_run ks (abs_system s) \<and>
    (RecordFailed \<in> set ks \<longleftrightarrow> (\<exists>r. Abandoned r \<in> set ls))"
proof (induction rule: thread_run.induct)
  case trun_init
  show ?case using run_init by (intro exI [of _ "[]"]) (simp add: abs_init)
next
  case (trun_step ls s l s')
  then obtain ks where ks: "lock_run ks (abs_system s)" "RecordFailed \<in> set ks \<longleftrightarrow> (\<exists>r. Abandoned r \<in> set ls)"
    by blast
  from abs_step [OF trun_step.hyps(2)] show ?case
  proof
    assume st: "lock_step (abs_label l) (abs_system s) (abs_system s')"
    show ?thesis
      using run_step [OF ks(1) st] ks(2) by (intro exI [of _ "abs_label l # ks"]) (cases l; auto)
  qed (use ks in auto)
qed

section \<open>One room\<close>

text \<open>Every room that the thread, a task or a message names was made by one of the tasks.\<close>

fun named_room :: "thread_phase \<Rightarrow> room_id option" where
  "named_room (Enrolling r) = Some r"
| "named_room (Naming r) = Some r"
| "named_room (Opening r) = Some r"
| "named_room (Mapping_thread r e) = Some r"
| "named_room (Replying r b) = Some r"
| "named_room (Advancing r e b) = Some r"
| "named_room (Filing r b) = Some r"
| "named_room (Unlocking x) = x"
| "named_room (Out x) = x"
| "named_room _ = None"

definition grounded :: "thread_system \<Rightarrow> bool" where
  "grounded s \<longleftrightarrow> (\<forall>e r l. ts_thread s = Some (e, r, l) \<longrightarrow> r \<in> set (ts_rooms s))
     \<and> (\<forall>p r. named_room (ts_phase s p) = Some r \<longrightarrow> r \<in> set (ts_rooms s))
     \<and> fst ` set (ts_posts s) \<subseteq> set (ts_rooms s)"

lemma named_leave [simp]: "named_room (leave x b) = x"
  by (simp add: leave_def)

lemma groundedD:
  "grounded s \<Longrightarrow> ts_phase s p = ph \<Longrightarrow> named_room ph = Some r \<Longrightarrow> r \<in> set (ts_rooms s)"
  by (auto simp: grounded_def)

lemma grounded_turn:
  assumes "grounded s" and "set (ts_rooms s) \<subseteq> set (ts_rooms s1)" and "ts_phase s1 = ts_phase s"
    and "\<And>r. named_room ph = Some r \<Longrightarrow> r \<in> set (ts_rooms s1)"
    and "\<And>e r l. ts_thread s1 = Some (e, r, l) \<Longrightarrow> r \<in> set (ts_rooms s1)"
    and "fst ` set (ts_posts s1) \<subseteq> set (ts_rooms s1)"
  shows "grounded (turn p ph s1)"
  using assms unfolding grounded_def by (auto split: if_splits)

lemma grounded_thread: "grounded s \<Longrightarrow> ts_thread s = Some (e, r, l) \<Longrightarrow> r \<in> set (ts_rooms s)"
  by (auto simp: grounded_def)

lemma grounded_posts: "grounded s \<Longrightarrow> x \<in> set (ts_posts s) \<Longrightarrow> fst x \<in> set (ts_rooms s)"
  by (auto simp: grounded_def)

lemma grounded_step: "thread_step l s s' \<Longrightarrow> grounded s \<Longrightarrow> grounded s'"
  by (induction rule: thread_step.induct; intro grounded_turn, assumption?)
    (auto dest: groundedD grounded_thread grounded_posts)

lemma grounded_run: "thread_run ls s \<Longrightarrow> grounded s"
proof (induction rule: thread_run.induct)
  case trun_init
  show ?case by (auto simp: grounded_def thread_init_def)
qed (rule grounded_step)

text \<open>C28: However the emails of one new thread interleave and whichever call fails, the tasks go
  through the room-creation lock as \<open>Room_Lock\<close> describes it, and a room that is given up before
  its thread is saved is what that model calls a failed record.\<close>

theorem thread_tasks_refine_lock:
  assumes "thread_run ls s"
  shows "\<exists>ks. lock_run ks (abs_system s) \<and> (RecordFailed \<in> set ks \<longleftrightarrow> (\<exists>r. Abandoned r \<in> set ls))"
  using assms by (rule abs_run)

text \<open>C3: as long as no room is given up between its creation and the record of its thread, all
  the emails of a thread that arrive together share one room: at most one is made, every message
  is posted there, and it is the one the thread is mapped to.\<close>

theorem one_room_per_thread:
  assumes "thread_run ls s" and "\<forall>r. Abandoned r \<notin> set ls"
  shows "length (ts_rooms s) \<le> 1 \<and> (\<forall>(r, e) \<in> set (ts_posts s). ts_rooms s = [r])
    \<and> (\<forall>e r l. ts_thread s = Some (e, r, l) \<longrightarrow> ts_rooms s = [r])"
proof -
  obtain ks where ks: "lock_run ks (abs_system s)" "RecordFailed \<notin> set ks"
    using abs_run [OF assms(1)] assms(2) by blast
  have "length (ts_rooms s) \<le> 1"
    using one_room_run [OF ks] by (auto simp: one_room_def split: if_splits)
  moreover have "ts_rooms s = [r]" if "r \<in> set (ts_rooms s)" for r
    using that calculation by (cases "ts_rooms s") auto
  ultimately show ?thesis
    using grounded_run [OF assms(1)] by (force dest: grounded_thread grounded_posts)
qed

text \<open>A task that finds its thread unknown and the lock free gets to the record of its room.\<close>

definition opened_at :: "nat \<Rightarrow> room_id \<Rightarrow> event_id \<Rightarrow> thread_system \<Rightarrow> thread_system" where
  "opened_at p r e s = turn p (Mapping_thread r e)
     (s\<lparr>ts_lock := True, ts_rooms := r # ts_rooms s, ts_posts := (r, e) # ts_posts s\<rparr>)"

lemma opened_at_run:
  assumes "thread_run ls s" and "ts_phase s p = Looking" and "ts_thread s = None" and "\<not> ts_lock s"
  shows "thread_run (replicate 7 Calm @ ls) (opened_at p r e s)"
proof -
  let ?s1 = "turn p Asking s"
  let ?s2 = "turn p Looking_again (?s1\<lparr>ts_lock := True\<rparr>)"
  let ?s3 = "turn p Making ?s2"
  let ?s4 = "turn p (Enrolling r) (?s3\<lparr>ts_rooms := r # ts_rooms ?s3\<rparr>)"
  let ?s5 = "turn p (Naming r) ?s4"
  let ?s6 = "turn p (Opening r) ?s5"
  let ?s7 = "turn p (Mapping_thread r e) (?s6\<lparr>ts_posts := (r, e) # ts_posts ?s6\<rparr>)"
  have "thread_run (Calm # Calm # Calm # ls) ?s3"
    by (rule trun_step [OF trun_step [OF trun_step [OF assms(1) look_unknown] ask_free] again_unknown])
      (use assms in simp_all)
  then have "thread_run (Calm # Calm # Calm # Calm # Calm # Calm # Calm # ls) ?s7"
    by (rule trun_step [OF trun_step [OF trun_step [OF trun_step [OF _ made] enrolled] named] opened]) simp_all
  moreover have "?s7 = opened_at p r e s" by (simp add: turn_def opened_at_def)
  moreover have "replicate 7 Calm @ ls = Calm # Calm # Calm # Calm # Calm # Calm # Calm # ls"
    by (simp add: eval_nat_numeral)
  ultimately show ?thesis by simp
qed

lemma opened_at_simps [simp]:
  "ts_phase (opened_at p r e s) q = (if q = p then Mapping_thread r e else ts_phase s q)"
  "ts_thread (opened_at p r e s) = ts_thread s" "ts_lock (opened_at p r e s)"
  "ts_rooms (opened_at p r e s) = r # ts_rooms s" "ts_posts (opened_at p r e s) = (r, e) # ts_posts s"
  by (simp_all add: opened_at_def)

lemma thread_init_simps [simp]:
  "ts_phase thread_init p = Looking" "ts_thread thread_init = None" "\<not> ts_lock thread_init"
  "ts_rooms thread_init = []" "ts_posts thread_init = []"
  by (simp_all add: thread_init_def)

lemma first_opened: "thread_run (replicate 7 Calm) (opened_at 0 r e thread_init)"
  using opened_at_run [OF trun_init, of 0 r e] by simp

definition shared_room :: thread_system where
  "shared_room = (let s = opened_at 0 ''!r'' ''$m'' thread_init;
     s1 = turn 0 (Filing ''!r'' True) (s\<lparr>ts_thread := Some (''$m'', ''!r'', ''$m'')\<rparr>);
     s2 = turn 1 (Replying ''!r'' False) s1
   in turn 1 (Advancing ''!r'' ''$n'' False) (s2\<lparr>ts_posts := (''!r'', ''$n'') # ts_posts s2\<rparr>))"

lemma shared_room_run: "thread_run (Calm # Calm # Calm # replicate 7 Calm) shared_room"
  unfolding shared_room_def Let_def
  by (rule trun_step [OF trun_step [OF trun_step [OF first_opened mapped] look_known] replied]) simp_all

theorem thread_tasks_refine_lock_witness:
  "\<exists>ks. lock_run ks (abs_system shared_room) \<and> RecordFailed \<notin> set ks"
  using thread_tasks_refine_lock [OF shared_room_run] by auto

theorem one_room_per_thread_witness:
  "(''!r'', ''$m'') \<in> set (ts_posts shared_room) \<and> (''!r'', ''$n'') \<in> set (ts_posts shared_room)
    \<and> ts_rooms shared_room = [''!r'']"
proof -
  have n: "\<forall>r. Abandoned r \<notin> set (Calm # Calm # Calm # replicate 7 Calm)" by simp
  have m: "(''!r'', ''$m'') \<in> set (ts_posts shared_room)" "(''!r'', ''$n'') \<in> set (ts_posts shared_room)"
    by (simp_all add: shared_room_def Let_def)
  show ?thesis using one_room_per_thread [OF shared_room_run n] m by fast
qed

section \<open>Rooms that are left behind\<close>

text \<open>The room a task has made and not yet recorded.\<close>

fun fresh_room :: "thread_phase \<Rightarrow> room_id option" where
  "fresh_room (Enrolling r) = Some r"
| "fresh_room (Naming r) = Some r"
| "fresh_room (Opening r) = Some r"
| "fresh_room (Mapping_thread r e) = Some r"
| "fresh_room _ = None"

text \<open>
  While a task makes a room the thread has none, and every other room that a task names is the
  thread's.
\<close>

definition settled :: "thread_system \<Rightarrow> bool" where
  "settled s \<longleftrightarrow> (\<forall>p. ts_phase s p = Making \<or> fresh_room (ts_phase s p) \<noteq> None \<longrightarrow> ts_thread s = None) \<and>
     (\<forall>p r. named_room (ts_phase s p) = Some r \<longrightarrow> fresh_room (ts_phase s p) = None \<longrightarrow>
       (\<exists>e l. ts_thread s = Some (e, r, l)))"

definition one_maker :: "thread_system \<Rightarrow> bool" where
  "one_maker s \<longleftrightarrow> (\<forall>p q. (ts_phase s p = Making \<or> fresh_room (ts_phase s p) \<noteq> None) \<longrightarrow>
     (ts_phase s q = Making \<or> fresh_room (ts_phase s q) \<noteq> None) \<longrightarrow> p = q)"

lemma maker_holds: "ph = Making \<or> fresh_room ph \<noteq> None \<Longrightarrow> holds (abs_phase ph)"
  by (cases ph) auto

lemma one_maker_run: "thread_run ls s \<Longrightarrow> one_maker s"
proof -
  assume "thread_run ls s"
  then obtain ks where "lock_run ks (abs_system s)" using abs_run by blast
  then have "exclusive (abs_system s)" by (rule lock_run_exclusive)
  then show ?thesis using exclusiveD maker_holds unfolding one_maker_def by (metis abs_simps(3))
qed

lemma fresh_leave [simp]: "fresh_room (leave x b) = None" "leave x b \<noteq> Making"
  by (simp_all add: leave_def)

lemma settledD:
  "settled s \<Longrightarrow> ts_phase s p = Making \<or> fresh_room (ts_phase s p) \<noteq> None \<Longrightarrow> ts_thread s = None"
  "settled s \<Longrightarrow> named_room (ts_phase s p) = Some r \<Longrightarrow> fresh_room (ts_phase s p) = None \<Longrightarrow>
   \<exists>e l. ts_thread s = Some (e, r, l)"
  unfolding settled_def by blast+

lemma settled_fresh:
  "ts_phase s p = ph \<Longrightarrow> settled s \<Longrightarrow> ph = Making \<or> fresh_room ph \<noteq> None \<Longrightarrow> ts_thread s = None"
  using settledD(1) by blast

lemma settled_named:
  "ts_phase s p = ph \<Longrightarrow> settled s \<Longrightarrow> named_room ph = Some r \<Longrightarrow> fresh_room ph = None \<Longrightarrow>
   \<exists>e l. ts_thread s = Some (e, r, l)"
  using settledD(2) by blast

lemma settled_update [simp]:
  "settled (s\<lparr>ts_lock := x\<rparr>) = settled s" "settled (s\<lparr>ts_rooms := y\<rparr>) = settled s"
  "settled (s\<lparr>ts_posts := z\<rparr>) = settled s"
  by (simp_all add: settled_def)

lemma settled_turn:
  "settled s \<Longrightarrow> (ph = Making \<or> fresh_room ph \<noteq> None \<Longrightarrow> ts_thread s = None) \<Longrightarrow>
   (\<And>r. named_room ph = Some r \<Longrightarrow> fresh_room ph = None \<Longrightarrow> \<exists>e l. ts_thread s = Some (e, r, l)) \<Longrightarrow>
   settled (turn p ph s)"
  unfolding settled_def turn_simps by (auto split: if_splits)

lemma settled_advance:
  "settled s \<Longrightarrow> settled (s\<lparr>ts_thread := map_option (\<lambda>(root, room, _). (root, room, e)) (ts_thread s)\<rparr>)"
  unfolding settled_def by (fastforce split: prod.split)

lemma alone:
  assumes "one_maker s" and "ts_phase s p = Making \<or> fresh_room (ts_phase s p) \<noteq> None" and "q \<noteq> p"
  shows "ts_phase s q \<noteq> Making \<and> fresh_room (ts_phase s q) = None"
  using assms unfolding one_maker_def by blast

lemma settled_mapped:
  assumes "settled s" and "one_maker s" and ph: "ts_phase s p = Mapping_thread r e"
  shows "settled (turn p (Filing r True) (s\<lparr>ts_thread := Some (e, r, e)\<rparr>))"
proof -
  have "ts_thread s = None" using settledD(1) [OF assms(1), of p] ph by simp
  then have "named_room (ts_phase s q) = None \<and> ts_phase s q \<noteq> Making \<and> fresh_room (ts_phase s q) = None" if "q \<noteq> p" for q
    using settledD(2) [OF assms(1), of q] alone [OF assms(2), of p q] ph that by (cases "named_room (ts_phase s q)") auto
  then show ?thesis by (auto simp: settled_def)
qed

lemma settled_step: "thread_step l s s' \<Longrightarrow> settled s \<Longrightarrow> one_maker s \<Longrightarrow> settled s'"
proof (induction rule: thread_step.induct)
  case (mapped s p r e)
  then show ?case by (intro settled_mapped)
next
  case (advanced s p r e b)
  then show ?case using settledD(2) [of s p r] by (intro settled_turn settled_advance) auto
qed (auto intro!: settled_turn dest: settled_fresh settled_named split: if_splits)

text \<open>What became of the rooms given up so far, and how many rooms there are.\<close>

definition left_behind :: "thread_label list \<Rightarrow> thread_system \<Rightarrow> bool" where
  "left_behind ls s \<longleftrightarrow> (\<forall>r. Abandoned r \<in> set ls \<longrightarrow> r \<in> set (ts_rooms s) \<and>
     (\<forall>p. named_room (ts_phase s p) \<noteq> Some r) \<and> (\<forall>e l. ts_thread s \<noteq> Some (e, r, l)))"

fun gives_up :: "thread_label \<Rightarrow> bool" where
  "gives_up (Abandoned r) = True"
| "gives_up Calm = False"

definition room_open :: "thread_system \<Rightarrow> bool" where
  "room_open s \<longleftrightarrow> (\<exists>p. fresh_room (ts_phase s p) \<noteq> None)"

definition accounted :: "thread_label list \<Rightarrow> thread_system \<Rightarrow> bool" where
  "accounted ls s \<longleftrightarrow> length (ts_rooms s) =
     length (filter gives_up ls) + of_bool (ts_thread s \<noteq> None) + of_bool (room_open s)"

lemma room_open_update [simp]:
  "room_open (s\<lparr>ts_lock := x\<rparr>) = room_open s" "room_open (s\<lparr>ts_rooms := y\<rparr>) = room_open s"
  "room_open (s\<lparr>ts_posts := z\<rparr>) = room_open s" "room_open (s\<lparr>ts_thread := t\<rparr>) = room_open s"
  by (simp_all add: room_open_def)

lemma room_open_turn: "(fresh_room ph = None) = (fresh_room (ts_phase s p) = None) \<Longrightarrow> room_open (turn p ph s) = room_open s"
  unfolding room_open_def turn_simps by (metis)

lemma room_open_alone:
  assumes "one_maker s" and "ts_phase s p = Making \<or> fresh_room (ts_phase s p) \<noteq> None"
  shows "room_open (turn p ph s) \<longleftrightarrow> fresh_room ph \<noteq> None" and "room_open s \<longleftrightarrow> fresh_room (ts_phase s p) \<noteq> None"
  using alone [OF assms] unfolding room_open_def turn_simps by metis+

lemma accounted_step: "thread_step l s s' \<Longrightarrow> settled s \<Longrightarrow> one_maker s \<Longrightarrow> accounted ls s \<Longrightarrow> accounted (l # ls) s'"
proof (induction rule: thread_step.induct)
  case (made s p r)
  then show ?case using room_open_alone [of s p] by (simp add: accounted_def room_open_alone [of "s\<lparr>ts_rooms := r # ts_rooms s\<rparr>"] one_maker_def)
next
  case (mapped s p r e)
  then show ?case using room_open_alone [of s p] settledD(1) [of s p]
    by (simp add: accounted_def room_open_alone [of "s\<lparr>ts_thread := Some (e, r, e)\<rparr>"] one_maker_def)
next
  case (given_up s p r e)
  then show ?case using room_open_alone [of s p] by (auto simp: accounted_def)
qed (auto simp: accounted_def room_open_turn)

lemma left_behind_step:
  assumes "thread_step l s s'" and "settled s" and "one_maker s" and "grounded s" and "distinct (ts_rooms s')"
    and "left_behind ls s"
  shows "left_behind (l # ls) s'"
  using assms
proof (induction rule: thread_step.induct)
  case (given_up s p r e)
  then have f: "fresh_room (ts_phase s p) = Some r" "named_room (ts_phase s p) = Some r" by auto
  have none: "ts_thread s = None" using settledD(1) [OF given_up(2), of p] f by simp
  then have "named_room (ts_phase s q) = None" if "q \<noteq> p" for q
    using settledD(2) [OF given_up(2), of q] alone [OF given_up(3), of p q] f that by (cases "named_room (ts_phase s q)") auto
  moreover have "r \<in> set (ts_rooms s)" using groundedD [OF given_up(4) refl f(2)] .
  ultimately show ?case using none given_up(6) by (auto simp: left_behind_def)
qed (auto simp: left_behind_def split: if_splits; metis named_room.simps)+

lemma rooms_grow: "thread_step l s s' \<Longrightarrow> distinct (ts_rooms s') \<Longrightarrow> distinct (ts_rooms s)"
  by (induction rule: thread_step.induct) auto

lemma left_behind_run:
  "thread_run ls s \<Longrightarrow> settled s \<and> accounted ls s \<and> (distinct (ts_rooms s) \<longrightarrow> left_behind ls s)"
proof (induction rule: thread_run.induct)
  case trun_init
  show ?case by (simp add: settled_def accounted_def room_open_def left_behind_def thread_init_def)
next
  case (trun_step ls s l s')
  note one = one_maker_run [OF trun_step.hyps(1)]
  then show ?case
    using settled_step [OF trun_step.hyps(2)] accounted_step [OF trun_step.hyps(2)] rooms_grow [OF trun_step.hyps(2)]
      left_behind_step [OF trun_step.hyps(2)] grounded_run [OF trun_step.hyps(1)] trun_step.IH by blast
qed

text \<open>C31: what a failure between the creation of a room and the record of its thread leaves: the room
  stays, no later task of the thread posts in it or returns it, and the thread is never mapped to it.
  The rooms made are exactly those, the one the thread is mapped to, and the one being opened, so
  every such failure costs the thread one more room.\<close>

theorem unrecorded_rooms_are_orphaned:
  assumes "thread_run ls s" and "distinct (ts_rooms s)"
  shows "length (ts_rooms s) = length (filter gives_up ls) + of_bool (ts_thread s \<noteq> None) + of_bool (room_open s) \<and>
    (\<forall>r. Abandoned r \<in> set ls \<longrightarrow> r \<in> set (ts_rooms s) \<and> (\<forall>p. named_room (ts_phase s p) \<noteq> Some r) \<and>
      (\<forall>e l. ts_thread s \<noteq> Some (e, r, l)))"
  using left_behind_run [OF assms(1)] assms(2) by (simp add: left_behind_def accounted_def)

text \<open>A task posts in a room and fails to record it; the next one makes a second room for the thread.\<close>

definition second_room :: thread_system where
  "second_room = (let s = turn 0 (Unlocking None) (opened_at 0 ''!old'' ''$m'' thread_init);
     s1 = opened_at 1 ''!new'' ''$n'' (turn 0 (Out None) (s\<lparr>ts_lock := False\<rparr>))
   in turn 1 (Filing ''!new'' True) (s1\<lparr>ts_thread := Some (''$n'', ''!new'', ''$n'')\<rparr>))"

lemma second_room_run:
  "thread_run (Calm # replicate 7 Calm @ (Calm # Abandoned ''!old'' # replicate 7 Calm)) second_room"
proof -
  let ?s = "turn 0 (Unlocking None) (opened_at 0 ''!old'' ''$m'' thread_init)"
  let ?s1 = "turn 0 (Out None) (?s\<lparr>ts_lock := False\<rparr>)"
  have "thread_run (Calm # Abandoned ''!old'' # replicate 7 Calm) ?s1"
    by (rule trun_step [OF trun_step [OF first_opened given_up] unlocked]) simp_all
  then have "thread_run (replicate 7 Calm @ (Calm # Abandoned ''!old'' # replicate 7 Calm)) (opened_at 1 ''!new'' ''$n'' ?s1)"
    by (rule opened_at_run) simp_all
  then show ?thesis unfolding second_room_def Let_def by (rule trun_step [OF _ mapped]) simp
qed

theorem unrecorded_rooms_are_orphaned_witness:
  "ts_rooms second_room = [''!new'', ''!old''] \<and> (''!old'', ''$m'') \<in> set (ts_posts second_room) \<and>
   length (ts_rooms second_room) = 1 + 1 + of_bool (room_open second_room) \<and>
   (\<forall>e l. ts_thread second_room \<noteq> Some (e, ''!old'', l))"
proof -
  have r: "ts_rooms second_room = [''!new'', ''!old'']" "ts_posts second_room = [(''!new'', ''$n''), (''!old'', ''$m'')]"
    "ts_thread second_room = Some (''$n'', ''!new'', ''$n'')"
    by (simp_all add: second_room_def Let_def)
  then show ?thesis using unrecorded_rooms_are_orphaned [OF second_room_run] by auto
qed

end
