(* ===== verification/Thread_Run.thy ===== *)
theory Thread_Run
  imports Thread_Lock Samples
begin

text \<open>
  One task of \<open>Thread_Lock\<close> is \<open>process_new_thread\<close> of \<open>Sync_Email\<close>: run alone, with the other
  tasks at rest, the function as the code has it goes through steps of its task there, and the
  row of the thread and the row of its lock end as those steps say.
\<close>

section \<open>The rows of one thread\<close>

definition thread_room :: "thread_id \<Rightarrow> db \<Rightarrow> (event_id \<times> room_id) option" where
  "thread_room t d = map_option (\<lambda>r. (tr_root r, tr_room r)) (find_row (\<lambda>r. tr_thread r = t) (t_threads d))"

definition shows_thread :: "thread_id \<Rightarrow> world \<Rightarrow> thread_system \<Rightarrow> bool" where
  "shows_thread t w s \<longleftrightarrow>
     thread_room t (w_db w) = map_option (\<lambda>(root, room, _). (root, room)) (ts_thread s)
     \<and> (thread_lock_key t \<in> set (t_locks (w_db w)) \<longleftrightarrow> ts_lock s)"

text \<open>The labels that leave both rows alone, but for the latest event of the thread.\<close>

definition off_thread :: "thread_id \<Rightarrow> label \<Rightarrow> bool" where
  "off_thread t l \<longleftrightarrow> (case l of
     LDb (PutThreadAndSubject t' _ _ _) \<Rightarrow> t' \<noteq> t | LDb (DelThreadsOfRoom _) \<Rightarrow> False
   | LDb (TakeLock k) \<Rightarrow> k \<noteq> thread_lock_key t | LDb (DropLock k) \<Rightarrow> k \<noteq> thread_lock_key t
   | LDb DropAllLocks \<Rightarrow> False | _ \<Rightarrow> True)"

lemma find_latest:
  "map_option (\<lambda>r. (tr_root r, tr_room r)) (find_row (\<lambda>r. tr_thread r = t)
     (upd_rows p (tr_latest_update f) l)) = map_option (\<lambda>r. (tr_root r, tr_room r)) (find_row (\<lambda>r. tr_thread r = t) l)"
  by (induction l) (auto simp: upd_rows_def)

lemma off_thread_exec:
  assumes "exec tm s d = Inr (n, d')" and "off_thread t (LDb s)"
  shows "thread_room t d' = thread_room t d \<and>
    (thread_lock_key t \<in> set (t_locks d') \<longleftrightarrow> thread_lock_key t \<in> set (t_locks d))"
  using assms by (cases s) (auto simp: off_thread_def thread_room_def find_latest find_row_put_other
      set_drop_rows split: if_splits option.splits)

lemma off_thread_shows: "evolves (off_thread t) w w' \<Longrightarrow> shows_thread t w s \<Longrightarrow> shows_thread t w' s"
proof (rule evolves_invariant [where I = "\<lambda>w. shows_thread t w s"])
  fix l w1 w2
  assume st: "world_step l w1 w2" and l: "l = LTick \<or> off_thread t l" and v: "shows_thread t w1 s"
  show "shows_thread t w2 s"
    using st
  proof (cases rule: world_step.cases)
    case (step_db q n d)
    then have "off_thread t (LDb q)" using l by simp
    from off_thread_exec [OF step_db(3) this] show ?thesis using step_db v by (simp add: shows_thread_def)
  next
    case (step_mem m)
    then show ?thesis using v by (cases m) (auto simp: shows_thread_def)
  qed (use v in \<open>auto simp: shows_thread_def emit_def\<close>)
qed auto

text \<open>The same of a world that continues the trace \<open>tr\<close>, the one from before the run.\<close>

definition shows_since :: "thread_id \<Rightarrow> ev list \<Rightarrow> world \<Rightarrow> thread_system \<Rightarrow> bool" where
  "shows_since t tr w s \<longleftrightarrow> shows_thread t w s \<and> (\<exists>v. w_trace w = v @ tr)"

lemma within_off:
  assumes "within (evolves (off_thread t)) m" and "m E w = (r, w')"
  shows "\<exists>v. w_trace w' = v @ w_trace w" and "shows_since t tr w s \<Longrightarrow> shows_since t tr w' s"
proof -
  have e: "evolves (off_thread t) w w'" using assms by (rule withinD)
  then show v: "\<exists>v. w_trace w' = v @ w_trace w" by (rule evolves_trace)
  show "shows_since t tr w s \<Longrightarrow> shows_since t tr w' s"
    using off_thread_shows [OF e] v by (auto simp: shows_since_def)
qed

section \<open>The code's parts, off the thread's rows\<close>

lemma space_key_other: "space_lock_key u \<noteq> thread_lock_key t"
  by (simp add: space_lock_key_def thread_lock_key_def)

lemma off_thread_simps [simp]:
  "off_thread t (LEv v0)" "off_thread t (LMem m)" "off_thread t LTick"
  "off_thread t (LDb (PutMessage i e))" "off_thread t (LDb (SetLatest t' e))"
  "off_thread t (LDb (PutKv u k v))" "off_thread t (LDb (DelKv u k))" "off_thread t (LDb (PutGhost r a u))"
  "off_thread t (LDb (TakeLock (space_lock_key u)))" "off_thread t (LDb (DropLock (space_lock_key u)))"
  by (simp_all add: off_thread_def space_key_other)

lemma off_thread_allows [simp]: "allows_attach (off_thread t)" "allows_rooms (off_thread t) u" "allows_jread (off_thread t)"
  "allows_ghost (off_thread t)" "allows_mx (off_thread t) q"
  by (simp_all add: allows_attach_def allows_rooms_def allows_jread_def allows_ghost_def)

lemma reply_off: "within (evolves (off_thread t)) (process_reply u c e g b room)"
  unfolding process_reply_def by (intro frame_rules; simp)

section \<open>Steps of one task\<close>

inductive task_path :: "nat \<Rightarrow> thread_system \<Rightarrow> thread_system \<Rightarrow> bool" where
  path_refl: "task_path p s s"
| path_step: "task_path p s s1 \<Longrightarrow> thread_step l s1 s2 \<Longrightarrow> (\<And>q. q \<noteq> p \<Longrightarrow> ts_phase s2 q = ts_phase s1 q) \<Longrightarrow>
    task_path p s s2"

lemma path_others: "task_path p s s' \<Longrightarrow> q \<noteq> p \<Longrightarrow> ts_phase s' q = ts_phase s q"
  by (induction rule: task_path.induct) auto

lemma path_trans: "task_path p s1 s2 \<Longrightarrow> task_path p s s1 \<Longrightarrow> task_path p s s2"
  by (induction rule: task_path.induct) (auto intro: path_step)

lemma path_one: "thread_step l s s' \<Longrightarrow> (\<And>q. q \<noteq> p \<Longrightarrow> ts_phase s' q = ts_phase s q) \<Longrightarrow> task_path p s s'"
  by (rule path_step [OF path_refl])

lemma shows_update [simp]:
  "shows_since t tr w (turn p ph s) = shows_since t tr w s"
  "shows_since t tr w (s\<lparr>ts_posts := x\<rparr>) = shows_since t tr w s"
  "shows_since t tr w (s\<lparr>ts_rooms := y\<rparr>) = shows_since t tr w s"
  "shows_since t tr (tick E w) s = shows_since t tr w s"
  by (simp_all add: shows_since_def shows_thread_def)

text \<open>
  \<open>leads t tr E s G m\<close>: from a world that shows \<open>s\<close>, every run of \<open>m\<close> ends as \<open>G\<close> says. A part that is
  off the thread either fails there, or leaves a world that still shows \<open>s\<close> to the rest.
\<close>

definition leads :: "thread_id \<Rightarrow> ev list \<Rightarrow> env \<Rightarrow> thread_system \<Rightarrow> ('a outcome \<Rightarrow> world \<Rightarrow> bool) \<Rightarrow> 'a act \<Rightarrow> bool" where
  "leads t tr E s G m \<longleftrightarrow> (\<forall>w r w'. shows_since t tr w s \<longrightarrow> m E w = (r, w') \<longrightarrow> G r w')"

lemma leadsI: "(\<And>w r w'. shows_since t tr w s \<Longrightarrow> m E w = (r, w') \<Longrightarrow> G r w') \<Longrightarrow> leads t tr E s G m"
  by (simp add: leads_def)

lemma leadsD: "leads t tr E s G m \<Longrightarrow> shows_since t tr w s \<Longrightarrow> m E w = (r, w') \<Longrightarrow> G r w'"
  by (simp add: leads_def)

definition not_ok :: "'a outcome \<Rightarrow> bool" where
  "not_ok r \<longleftrightarrow> (\<forall>y. r \<noteq> Ok y)"

lemma not_ok_simps [simp]: "\<not> not_ok (Ok x)" "not_ok (Err e)" "not_ok (Panic m)" "not_ok Hang"
  by (simp_all add: not_ok_def)

lemma leads_bind:
  assumes "within (evolves (off_thread t)) m"
    and "\<And>r w'. not_ok r \<Longrightarrow> shows_since t tr w' s \<Longrightarrow> G r w'"
    and "\<And>a. leads t tr E s G (f a)"
  shows "leads t tr E s G (bind m f)"
proof (rule leadsI)
  fix w r w'
  assume v: "shows_since t tr w s" and run: "bind m f E w = (r, w')"
  obtain r1 w1 where m: "m E w = (r1, w1)" by (cases "m E w")
  have "shows_since t tr w1 s" by (rule within_off(2) [OF assms(1) m v])
  then show "G r w'" using run m assms(2) leadsD [OF assms(3)] by (cases r1) (auto simp: bind_def)
qed

lemma leads_andthen:
  assumes "within (evolves (off_thread t)) m"
    and "\<And>r w'. not_ok r \<Longrightarrow> shows_since t tr w' s \<Longrightarrow> G r w'" and "leads t tr E s G n"
  shows "leads t tr E s G (andthen m n)"
  unfolding andthen_def using assms by (rule leads_bind)

section \<open>What was posted\<close>

text \<open>Between the two traces a request was made as \<open>user\<close>, and the homeserver's answer to it was \<open>x\<close>.\<close>

definition answered :: "env \<Rightarrow> ghost_req \<Rightarrow> mxid \<Rightarrow> nat option \<Rightarrow> ev list \<Rightarrow> ev list \<Rightarrow> string \<Rightarrow> bool" where
  "answered E q user ts tr tr' x \<longleftrightarrow> (\<exists>v v' st hs answer. tr' = v @ EvMx (AsGhost q user ts) # v' @ tr \<and>
     e_mx (e_net E) (v' @ tr) (AsGhost q user ts) = HttpResp st hs answer \<and> is_success st \<and>
     l_resp (e_lib E) q answer = Inr x)"

text \<open>The ghost \<open>g\<close> sent the body \<open>b\<close> of the email to a room, which became an event; a room was made.\<close>

definition posted :: "env \<Rightarrow> email \<Rightarrow> ghost_user \<Rightarrow> email_body \<Rightarrow> ev list \<Rightarrow> ev list \<Rightarrow> room_id \<times> event_id \<Rightarrow> bool" where
  "posted E e g b tr tr' post \<longleftrightarrow> (\<exists>txn. answered E (GSend (fst post) txn (OText (eb_plain b) (eb_html b) None))
     (gu_id g) (timestamp_of e) tr tr' (snd post))"

definition made_room :: "env \<Rightarrow> ev list \<Rightarrow> ev list \<Rightarrow> room_id \<Rightarrow> bool" where
  "made_room E tr tr' room \<longleftrightarrow>
     (\<exists>spec. answered E (GCreateRoom spec) (bot_mxid (c_domain (e_cfg E))) None tr tr' room)"

lemma answered_later: "answered E q user ts tr tr1 x \<Longrightarrow> \<exists>v. tr2 = v @ tr1 \<Longrightarrow> answered E q user ts tr tr2 x"
  unfolding answered_def by (metis append.assoc)

lemma posted_later: "posted E e g b tr tr1 post \<Longrightarrow> \<exists>v. tr2 = v @ tr1 \<Longrightarrow> posted E e g b tr tr2 post"
  unfolding posted_def by (blast intro: answered_later)

lemma made_later: "made_room E tr tr1 room \<Longrightarrow> \<exists>v. tr2 = v @ tr1 \<Longrightarrow> made_room E tr tr2 room"
  unfolding made_room_def by (blast intro: answered_later)

lemma send_as_ghost_Ok:
  assumes "send_as_ghost q user ts E w = (Ok x, w1)" and "\<exists>v. w_trace w = v @ tr"
  shows "answered E q user ts tr (w_trace w1) x"
proof -
  obtain v where v: "w_trace w = v @ tr" using assms(2) by blast
  have "w_trace w1 = [] @ EvMx (AsGhost q user ts) # w_trace w \<and> (\<exists>st hs answer. is_success st \<and>
      e_mx (e_net E) (w_trace w) (AsGhost q user ts) = HttpResp st hs answer \<and> l_resp (e_lib E) q answer = Inr x)"
    using assms(1) by (auto simp: send_as_ghost_def bind_def mx_call_def status_text_def asks_def ret_def fail_def emit_def
        split: http_out.splits sum.splits if_splits)
  then show ?thesis unfolding answered_def v by blast
qed

lemma build_and_send_posts:
  assumes "bind (build_send room (OText (eb_plain b) (eb_html b) None)) (\<lambda>q. send_as_ghost q (gu_id g) (timestamp_of e)) E w
      = (Ok ev, w1)" and "\<exists>v. w_trace w = v @ tr"
  shows "posted E e g b tr (w_trace w1) (room, ev)"
proof -
  obtain txn where "send_as_ghost (GSend room txn (OText (eb_plain b) (eb_html b) None)) (gu_id g) (timestamp_of e) E (tick E w)
      = (Ok ev, w1)"
    using assms(1) by (auto simp: build_send_def txn_id_def fresh_def bind_def ret_def)
  from send_as_ghost_Ok [OF this] show ?thesis using assms(2) by (auto simp: posted_def)
qed

lemma send_message_posts:
  assumes run: "send_message_as room (eb_plain b) (eb_html b) None None (gu_id g) (timestamp_of e) E w = (Ok ev, w1)"
    and v: "\<exists>v. w_trace w = v @ tr"
  shows "posted E e g b tr (w_trace w1) (room, ev)"
proof -
  let ?c = "OText (eb_plain b) (eb_html b) None" and ?u = "gu_id g" and ?ts = "timestamp_of e"
  let ?send = "\<lambda>q. send_as_ghost q ?u ?ts"
  have joining: "send_as_ghost_joining room ?u ?ts (build_send room ?c) E w = (Ok ev, w1)"
    using run by (auto simp: send_message_as_def andthen_def bind_eq_Ok parse_room_def parse_user_def parse_event_opt_def
        asks_def ensure_def ret_def fail_def thread_relation_def split: if_splits option.splits)
  obtain q w2 where q: "build_send room ?c E w = (Ok q, w2)"
    by (simp add: build_send_def txn_id_def fresh_def bind_def ret_def)
  show ?thesis
  proof (cases "\<exists>ev' w3. ?send q E w2 = (Ok ev', w3)")
    case True
    then have "bind (build_send room ?c) ?send E w = (Ok ev, w1)"
      using joining q by (auto simp: send_as_ghost_joining_def bind_def attempt_def ret_def)
    then show ?thesis using v by (rule build_and_send_posts)
  next
    case False
    then obtain err w3 where f: "?send q E w2 = (Err err, w3)" and rest: "(if is_ghost_not_joined err
        then andthen (ignore (invite_to_room room ?u)) (andthen (join_room_as room ?u) (bind (build_send room ?c) ?send))
        else fail err) E w3 = (Ok ev, w1)"
      using joining q by (cases "?send q E w2"; cases "fst (?send q E w2)")
        (auto simp: send_as_ghost_joining_def bind_def attempt_def)
    then obtain w4 w5 where w: "ignore (invite_to_room room ?u) E w3 = (Ok (), w4)" "join_room_as room ?u E w4 = (Ok (), w5)"
      "bind (build_send room ?c) ?send E w5 = (Ok ev, w1)"
      by (auto simp: andthen_def bind_eq_Ok fail_def split: if_splits)
    have any: "within (evolves (\<lambda>_. True)) (build_send room ?c)" "within (evolves (\<lambda>_. True)) (?send q)"
      "within (evolves (\<lambda>_. True)) (ignore (invite_to_room room ?u))" "within (evolves (\<lambda>_. True)) (join_room_as room ?u)"
      unfolding build_send_def by (intro frame_rules; simp)+
    have "\<exists>v. w_trace w5 = v @ w_trace w"
      using evolves_trans [OF withinD [OF any(4) w(2)] evolves_trans [OF withinD [OF any(3) w(1)]
        evolves_trans [OF withinD [OF any(2) f] withinD [OF any(1) q]]]] by (rule evolves_trace)
    then show ?thesis using build_and_send_posts [OF w(3)] v by auto
  qed
qed

lemma create_room_Ok:
  assumes "create_room spec E w = (Ok room, w1)" and "\<exists>v. w_trace w = v @ tr"
  shows "made_room E tr (w_trace w1) room"
proof -
  have parse: "parse_user u E w = (Ok (), w') \<Longrightarrow> w' = w" for u w w'
    by (auto simp: parse_user_def bind_def asks_def ensure_def ret_def fail_def split: if_splits)
  have "for_each us parse_user E w = (Ok (), w') \<Longrightarrow> w' = w" for us w'
    by (induction us) (auto simp: ret_def andthen_def bind_eq_Ok dest!: parse)
  then have "send_as_ghost (GCreateRoom spec) (bot_mxid (c_domain (e_cfg E))) None E w = (Ok room, w1)"
    using assms(1) by (auto simp: create_room_def andthen_def bind_eq_Ok bot_user_id_def asks_def dest!: parse)
  from send_as_ghost_Ok [OF this assms(2)] show ?thesis by (auto simp: made_room_def)
qed

lemma contact_room_cases:
  assumes run: "create_contact_room u a n E w = (r, w')" and v: "\<exists>v. w_trace w = v @ tr"
  obtains (none) "not_ok r" | (made) room where "made_room E tr (w_trace w') room" "r = Ok room \<or> not_ok r"
proof -
  let ?rest = "\<lambda>ghost room. andthen (save_room_ghost_mapping room a u)
     (andthen (ignore (join_room_as room ghost))
     (bind (attempt (get_matrix_puppet_token u)) (\<lambda>tok.
     andthen (case tok of
         Inl _ \<Rightarrow> ret ()
       | Inr t \<Rightarrow> (case t of None \<Rightarrow> ret () | Some token \<Rightarrow> ignore (join_room_via_token token room)))
     (andthen (ignore (ensure_room_in_email_space u room)) (ret room)))))"
  let ?lp = "email_to_localpart (l_lower (e_lib E)) a"
  let ?ghost = "local_mxid ?lp (c_domain (e_cfg E))"
  let ?name = "\<lambda>created. if created then ignore (set_display_name ?ghost n) else ret ()"
  have run': "bind (ensure_user_exists ?lp) (\<lambda>created. andthen (?name created)
      (bind (create_room_for_contact n a u) (?rest ?ghost))) E w = (r, w')"
    using run by (simp add: create_contact_room_def bind_def [of "asks _"] asks_def)
  have any: "within (evolves (\<lambda>_. True)) (ensure_user_exists ?lp)" "within (evolves (\<lambda>_. True)) (?name c)"
    "within (evolves (\<lambda>_. True)) (?rest ?ghost room)" for c room
    by (intro frame_rules; simp add: allows_rooms_def allows_ghost_def)+
  show ?thesis
  proof (cases "\<exists>c w1 w2 room w3. ensure_user_exists ?lp E w = (Ok c, w1) \<and> ?name c E w1 = (Ok (), w2) \<and>
      create_room_for_contact n a u E w2 = (Ok room, w3)")
    case True
    then obtain c w1 w2 room w3 where *: "ensure_user_exists ?lp E w = (Ok c, w1)" "?name c E w1 = (Ok (), w2)"
      "create_room_for_contact n a u E w2 = (Ok room, w3)" by blast
    have "\<exists>v. w_trace w2 = v @ w_trace w"
      using evolves_trans [OF withinD [OF any(2) *(2)] withinD [OF any(1) *(1)]] by (rule evolves_trace)
    then have "\<exists>v. w_trace w2 = v @ tr" using v by auto
    moreover have "\<exists>spec. create_room spec E w2 = (Ok room, w3)"
      using *(3) by (auto simp: create_room_for_contact_def create_dm_room_def ghost_mxid_def bind_def asks_def)
    ultimately have made3: "made_room E tr (w_trace w3) room" using create_room_Ok by blast
    have rest: "?rest ?ghost room E w3 = (r, w')" using run' * by (simp add: bind_def andthen_def)
    then have "made_room E tr (w_trace w') room" using made_later [OF made3 evolves_trace [OF withinD [OF any(3)]]] by blast
    moreover have "r = Ok room \<or> not_ok r" using rest
      by (cases r) (auto simp: andthen_def bind_eq_Ok ret_def)
    ultimately show ?thesis by (rule made)
  next
    case False
    then have "not_ok r" using run' by (cases r) (auto simp: andthen_def bind_eq_Ok)
    then show ?thesis by (rule none)
  qed
qed

section \<open>Replying\<close>

text \<open>
  How a task ends: at most one room was made and one message posted, both as \<open>R\<close> and \<open>P\<close> say, and if
  the task succeeds, the message is in the room of the thread, with which the task leaves.
\<close>

definition ends_with :: "nat \<Rightarrow> (room_id option \<Rightarrow> thread_phase) \<Rightarrow> (room_id \<Rightarrow> bool) \<Rightarrow> (room_id \<times> event_id \<Rightarrow> bool)
    \<Rightarrow> unit outcome \<Rightarrow> thread_system \<Rightarrow> thread_system \<Rightarrow> bool" where
  "ends_with p ph R P r s s' \<longleftrightarrow> (\<exists>x rooms posts. (r \<noteq> Hang \<longrightarrow> ts_phase s' p = ph x) \<and>
     ts_rooms s' = rooms @ ts_rooms s \<and> length rooms \<le> 1 \<and> list_all R rooms \<and>
     ts_posts s' = posts @ ts_posts s \<and> length posts \<le> 1 \<and> list_all P posts \<and>
     (r = Ok () \<longrightarrow> (\<exists>room ev root l. x = Some room \<and> posts = [(room, ev)] \<and> ts_thread s' = Some (root, room, l))))"

lemma ends_silently:
  "not_ok r \<Longrightarrow> ts_phase s' p = ph x \<Longrightarrow> ts_posts s' = ts_posts s \<Longrightarrow>
   ts_rooms s' = rooms @ ts_rooms s \<Longrightarrow> length rooms \<le> 1 \<Longrightarrow> list_all R rooms \<Longrightarrow> ends_with p ph R P r s s'"
  unfolding ends_with_def by (rule exI [of _ x], rule exI [of _ rooms], rule exI [of _ "[]"]) auto

lemma ends_posting:
  "ts_phase s' p = ph x \<Longrightarrow> ts_posts s' = (room, ev) # ts_posts s \<Longrightarrow> P (room, ev) \<Longrightarrow>
   ts_rooms s' = rooms @ ts_rooms s \<Longrightarrow> length rooms \<le> 1 \<Longrightarrow> list_all R rooms \<Longrightarrow>
   (r = Ok () \<Longrightarrow> x = Some room \<and> (\<exists>root l. ts_thread s' = Some (root, room, l))) \<Longrightarrow> ends_with p ph R P r s s'"
  unfolding ends_with_def by (rule exI [of _ x], rule exI [of _ rooms], rule exI [of _ "[(room, ev)]"]) auto

lemma ends_from:
  "ends_with p ph R P r s1 s' \<Longrightarrow> ts_posts s1 = ts_posts s \<Longrightarrow> ts_rooms s1 = ts_rooms s \<Longrightarrow> ends_with p ph R P r s s'"
  by (simp add: ends_with_def)

text \<open>The whole statement about a run: it follows steps of the task and ends so.\<close>

definition path_to :: "thread_id \<Rightarrow> ev list \<Rightarrow> env \<Rightarrow> email \<Rightarrow> ghost_user \<Rightarrow> email_body \<Rightarrow> nat
    \<Rightarrow> (room_id option \<Rightarrow> thread_phase) \<Rightarrow> thread_system \<Rightarrow> unit outcome \<Rightarrow> world \<Rightarrow> bool" where
  "path_to t tr E e g b p ph s r w' \<longleftrightarrow> (\<exists>s'. task_path p s s' \<and> shows_since t tr w' s' \<and>
     ends_with p ph (made_room E tr (w_trace w')) (posted E e g b tr (w_trace w')) r s s')"

lemma path_toI:
  "task_path p s s' \<Longrightarrow> shows_since t tr w' s' \<Longrightarrow>
   ends_with p ph (made_room E tr (w_trace w')) (posted E e g b tr (w_trace w')) r s s' \<Longrightarrow> path_to t tr E e g b p ph s r w'"
  unfolding path_to_def by blast

lemma path_to_then:
  assumes "thread_step l s s1" and "\<And>q. q \<noteq> p \<Longrightarrow> ts_phase s1 q = ts_phase s q"
    and "ts_posts s1 = ts_posts s" and "ts_rooms s1 = ts_rooms s" and "path_to t tr E e g b p ph s1 r w'"
  shows "path_to t tr E e g b p ph s r w'"
  using assms(5) path_trans [OF _ path_one [OF assms(1,2)]] ends_from [OF _ assms(3,4)] unfolding path_to_def by blast

lemma reply_path:
  assumes run: "process_reply u c e g b room E w = (r, w')" and v: "shows_since t tr w s"
    and ph: "ts_phase s p = Replying room h" and th: "ts_thread s = Some (root, room, l)"
  shows "path_to t tr E e g b p (\<lambda>x. leave x h) s r w'"
proof -
  let ?send = "send_message_as room (eb_plain b) (eb_html b) None None (gu_id g) (timestamp_of e)"
  let ?rest = "\<lambda>event. case (em_thread e, em_id e) of
       (Some thread, Some email) \<Rightarrow>
         andthen (save_message_mapping email event)
         (andthen (ignore (update_thread_latest_event thread event))
         (handle_attachments c u e room None None (gu_id g) (timestamp_of e)))
     | _ \<Rightarrow> ret ()"
  obtain r1 w1 where s1: "?send E w = (r1, w1)" by (cases "?send E w")
  have v': "shows_since t tr w' s" by (rule within_off(2) [OF reply_off run v])
  have quiet: "path_to t tr E e g b p (\<lambda>x. leave x h) s r w'" if "not_ok r"
    by (rule path_toI [OF path_one [OF filed, of s p room h _ p]])
      (use ph v' that in \<open>auto intro: ends_silently [of _ _ _ _ "Some room" _ "[]"]\<close>)
  show ?thesis
  proof (cases r1)
    case (Ok ev)
    let ?s1 = "turn p (Advancing room ev h) (s\<lparr>ts_posts := (room, ev) # ts_posts s\<rparr>)"
    let ?s2 = "turn p (leave (Some room) h) ?s1"
    have rest: "?rest ev E w1 = (r, w')" using run s1 Ok by (simp add: process_reply_def bind_def)
    have off: "within (evolves (off_thread t)) (?rest ev)" by (intro frame_rules; simp)
    have "posted E e g b tr (w_trace w1) (room, ev)"
      by (rule send_message_posts) (use s1 Ok v in \<open>auto simp: shows_since_def\<close>)
    moreover have "\<exists>v. w_trace w' = v @ w_trace w1" by (rule within_off(1) [OF off]) (fact rest)
    ultimately have "posted E e g b tr (w_trace w') (room, ev)" by (rule posted_later)
    moreover have "task_path p s ?s2" by (rule path_step [OF path_one [OF replied [OF ph]] filed]) auto
    ultimately show ?thesis using v' th
      by (intro path_toI [of _ _ ?s2] ends_posting [of _ _ _ "Some room" room ev _ _ "[]"]) auto
  qed (use run s1 quiet in \<open>auto simp: process_reply_def bind_def\<close>)
qed

section \<open>Opening the room\<close>

text \<open>The state after the room was made, after the first message, and after the thread was saved.\<close>

definition roomed :: "nat \<Rightarrow> room_id \<Rightarrow> thread_system \<Rightarrow> thread_system" where
  "roomed p r s = turn p (Opening r) (s\<lparr>ts_rooms := r # ts_rooms s\<rparr>)"

definition greeted :: "nat \<Rightarrow> room_id \<Rightarrow> event_id \<Rightarrow> thread_system \<Rightarrow> thread_system" where
  "greeted p r e s = turn p (Mapping_thread r e) (s\<lparr>ts_rooms := r # ts_rooms s, ts_posts := (r, e) # ts_posts s\<rparr>)"

definition opened_by :: "nat \<Rightarrow> room_id \<Rightarrow> event_id \<Rightarrow> thread_system \<Rightarrow> thread_system" where
  "opened_by p r e s = turn p (Unlocking (Some r))
     (s\<lparr>ts_rooms := r # ts_rooms s, ts_posts := (r, e) # ts_posts s, ts_thread := Some (e, r, e)\<rparr>)"

lemma room_states [simp]:
  "ts_phase (roomed p r s) p = Opening r" "ts_posts (roomed p r s) = ts_posts s" "ts_rooms (roomed p r s) = r # ts_rooms s"
  "ts_phase (greeted p r e s) p = Mapping_thread r e" "ts_posts (greeted p r e s) = (r, e) # ts_posts s"
  "ts_rooms (greeted p r e s) = r # ts_rooms s"
  "shows_since t tr w (roomed p r s) = shows_since t tr w s" "shows_since t tr w (greeted p r e s) = shows_since t tr w s"
  by (simp_all add: roomed_def greeted_def shows_since_def shows_thread_def)

lemma room_paths:
  assumes "ts_phase s p = Making"
  shows "task_path p s (roomed p r s)" and "task_path p s (greeted p r e s)" and "task_path p s (opened_by p r e s)"
proof -
  let ?s1 = "turn p (Enrolling r) (s\<lparr>ts_rooms := r # ts_rooms s\<rparr>)"
  let ?s2 = "turn p (Naming r) ?s1"
  let ?s3 = "turn p (Opening r) ?s2"
  let ?s4 = "turn p (Mapping_thread r e) (?s3\<lparr>ts_posts := (r, e) # ts_posts ?s3\<rparr>)"
  let ?s5 = "turn p (Filing r True) (?s4\<lparr>ts_thread := Some (e, r, e)\<rparr>)"
  let ?s6 = "turn p (leave (Some r) True) ?s5"
  have p3: "task_path p s ?s3"
    by (rule path_step [OF path_step [OF path_one [OF made [OF assms]] enrolled] named]) auto
  then have p4: "task_path p s ?s4" by (rule path_step [OF _ opened]) auto
  then have p6: "task_path p s ?s6" by (rule path_step [OF path_step [OF _ mapped] filed]) auto
  show "task_path p s (roomed p r s)" using p3 by (simp add: turn_def roomed_def)
  show "task_path p s (greeted p r e s)" using p4 by (simp add: turn_def greeted_def)
  show "task_path p s (opened_by p r e s)" using p6 by (simp add: turn_def opened_by_def leave_def)
qed

text \<open>A task that gives up at some state on its way.\<close>

lemma gave_up_path:
  assumes "ts_phase s p = Looking_again \<or> ts_phase s p = Making" and "not_ok r" and "shows_since t tr w' s"
  shows "path_to t tr E e g b p Unlocking s r w'"
  by (rule path_toI [OF path_one [OF again_fails [OF assms(1)], of p]])
    (use assms(2,3) in \<open>auto intro: ends_silently [of _ _ _ _ None _ "[]"]\<close>)

lemma gave_room_up_path:
  assumes "ts_phase s p = Making" and "not_ok r" and "shows_since t tr w' s" and "made_room E tr (w_trace w') room"
  shows "path_to t tr E e g b p Unlocking s r w'"
proof (rule path_toI)
  show "task_path p s (turn p (Unlocking None) (roomed p room s))"
    by (rule path_step [OF room_paths(1) [OF assms(1)] given_up [of _ _ room]]) auto
qed (use assms(2-4) in \<open>auto intro: ends_silently [of _ _ _ _ None _ "[room]"]\<close>)

lemma gave_post_up_path:
  assumes "ts_phase s p = Making" and "not_ok r" and "shows_since t tr w' s" and "made_room E tr (w_trace w') room"
    and "posted E e g b tr (w_trace w') (room, ev)"
  shows "path_to t tr E e g b p Unlocking s r w'"
proof (rule path_toI)
  show "task_path p s (turn p (Unlocking None) (greeted p room ev s))"
    by (rule path_step [OF room_paths(2) [OF assms(1)] given_up [of _ _ room ev]]) auto
qed (use assms(2-5) in \<open>auto intro: ends_posting [of _ _ _ None room ev _ _ "[room]"]\<close>)

lemma save_thread_run:
  assumes "save_thread_mapping_atomic t ev room subj E w = (r, w')" and "shows_since t tr w s"
  shows "r = Ok () \<and> shows_since t tr w' (s\<lparr>ts_thread := Some (ev, room, ev)\<rparr>) \<or>
    not_ok r \<and> shows_since t tr w' s"
  using assms by (auto simp: save_thread_mapping_atomic_def exec_unit_def bind_def run_def Let_def ret_def
      shows_since_def shows_thread_def thread_room_def find_row_put_same split: option.splits)

lemma save_then_path:
  assumes ph: "ts_phase s p = Making" and off: "within (evolves (off_thread t)) m"
    and run: "andthen (save_thread_mapping_atomic t ev room subj) m E w = (r, w')" and v: "shows_since t tr w s"
    and made: "made_room E tr (w_trace w') room" and post: "posted E e g b tr (w_trace w) (room, ev)"
  shows "path_to t tr E e g b p Unlocking s r w'"
proof -
  obtain r1 w1 where s1: "save_thread_mapping_atomic t ev room subj E w = (r1, w1)"
    by (cases "save_thread_mapping_atomic t ev room subj E w")
  have tr1: "w_trace w1 = w_trace w"
    using s1 by (auto simp: save_thread_mapping_atomic_def exec_unit_def bind_def run_def Let_def ret_def split: option.splits sum.splits)
  from save_thread_run [OF s1 v] show ?thesis
  proof
    assume ok: "r1 = Ok () \<and> shows_since t tr w1 (s\<lparr>ts_thread := Some (ev, room, ev)\<rparr>)"
    then have m: "m E w1 = (r, w')" using run s1 by (simp add: andthen_def bind_def)
    have v': "shows_since t tr w' (s\<lparr>ts_thread := Some (ev, room, ev)\<rparr>)" using within_off(2) [OF off m] ok by blast
    have later: "\<exists>v. w_trace w' = v @ w_trace w" using within_off(1) [OF off m] tr1 by simp
    show ?thesis
      by (rule path_toI [OF room_paths(3) [OF ph, of room ev]])
        (use v' posted_later [OF post later] made in
          \<open>auto simp: opened_by_def shows_since_def shows_thread_def intro: ends_posting [of _ _ _ "Some room" room ev _ _ "[room]"]\<close>)
  next
    assume no: "not_ok r1 \<and> shows_since t tr w1 s"
    then have "w1 = w'" "not_ok r" using run s1 by (cases r1; auto simp: andthen_def bind_def)+
    then show ?thesis using gave_post_up_path [OF ph] no made post tr1 by simp
  qed
qed

lemma post_then_path:
  assumes ph: "ts_phase s p = Making" and off: "\<And>ev. within (evolves (off_thread t)) (m ev)"
    and run: "bind (send_message_as room (eb_plain b) (eb_html b) None None (gu_id g) (timestamp_of e))
      (\<lambda>ev. andthen (save_thread_mapping_atomic t ev room subj) (m ev)) E w = (r, w')"
    and v: "shows_since t tr w s" and made: "made_room E tr (w_trace w') room"
  shows "path_to t tr E e g b p Unlocking s r w'"
proof -
  let ?send = "send_message_as room (eb_plain b) (eb_html b) None None (gu_id g) (timestamp_of e)"
  obtain r1 w1 where s1: "?send E w = (r1, w1)" by (cases "?send E w")
  have off_send: "within (evolves (off_thread t)) ?send" by (intro frame_rules; simp)
  have v1: "shows_since t tr w1 s" by (rule within_off(2) [OF off_send s1 v])
  show ?thesis
  proof (cases r1)
    case (Ok ev)
    then have "posted E e g b tr (w_trace w1) (room, ev)"
      using send_message_posts [of room b g e E w ev w1 tr] s1 v by (simp add: shows_since_def)
    moreover have "andthen (save_thread_mapping_atomic t ev room subj) (m ev) E w1 = (r, w')"
      using run s1 Ok by (simp add: bind_def)
    ultimately show ?thesis using save_then_path [OF ph off _ v1 made] by blast
  qed (use run s1 v1 made gave_room_up_path [OF ph] in \<open>auto simp: bind_def\<close>)
qed

lemma open_path:
  assumes ph: "ts_phase s p = Making" and v: "shows_since t tr w s" and run: "open_thread_room u c e g b t i E w = (r, w')"
  shows "path_to t tr E e g b p Unlocking s r w'"
proof -
  let ?subject = "case em_subject e of Some s \<Rightarrow> s | None \<Rightarrow> no_subject"
  let ?create = "create_contact_room u (gu_email g) (ghost_display_name (Option.bind (first_from e) ea_name) (gu_email g))"
  let ?filed = "\<lambda>room ev. andthen (save_message_mapping i ev) (handle_attachments c u e room None None (gu_id g) (timestamp_of e))"
  let ?say = "\<lambda>room. bind (send_message_as room (eb_plain b) (eb_html b) None None (gu_id g) (timestamp_of e))
     (\<lambda>ev. andthen (save_thread_mapping_atomic t ev room ?subject) (?filed room ev))"
  let ?topic = "\<lambda>room. bind (get_user_email u) (\<lambda>own.
     andthen (ignore (set_room_topic room (thread_topic e (gu_email g) own))) (?say room))"
  let ?named = "\<lambda>room. andthen (ignore (set_room_name room (clean_subject ?subject))) (?topic room)"
  have run': "bind ?create ?named E w = (r, w')" using run by (simp add: open_thread_room_def Let_def)
  obtain r1 w1 where c: "?create E w = (r1, w1)" by (cases "?create E w")
  have off: "within (evolves (off_thread t)) ?create" by (intro frame_rules; simp)
  have v1: "shows_since t tr w1 s" by (rule within_off(2) [OF off c v])
  have since: "\<exists>v. w_trace w = v @ tr" using v by (simp add: shows_since_def)
  from c since show ?thesis
  proof (cases rule: contact_room_cases)
    case none
    then have "w1 = w'" "not_ok r" using run' c by (cases r1; auto simp: bind_def)+
    then show ?thesis using gave_up_path [OF disjI2 [OF ph]] v1 by simp
  next
    case (made room)
    show ?thesis
    proof (cases "r1 = Ok room")
      case False
      then have "w1 = w'" "not_ok r" using made(2) run' c by (cases r1; auto simp: bind_def)+
      then show ?thesis using gave_room_up_path [OF ph] v1 made(1) by simp
    next
      case True
      then have n: "?named room E w1 = (r, w')" using run' c by (simp add: bind_def)
      let ?G = "\<lambda>r w'. made_room E tr (w_trace w') room \<longrightarrow> path_to t tr E e g b p Unlocking s r w'"
      have stop: "?G r w'" if "not_ok r" "shows_since t tr w' s" for r w'
        using gave_room_up_path [OF ph that] by blast
      have say: "leads t tr E s ?G (?say room)"
      proof (intro leadsI impI)
        fix w r w'
        assume a: "?say room E w = (r, w')" "shows_since t tr w s" "made_room E tr (w_trace w') room"
        show "path_to t tr E e g b p Unlocking s r w'"
          by (rule post_then_path [OF ph _ a]) (intro frame_rules; simp)
      qed
      have off: "within (evolves (off_thread t)) (ignore (set_room_topic room topic))"
        "within (evolves (off_thread t)) (ignore (set_room_name room nm))" "within (evolves (off_thread t)) (get_user_email u)"
        for topic nm by (intro frame_rules; simp)+
      have "leads t tr E s ?G (andthen (ignore (set_room_topic room topic)) (?say room))" for topic
        by (rule leads_andthen [OF off(1) _ say]) (rule stop)
      then have "leads t tr E s ?G (?topic room)" by (intro leads_bind [OF off(3)] stop)
      then have "leads t tr E s ?G (?named room)" by (intro leads_andthen [OF off(2)] stop)
      moreover have any: "within (evolves (\<lambda>_. True)) (?named room)"
        unfolding save_thread_mapping_atomic_def exec_unit_def by (intro frame_rules; simp add: allows_attach_def allows_ghost_def)
      have "evolves (\<lambda>_. True) w1 w'" by (rule withinD [OF any]) (fact n)
      then have "made_room E tr (w_trace w') room" using made_later [OF made(1)] evolves_trace by blast
      ultimately show ?thesis using n v1 unfolding leads_def by blast
    qed
  qed
qed

section \<open>Under the lock\<close>

lemma get_info_cases:
  assumes "get_thread_info t E w = (r, w')" and "shows_since t tr w s"
  obtains (fails) "not_ok r" and "shows_since t tr w' s"
    | (unknown) "r = Ok None" and "ts_thread s = None" and "shows_since t tr w' s"
    | (known) root room l l' where "r = Ok (Some (root, room, l))" and "ts_thread s = Some (root, room, l')"
        and "shows_since t tr w' s"
proof (cases "e_fault (e_net E) (w_step w)")
  case None
  let ?row = "find_row (\<lambda>r. tr_thread r = t) (t_threads (w_db w))"
  have r: "r = Ok (map_option thread_info ?row)" "shows_since t tr w' s"
    using assms None by (auto simp: get_thread_info_def query_def Let_def)
  have row: "map_option (\<lambda>r. (tr_root r, tr_room r)) ?row = map_option (\<lambda>(root, room, _). (root, room)) (ts_thread s)"
    using assms(2) by (simp add: shows_since_def shows_thread_def thread_room_def)
  show ?thesis
  proof (cases ?row)
    case None
    then show ?thesis using r row unknown by simp
  next
    case (Some x)
    then obtain l' where "ts_thread s = Some (tr_root x, tr_room x, l')" using row
      by (cases "ts_thread s") auto
    then show ?thesis using r Some known [of "tr_root x" "tr_room x"] by (simp add: thread_info_def)
  qed
next
  case (Some m)
  then show ?thesis using assms fails by (auto simp: get_thread_info_def query_def Let_def)
qed

lemma locked_path:
  assumes ph: "ts_phase s p = Looking_again" and v: "shows_since t tr w s"
    and run: "new_thread_locked u c e g b t i E w = (r, w')"
  shows "path_to t tr E e g b p Unlocking s r w'"
proof -
  obtain r1 w1 where g: "get_thread_info t E w = (r1, w1)" by (cases "get_thread_info t E w")
  from g v show ?thesis
  proof (cases rule: get_info_cases)
    case fails
    then have "w1 = w'" "not_ok r"
      using run g by (cases r1; auto simp: new_thread_locked_def bind_def)+
    then show ?thesis using gave_up_path [OF disjI1 [OF ph]] fails by blast
  next
    case unknown
    then have "open_thread_room u c e g b t i E w1 = (r, w')"
      using run g by (simp add: new_thread_locked_def bind_def)
    then have "path_to t tr E e g b p Unlocking (turn p Making s) r w'"
      using unknown(3) by (intro open_path) simp_all
    then show ?thesis by (rule path_to_then [OF again_unknown [OF ph unknown(2)], rotated 3]) simp_all
  next
    case (known root room l l')
    then have "process_reply u c e g b room E w1 = (r, w')"
      using run g by (simp add: new_thread_locked_def bind_def)
    then have "path_to t tr E e g b p (\<lambda>x. leave x True) (turn p (Replying room True) s) r w'"
      by (rule reply_path) (use known in simp_all)
    then have "path_to t tr E e g b p Unlocking (turn p (Replying room True) s) r w'" by (simp add: leave_def)
    then show ?thesis by (rule path_to_then [OF again_known [OF ph known(2)], rotated 3]) simp_all
  qed
qed

section \<open>The whole function\<close>

text \<open>SQLite reports a lost connection or a full disk with other words than a duplicate key.\<close>

definition faults_told_apart :: "env \<Rightarrow> bool" where
  "faults_told_apart E \<longleftrightarrow> (\<forall>n m. e_fault (e_net E) n = Some m \<longrightarrow> \<not> contains m unique_failed)"

lemma try_lock_cases:
  assumes "try_acquire_room_creation_lock (thread_lock_key t) E w = (r, w')" and "shows_since t tr w s"
    and "faults_told_apart E"
  obtains (fails) "not_ok r" and "shows_since t tr w' s"
    | (taken) "r = Ok False" and "ts_lock s" and "shows_since t tr w' s"
    | (got) "r = Ok True" and "\<not> ts_lock s" and "shows_since t tr w' (s\<lparr>ts_lock := True\<rparr>)"
proof (cases "e_fault (e_net E) (w_step w)")
  case None
  have "contains unique_failed unique_failed" by code_simp
  then show ?thesis using assms(1,2) None taken got
    by (auto simp: try_acquire_room_creation_lock_def bind_def attempt_def run_def Let_def ret_def
        shows_since_def shows_thread_def thread_room_def split: if_splits)
next
  case (Some m)
  then have "\<not> contains m unique_failed" using assms(3) by (simp add: faults_told_apart_def)
  then show ?thesis using assms(1,2) Some fails
    by (auto simp: try_acquire_room_creation_lock_def bind_def attempt_def run_def Let_def fail_def)
qed

lemma release_path:
  assumes v: "shows_since t tr w s" and ph: "ts_phase s p = Unlocking x"
  shows "\<exists>s'. task_path p s s' \<and> shows_since t tr (snd (release_room_creation_lock (thread_lock_key t) E w)) s' \<and>
    ts_phase s' p = Out x \<and> ts_posts s' = ts_posts s \<and> ts_rooms s' = ts_rooms s \<and> ts_thread s' = ts_thread s \<and>
    w_trace (snd (release_room_creation_lock (thread_lock_key t) E w)) = w_trace w"
proof (cases "e_fault (e_net E) (w_step w)")
  case None
  then show ?thesis using path_one [OF unlocked [OF ph], of p] v
    by (intro exI [of _ "turn p (Out x) (s\<lparr>ts_lock := False\<rparr>)"]) (auto simp: release_room_creation_lock_def exec_unit_def
        bind_def run_def Let_def ret_def shows_since_def shows_thread_def thread_room_def set_drop_rows)
next
  case (Some m)
  then show ?thesis using path_one [OF unlock_fails [OF ph], of p] v
    by (intro exI [of _ "turn p (Out x) s"]) (auto simp: release_room_creation_lock_def exec_unit_def bind_def run_def Let_def
        shows_since_def shows_thread_def)
qed

lemma guarded_path:
  assumes v: "shows_since t tr w s" and ph: "ts_phase s p = Looking_again"
    and run: "guarded (release_room_creation_lock (thread_lock_key t)) (new_thread_locked u c e g b t i) E w = (r, w')"
  shows "path_to t tr E e g b p Out s r w'"
proof -
  obtain r1 w1 where m: "new_thread_locked u c e g b t i E w = (r1, w1)"
    by (cases "new_thread_locked u c e g b t i E w")
  obtain s1 where s1: "task_path p s s1" "shows_since t tr w1 s1"
    "ends_with p Unlocking (made_room E tr (w_trace w1)) (posted E e g b tr (w_trace w1)) r1 s s1"
    using locked_path [OF ph v m] unfolding path_to_def by blast
  show ?thesis
  proof (cases "r1 = Hang")
    case True
    then have "r = Hang" "w' = w1" using run m by (auto simp: guarded_def)
    then show ?thesis using s1 True by (intro path_toI [of _ _ s1]) (auto simp: ends_with_def)
  next
    case False
    then obtain x where x: "ts_phase s1 p = Unlocking x" using s1(3) by (auto simp: ends_with_def)
    obtain s2 where s2: "task_path p s1 s2" "ts_phase s2 p = Out x" "ts_posts s2 = ts_posts s1" "ts_rooms s2 = ts_rooms s1"
      "ts_thread s2 = ts_thread s1" "shows_since t tr (snd (release_room_creation_lock (thread_lock_key t) E w1)) s2"
      "w_trace (snd (release_room_creation_lock (thread_lock_key t) E w1)) = w_trace w1"
      using release_path [OF s1(2) x, of E] by blast
    have w: "r = r1" "w' = snd (release_room_creation_lock (thread_lock_key t) E w1)"
      using run m False by (auto simp: guarded_def split: outcome.splits)
    then have "ends_with p Out (made_room E tr (w_trace w')) (posted E e g b tr (w_trace w')) r s s2"
      using s1(3) s2 x False unfolding ends_with_def by fastforce
    then show ?thesis using path_trans [OF s2(1) s1(1)] s2(6) w by (intro path_toI [of _ _ s2]) auto
  qed
qed

lemma left_path:
  assumes "ts_phase s p = Looking \<or> ts_phase s p = Asking" and "not_ok r" and "shows_since t tr w' s"
  shows "path_to t tr E e g b p Out s r w'"
  by (rule path_toI [OF path_one [OF outside_fails [OF assms(1)], of p]])
    (use assms(2,3) in \<open>auto intro: ends_silently [of _ _ _ _ None _ "[]"]\<close>)

lemma sleep_shows: "shows_since t tr (snd (sleep n E w)) s = shows_since t tr w s"
  by (simp add: sleep_def shows_since_def shows_thread_def)

lemma loop_path:
  assumes "faults_told_apart E"
  shows "shows_since t tr w s \<Longrightarrow> ts_phase s p = Looking \<Longrightarrow> new_thread_loop n u c e g b t i E w = (r, w') \<Longrightarrow>
    path_to t tr E e g b p Out s r w'"
proof (induction n arbitrary: w s)
  case 0
  then have "r = Hang" "w' = w" by (auto simp: run_combinators)
  then show ?case using path_refl 0 by (intro path_toI [of _ s s]) (auto simp: ends_with_def)
next
  case (Suc n)
  note ph = Suc.prems(2) and run = Suc.prems(3)
  obtain r1 w1 where g: "get_thread_info t E w = (r1, w1)" by (cases "get_thread_info t E w")
  from g Suc.prems(1) show ?case
  proof (cases rule: get_info_cases)
    case fails
    then have "w1 = w'" "not_ok r" using run g by (cases r1; auto simp: bind_def)+
    then show ?thesis using left_path [OF disjI1 [OF ph]] fails by blast
  next
    case (known root room l l')
    then have "process_reply u c e g b room E w1 = (r, w')" using run g by (simp add: bind_def)
    then have "path_to t tr E e g b p (\<lambda>x. leave x False) (turn p (Replying room False) s) r w'"
      by (rule reply_path) (use known in simp_all)
    then have "path_to t tr E e g b p Out (turn p (Replying room False) s) r w'" by (simp add: leave_def)
    then show ?thesis by (rule path_to_then [OF look_known [OF ph known(2)], rotated 3]) simp_all
  next
    case unknown
    let ?s1 = "turn p Asking s"
    obtain r2 w2 where a: "try_acquire_room_creation_lock (thread_lock_key t) E w1 = (r2, w2)"
      by (cases "try_acquire_room_creation_lock (thread_lock_key t) E w1")
    have v1: "shows_since t tr w1 ?s1" using unknown by simp
    have "path_to t tr E e g b p Out ?s1 r w'"
      using a v1 assms
    proof (cases rule: try_lock_cases)
      case fails
      then have "w2 = w'" "not_ok r" using run g a unknown by (cases r2; auto simp: bind_def)+
      then show ?thesis using fails by (intro left_path) simp_all
    next
      case taken
      have "new_thread_loop n u c e g b t i E (snd (sleep 0 E w2)) = (r, w')"
        using run g a unknown taken by (simp add: bind_def andthen_def sleep_def)
      then have "path_to t tr E e g b p Out (turn p Looking ?s1) r w'"
        using taken by (intro Suc.IH) (simp_all add: sleep_shows)
      then show ?thesis by (rule path_to_then [OF ask_taken, rotated 5]) (use taken in simp_all)
    next
      case got
      have "guarded (release_room_creation_lock (thread_lock_key t)) (new_thread_locked u c e g b t i) E w2 = (r, w')"
        using run g a unknown got by (simp add: bind_def)
      then have "path_to t tr E e g b p Out (turn p Looking_again (?s1\<lparr>ts_lock := True\<rparr>)) r w'"
        using got by (intro guarded_path) simp_all
      then show ?thesis by (rule path_to_then [OF ask_free, rotated 5]) (use got in simp_all)
    qed
    then show ?thesis by (rule path_to_then [OF look_unknown [OF ph unknown(2)], rotated 3]) simp_all
  qed
qed

text \<open>C27: run on its own, the function that bridges the first email of a thread goes through steps
  of its task in the system of the interleaving tasks, the other tasks resting: the thread's row and
  the lock's row end as the steps say; the rooms and messages the steps add, one of each at most, are
  rooms the homeserver made for this run and the body of the email, which the ghost sent to that very
  room and the homeserver acknowledged under that event id; a run that comes back has left the
  function, and one that succeeds has posted in the room that the thread is mapped to.\<close>

theorem new_thread_follows_steps:
  assumes "em_thread e = Some t" and "em_id e = Some i" and "faults_told_apart E"
    and "shows_thread t w s" and "ts_phase s p = Looking"
    and "process_new_thread u c e g b E w = (r, w')"
  shows "\<exists>s' x rooms posts. task_path p s s' \<and> shows_thread t w' s' \<and> (r \<noteq> Hang \<longrightarrow> ts_phase s' p = Out x) \<and>
    ts_rooms s' = rooms @ ts_rooms s \<and> length rooms \<le> 1 \<and> list_all (made_room E (w_trace w) (w_trace w')) rooms \<and>
    ts_posts s' = posts @ ts_posts s \<and> length posts \<le> 1 \<and> list_all (posted E e g b (w_trace w) (w_trace w')) posts \<and>
    (r = Ok () \<longrightarrow> (\<exists>root room ev. thread_room t (w_db w') = Some (root, room) \<and>
      x = Some room \<and> posts = [(room, ev)]))"
proof -
  have "new_thread_loop (e_fuel E) u c e g b t i E w = (r, w')"
    using assms(1,2,6) by (simp add: process_new_thread_def bind_def asks_def)
  moreover have "shows_since t (w_trace w) w s" using assms(4) by (simp add: shows_since_def)
  ultimately have "path_to t (w_trace w) E e g b p Out s r w'" using loop_path [OF assms(3)] assms(5) by blast
  then obtain s' where s': "task_path p s s'" "shows_thread t w' s'"
    "ends_with p Out (made_room E (w_trace w) (w_trace w')) (posted E e g b (w_trace w) (w_trace w')) r s s'"
    unfolding path_to_def shows_since_def by blast
  then obtain x rooms posts where x: "r \<noteq> Hang \<longrightarrow> ts_phase s' p = Out x"
    "ts_rooms s' = rooms @ ts_rooms s" "length rooms \<le> 1" "list_all (made_room E (w_trace w) (w_trace w')) rooms"
    "ts_posts s' = posts @ ts_posts s" "length posts \<le> 1" "list_all (posted E e g b (w_trace w) (w_trace w')) posts"
    "r = Ok () \<longrightarrow> (\<exists>room ev root l. x = Some room \<and> posts = [(room, ev)] \<and> ts_thread s' = Some (root, room, l))"
    unfolding ends_with_def by blast
  have "r = Ok () \<longrightarrow> (\<exists>root room ev. thread_room t (w_db w') = Some (root, room) \<and> x = Some room \<and> posts = [(room, ev)])"
    using x(8) s'(2) by (auto simp: shows_thread_def)
  then show ?thesis using s'(1,2) x(1-7) by blast
qed

text \<open>A homeserver that says yes, and an email of a thread that has a room.\<close>

definition posting_env :: env where
  "posting_env = sample_env\<lparr>e_net := quiet_answers\<lparr>e_mx := \<lambda>_ _. HttpResp 200 [] ''$n''\<rparr>\<rparr>"

definition mapped_world :: world where
  "mapped_world = sample_world\<lparr>w_db := sample_db\<lparr>t_threads := [\<lparr>tr_thread = ''T1'', tr_root = ''$m'',
     tr_room = ''!r'', tr_latest = Some ''$m''\<rparr>]\<rparr>\<rparr>"

definition mapped_system :: thread_system where
  "mapped_system = thread_init\<lparr>ts_thread := Some (''$m'', ''!r'', ''$m'')\<rparr>"

definition second_run :: "unit outcome \<times> world" where
  "second_run = process_new_thread ''@a:x.org'' sample_client sample_email
     \<lparr>gu_email = ''b@y.org'', gu_id = ''@_jmap_b:x.org''\<rparr> \<lparr>eb_plain = ''hi'', eb_html = None\<rparr> posting_env mapped_world"

lemma second_run_ok: "fst second_run = Ok ()"
proof -
  let ?w = "tick posting_env mapped_world"
  have info: "get_thread_info ''T1'' posting_env mapped_world = (Ok (Some (''$m'', ''!r'', Some ''$m'')), ?w)"
    by (simp add: get_thread_info_def query_def Let_def posting_env_def mapped_world_def sample_defs find_row_def
        thread_info_def)
  have run: "second_run = process_reply ''@a:x.org'' sample_client sample_email
     \<lparr>gu_email = ''b@y.org'', gu_id = ''@_jmap_b:x.org''\<rparr> \<lparr>eb_plain = ''hi'', eb_html = None\<rparr> ''!r'' posting_env ?w"
    using info by (simp add: second_run_def process_new_thread_def sample_email_def bind_def asks_def posting_env_def
        sample_env_def eval_nat_numeral)
  show ?thesis
    unfolding run
    by (simp add: process_reply_def send_message_as_def send_as_ghost_joining_def send_as_ghost_def build_send_def
        thread_relation_def parse_room_def parse_user_def parse_event_opt_def mx_call_def call_def txn_id_def fresh_def
        save_message_mapping_def update_thread_latest_event_def exec_unit_def run_def handle_attachments_def
        bind_def andthen_def attempt_def ignore_def asks_def ensure_def ret_def Let_def sample_email_def
        posting_env_def sample_defs is_success_def)
qed

theorem new_thread_follows_steps_witness:
  "\<exists>s' root room ev. task_path 0 mapped_system s' \<and> ts_phase s' 0 = Out (Some room) \<and> ts_posts s' = [(room, ev)]
     \<and> thread_room ''T1'' (w_db (snd second_run)) = Some (root, room)
     \<and> posted posting_env sample_email \<lparr>gu_email = ''b@y.org'', gu_id = ''@_jmap_b:x.org''\<rparr>
         \<lparr>eb_plain = ''hi'', eb_html = None\<rparr> [] (w_trace (snd second_run)) (room, ev)"
proof -
  have hyps: "em_thread sample_email = Some ''T1''" "em_id sample_email = Some ''M1''" "faults_told_apart posting_env"
    "shows_thread ''T1'' mapped_world mapped_system" "ts_phase mapped_system 0 = Looking"
    by (simp_all add: sample_email_def faults_told_apart_def posting_env_def mapped_system_def mapped_world_def
        shows_thread_def thread_room_def find_row_def sample_defs empty_db_def thread_init_def)
  have start: "ts_posts mapped_system = []" "w_trace mapped_world = []"
    by (simp_all add: mapped_system_def mapped_world_def sample_world_def)
  have run: "process_new_thread ''@a:x.org'' sample_client sample_email
     \<lparr>gu_email = ''b@y.org'', gu_id = ''@_jmap_b:x.org''\<rparr> \<lparr>eb_plain = ''hi'', eb_html = None\<rparr> posting_env mapped_world
     = (Ok (), snd second_run)"
    using second_run_ok by (simp add: second_run_def [symmetric] prod_eq_iff)
  show ?thesis using new_thread_follows_steps [OF hyps run] start by fastforce
qed

end
