(* ===== verification/Fetch_Safety.thy ===== *)
theory Fetch_Safety
  imports Net Samples
begin

text \<open>
  What the guarded fetch of \<^verbatim>\<open>src/src/net.rs\<close> guarantees: which IPv4 addresses it dials,
  against the list of the reserved blocks in CIDR notation, and that every request it makes,
  redirects included, follows a resolution of its host to public addresses only.
\<close>

section \<open>Blocks of addresses\<close>

text \<open>An IPv4 address as one number, and the reserved blocks by base address and prefix length.\<close>

definition v4_number :: "8 word \<Rightarrow> 8 word \<Rightarrow> 8 word \<Rightarrow> 8 word \<Rightarrow> nat" where
  "v4_number a b c d = ((unat a * 256 + unat b) * 256 + unat c) * 256 + unat d"

definition quad :: "nat \<Rightarrow> nat \<Rightarrow> nat \<Rightarrow> nat \<Rightarrow> nat" where
  "quad a b c d = ((a * 256 + b) * 256 + c) * 256 + d"

definition reserved_blocks :: "(nat \<times> nat) list" where
  "reserved_blocks = [(quad 127 0 0 0, 8), (quad 10 0 0 0, 8), (quad 172 16 0 0, 12),
     (quad 192 168 0 0, 16), (quad 169 254 0 0, 16), (quad 0 0 0 0, 32), (quad 255 255 255 255, 32),
     (quad 224 0 0 0, 4), (quad 192 0 2 0, 24), (quad 198 51 100 0, 24), (quad 203 0 113 0, 24),
     (quad 100 64 0 0, 10)]"

definition in_block :: "nat \<Rightarrow> nat \<times> nat \<Rightarrow> bool" where
  "in_block n block \<longleftrightarrow> (case block of (base, len) \<Rightarrow> n div 2 ^ (32 - len) = base div 2 ^ (32 - len))"

lemma octet_less: "unat (a :: 8 word) < 256"
  using unsigned_less [of a] by simp

unbundle bit_operations_syntax

lemma octet_table: "\<forall>n \<in> set [0..<256]. (word_of_nat n :: 8 word) AND 0xc0 = 64 \<longleftrightarrow> n div 64 = 1"
  by code_simp

lemma octet_bits: "(b :: 8 word) AND 0xc0 = 64 \<longleftrightarrow> unat b div 64 = 1"
  using bspec [OF octet_table, of "unat b"] octet_less [of b] by simp

lemma octet_const: "(a :: 8 word) = numeral k \<longleftrightarrow> unat a = unat (numeral k :: 8 word)"
  by (simp add: word_unat_eq_iff)

lemma div_shift: "y < 256 \<Longrightarrow> (x * 256 + y) div 256 = (x :: nat)"
  by simp

lemma v4_prefixes:
  fixes a b c d :: nat
  assumes "b < 256" "c < 256" "d < 256"
  defines "n \<equiv> ((a * 256 + b) * 256 + c) * 256 + d"
  shows "n div 256 = (a * 256 + b) * 256 + c" "n div 65536 = a * 256 + b" "n div 16777216 = a"
    "n div 1048576 = (a * 256 + b) div 16" "n div 4194304 = (a * 256 + b) div 64"
    "n div 268435456 = a div 16"
proof -
  show n24: "n div 256 = (a * 256 + b) * 256 + c" using assms by simp
  have "n div 65536 = n div 256 div 256" by (simp add: div_mult2_eq [symmetric])
  then show n16: "n div 65536 = a * 256 + b" using n24 assms by simp
  have "n div 16777216 = n div 65536 div 256" by (simp add: div_mult2_eq [symmetric])
  then show n8: "n div 16777216 = a" using n16 assms by simp
  have "n div 1048576 = n div (65536 * 16)" "n div 4194304 = n div (65536 * 64)"
    "n div 268435456 = n div (16777216 * 16)"
    by simp_all
  then show "n div 1048576 = (a * 256 + b) div 16" "n div 4194304 = (a * 256 + b) div 64"
    "n div 268435456 = a div 16"
    by (simp_all only: div_mult2_eq n16 n8)
qed


lemma pack_eq: "y < k \<Longrightarrow> v < k \<Longrightarrow> x * k + y = u * k + v \<longleftrightarrow> x = u \<and> y = (v :: nat)"
proof
  assume lt: "y < k" "v < k" and eq: "x * k + y = u * k + v"
  have "(x * k + y) div k = x" "(u * k + v) div k = u" using lt by simp_all
  with eq show "x = u \<and> y = v" by simp
qed simp

lemma v4_blocks:
  fixes a b c d :: nat
  assumes "a < 256" "b < 256" "c < 256" "d < 256"
  shows "(\<exists>blk \<in> set reserved_blocks. in_block (((a * 256 + b) * 256 + c) * 256 + d) blk) \<longleftrightarrow>
     a = 127 \<or> a = 10 \<or> a = 172 \<and> 16 \<le> b \<and> b \<le> 31 \<or> a = 192 \<and> b = 168 \<or> a = 169 \<and> b = 254
     \<or> a = 0 \<and> b = 0 \<and> c = 0 \<and> d = 0 \<or> a = 255 \<and> b = 255 \<and> c = 255 \<and> d = 255
     \<or> 224 \<le> a \<and> a \<le> 239 \<or> a = 192 \<and> b = 0 \<and> c = 2 \<or> a = 198 \<and> b = 51 \<and> c = 100
     \<or> a = 203 \<and> b = 0 \<and> c = 113 \<or> a = 100 \<and> b div 64 = 1"
proof -
  have q: "(a * 256 + b) div 16 = a * 16 + b div 16" "(a * 256 + b) div 64 = a * 4 + b div 64"
    using div_mult_self1 [of 16 b "a * 16"] div_mult_self1 [of 64 b "a * 4"] by (simp_all add: add.commute)
  have p12: "(a * 256 + b) div 16 = 2753 \<longleftrightarrow> a = 172 \<and> 16 \<le> b \<and> b \<le> 31"
    unfolding q using pack_eq [of "b div 16" 16 1 a 172] assms(2) by auto
  have p10: "(a * 256 + b) div 64 = 401 \<longleftrightarrow> a = 100 \<and> b div 64 = 1"
    unfolding q using pack_eq [of "b div 64" 4 1 a 100] assms(2) by simp
  have p16: "a * 256 + b = 49320 \<longleftrightarrow> a = 192 \<and> b = 168" "a * 256 + b = 43518 \<longleftrightarrow> a = 169 \<and> b = 254"
    "a * 256 + b = 49152 \<longleftrightarrow> a = 192 \<and> b = 0" "a * 256 + b = 50739 \<longleftrightarrow> a = 198 \<and> b = 51"
    "a * 256 + b = 51968 \<longleftrightarrow> a = 203 \<and> b = 0" "a * 256 + b = 65535 \<longleftrightarrow> a = 255 \<and> b = 255"
    using pack_eq [of b 256 168 a 192] pack_eq [of b 256 254 a 169] pack_eq [of b 256 0 a 192]
      pack_eq [of b 256 51 a 198] pack_eq [of b 256 0 a 203] pack_eq [of b 256 255 a 255] assms(2)
    by simp_all
  have p4: "a div 16 = 14 \<longleftrightarrow> 224 \<le> a \<and> a \<le> 239" by presburger
  have p24: "(a * 256 + b) * 256 + c = 12582914 \<longleftrightarrow> a = 192 \<and> b = 0 \<and> c = 2"
    "(a * 256 + b) * 256 + c = 12989284 \<longleftrightarrow> a = 198 \<and> b = 51 \<and> c = 100"
    "(a * 256 + b) * 256 + c = 13303921 \<longleftrightarrow> a = 203 \<and> b = 0 \<and> c = 113"
    using pack_eq [of c 256 2 "a * 256 + b" 49152] pack_eq [of c 256 100 "a * 256 + b" 50739]
      pack_eq [of c 256 113 "a * 256 + b" 51968] assms(3) p16 by simp_all
  have p32: "((a * 256 + b) * 256 + c) * 256 + d = 4294967295 \<longleftrightarrow> a = 255 \<and> b = 255 \<and> c = 255 \<and> d = 255"
    using pack_eq [of d 256 255 "(a * 256 + b) * 256 + c" 16777215]
      pack_eq [of c 256 255 "a * 256 + b" 65535] assms(3,4) p16 by simp
  define n where "n = ((a * 256 + b) * 256 + c) * 256 + d"
  define m where "m = (a * 256 + b) * 256 + c"
  define k where "k = a * 256 + b"
  note prefixes = v4_prefixes [where a = a, OF assms(2,3,4), folded n_def, folded m_def, folded k_def]
  note bits = p10 [folded k_def] p12 [folded k_def] p16 [folded k_def] p24 [folded m_def]
    p32 [folded n_def] p4
  have zero: "n = 0 \<longleftrightarrow> a = 0 \<and> b = 0 \<and> c = 0 \<and> d = 0" by (auto simp: n_def)
  show ?thesis
    unfolding reserved_blocks_def in_block_def quad_def n_def [symmetric]
    by (simp add: prefixes bits zero)
qed

lemma v4_special_nat:
  "v4_special a b c d \<longleftrightarrow> (\<exists>blk \<in> set reserved_blocks. in_block (v4_number a b c d) blk)"
  unfolding v4_number_def v4_blocks [OF octet_less octet_less octet_less octet_less]
  unfolding v4_special_def octet_bits by (simp add: word_unat_eq_iff word_le_nat_alt)

text \<open>C37: the guard's tests on the octets of an IPv4 address are exactly membership in the listed
  blocks in CIDR notation, for the plain address and for its IPv4-mapped IPv6 form.\<close>

theorem public_v4_is_outside_blocks:
  "is_public (V4 a b c d) = (\<not> list_ex (in_block (v4_number a b c d)) reserved_blocks) \<and>
   is_public (V6 [0, 0, 0, 0, 0, 0xffff, push_bit 8 (ucast a) OR ucast b, push_bit 8 (ucast c) OR ucast d])
     = is_public (V4 a b c d)"
proof
  show "is_public (V4 a b c d) = (\<not> list_ex (in_block (v4_number a b c d)) reserved_blocks)"
    by (simp add: v4_special_nat list_ex_iff)
  have beyond: "\<not> bit (x :: 8 word) (8 + n)" for x n
    using bit_imp_le_length [of x "8 + n"] by auto
  have "v4_mapped [0, 0, 0, 0, 0, 0xffff, push_bit 8 (ucast a) OR ucast b, push_bit 8 (ucast c) OR ucast d]
      = Some (a, b, c, d)"
    by (simp add: v4_mapped_def) (auto intro!: bit_word_eqI simp: bit_simps beyond)
  then show "is_public (V6 [0, 0, 0, 0, 0, 0xffff, push_bit 8 (ucast a) OR ucast b, push_bit 8 (ucast c) OR ucast d])
     = is_public (V4 a b c d)"
    by (simp only: is_public.simps option.case prod.case)
qed

section \<open>Every request follows a check of its host\<close>

definition resolves_public :: "env \<Rightarrow> ev list \<Rightarrow> bool" where
  "resolves_public E t \<longleftrightarrow> (case e_dns (e_net E) t of
     Some addrs \<Rightarrow> addrs \<noteq> [] \<and> list_all is_public addrs | None \<Rightarrow> False)"

text \<open>\<open>u\<close> may be dialled after the trace \<open>tr\<close>: its own host, looked up next, is public.\<close>

definition dialable :: "env \<Rightarrow> ev list \<Rightarrow> url \<Rightarrow> bool" where
  "dialable E tr u \<longleftrightarrow> (u_scheme u = ''http'' \<or> u_scheme u = ''https'') \<and>
     (\<exists>h. u_host u = Some h \<and> resolves_public E (EvLookup h # tr))"

text \<open>Where the answer to the request for \<open>u\<close>, the newest event of \<open>tr\<close>, redirects to.\<close>

definition next_hop :: "env \<Rightarrow> url \<Rightarrow> ev list \<Rightarrow> url option" where
  "next_hop E u tr = (case e_fetch (e_net E) tr of
     HttpResp st hs _ \<Rightarrow> if 300 \<le> st \<and> st < 400
       then Option.bind (map_of hs ''location'') (l_join (e_lib E) u) else None
   | HttpErr _ \<Rightarrow> None)"

text \<open>
  The trace after the URLs \<open>us\<close>, first to last, were requested, each after a lookup of its host; and
  the rule for such a list: it starts at \<open>start\<close>, each URL is where the one before redirected to, and
  each may be dialled when its turn comes.
\<close>

definition request_of :: "url \<Rightarrow> ev list \<Rightarrow> ev list" where
  "request_of u tr = EvFetch (u_text u) # EvLookup (the (u_host u)) # tr"

fun trail :: "url list \<Rightarrow> ev list \<Rightarrow> ev list" where
  "trail [] tr = tr"
| "trail (u # us) tr = trail us (request_of u tr)"

fun hop_chain :: "env \<Rightarrow> url option \<Rightarrow> url list \<Rightarrow> ev list \<Rightarrow> bool" where
  "hop_chain E start [] tr = True"
| "hop_chain E start (u # us) tr = (start = Some u \<and> dialable E tr u \<and>
     hop_chain E (next_hop E u (request_of u tr)) us (request_of u tr))"

text \<open>
  A fetch from \<open>start\<close> that ends with \<open>r\<close> took at most \<open>n\<close> such hops and at most one more lookup, and
  when it succeeds, \<open>r\<close> is the answer to its last request.
\<close>

definition fetch_run ::
    "env \<Rightarrow> nat \<Rightarrow> url option \<Rightarrow> ev list \<Rightarrow> (nat \<times> (string \<times> string) list \<times> string) outcome \<Rightarrow> ev list \<Rightarrow> bool" where
  "fetch_run E n start tr r tr' \<longleftrightarrow> (\<exists>us check. length us \<le> n \<and> hop_chain E start us tr \<and>
     tr' = map EvLookup check @ trail us tr \<and> length check \<le> 1 \<and>
     (case r of Ok (st, hs, body) \<Rightarrow> us \<noteq> [] \<and> check = [] \<and> e_fetch (e_net E) tr' = HttpResp st hs body | _ \<Rightarrow> True))"

lemma fetch_run_stop: "(\<forall>x. r \<noteq> Ok x) \<Longrightarrow> length check \<le> 1 \<Longrightarrow> fetch_run E n start tr r (map EvLookup check @ tr)"
  unfolding fetch_run_def by (rule exI [of _ "[]"], rule exI [of _ check]) (auto split: outcome.split)

lemma fetch_run_one:
  assumes "dialable E tr u" and "r = Ok (st, hs, body) \<and> e_fetch (e_net E) (request_of u tr) = HttpResp st hs body \<or> (\<forall>x. r \<noteq> Ok x)"
  shows "fetch_run E (Suc n) (Some u) tr r (request_of u tr)"
  unfolding fetch_run_def by (rule exI [of _ "[u]"], rule exI [of _ "[]"]) (use assms in \<open>auto split: outcome.split\<close>)

lemma fetch_run_hop:
  assumes "dialable E tr u" and "next_hop E u (request_of u tr) = Some u'"
    and "fetch_run E n (Some u') (request_of u tr) r tr'"
  shows "fetch_run E (Suc n) (Some u) tr r tr'"
proof -
  obtain us check where *: "length us \<le> n" "hop_chain E (Some u') us (request_of u tr)"
    "tr' = map EvLookup check @ trail us (request_of u tr)" "length check \<le> 1"
    "case r of Ok (st, hs, body) \<Rightarrow> us \<noteq> [] \<and> check = [] \<and> e_fetch (e_net E) tr' = HttpResp st hs body | _ \<Rightarrow> True"
    using assms(3) unfolding fetch_run_def by blast
  show ?thesis unfolding fetch_run_def
    by (rule exI [of _ "u # us"], rule exI [of _ check]) (use * assms(1,2) in \<open>auto split: outcome.splits\<close>)
qed

lemma assert_public_url_cases:
  obtains (refused) r check where "fst (assert_public_url u E w) = r" "\<forall>x. r \<noteq> Ok x" "length check \<le> 1"
      "w_trace (snd (assert_public_url u E w)) = map EvLookup check @ w_trace w"
    | (passed) h where "fst (assert_public_url u E w) = Ok ()" "dialable E (w_trace w) u" "u_host u = Some h"
      "w_trace (snd (assert_public_url u E w)) = EvLookup h # w_trace w"
proof (cases "(u_scheme u = ''http'' \<or> u_scheme u = ''https'') \<and> u_host u \<noteq> None")
  case False
  then have "(\<forall>x. fst (assert_public_url u E w) \<noteq> Ok x) \<and> w_trace (snd (assert_public_url u E w)) = map EvLookup [] @ w_trace w"
    by (auto simp: assert_public_url_def andthen_def ensure_def need_def bind_def step_simps)
  then show ?thesis using refused [OF refl, of "[]"] by simp
next
  case True
  then obtain h where h: "u_host u = Some h" by blast
  have t: "w_trace (snd (assert_public_url u E w)) = map EvLookup [h] @ w_trace w"
    using True h by (auto simp: assert_public_url_def andthen_def ensure_def need_def call_def bind_def step_simps
        split: option.split)
  show ?thesis
  proof (cases "fst (assert_public_url u E w)")
    case (Ok x)
    then have "resolves_public E (EvLookup h # w_trace w)"
      using True h by (auto simp: assert_public_url_def andthen_def ensure_def need_def call_def bind_def step_simps
          resolves_public_def split: option.splits if_splits)
    then show ?thesis using passed [of h] Ok True h t by (auto simp: dialable_def)
  qed (use refused [OF refl _ _ t] in simp_all)
qed

lemma run_call: "bind (call e answer) f E w = f (answer E (e # w_trace w)) E (tick E (emit e w))"
  by (simp add: call_def bind_def)

lemma get_hops_run: "fetch_run E n (Some u) (w_trace w) (fst (get_hops n u E w)) (w_trace (snd (get_hops n u E w)))"
proof (induction n arbitrary: u w)
  case 0
  then show ?case using fetch_run_stop [of _ "[]"] by (simp add: fail_def)
next
  case (Suc n)
  let ?m = "assert_public_url u" and ?w1 = "snd (assert_public_url u E w)"
  show ?case
  proof (cases rule: assert_public_url_cases [of u E w])
    case (refused r check)
    then have "fst (get_hops (Suc n) u E w) \<noteq> Ok x" "snd (get_hops (Suc n) u E w) = ?w1" for x
      by (cases "?m E w"; cases "fst (?m E w)"; simp add: andthen_def bind_def [of ?m])+
    then show ?thesis using fetch_run_stop refused(3,4) by simp
  next
    case (passed h)
    define w2 where "w2 = tick E (emit (EvFetch (u_text u)) ?w1)"
    have t2: "w_trace w2 = request_of u (w_trace w)" using passed by (simp add: w2_def request_of_def)
    let ?a = "e_fetch (e_net E) (w_trace w2)"
    have run: "get_hops (Suc n) u E w = (case ?a of HttpErr m \<Rightarrow> fail (Other m)
      | HttpResp st hs body \<Rightarrow> (case redirect_location st hs of None \<Rightarrow> ret (st, hs, body)
        | Some l \<Rightarrow> bind (need ''redirect without a valid Location header'' l) (\<lambda>location.
            bind (asks (\<lambda>E. l_join (e_lib E) u location)) (\<lambda>next_url.
            bind (need ''invalid redirect Location'' next_url) (get_hops n))))) E w2"
      using passed(1) by (cases "?m E w") (simp add: andthen_def bind_def [of ?m] run_call w2_def)
    show ?thesis
    proof (cases "next_hop E u (w_trace w2)")
      case None
      then have s: "snd (get_hops (Suc n) u E w) = w2" "(\<exists>st hs body. fst (get_hops (Suc n) u E w) = Ok (st, hs, body) \<and>
          ?a = HttpResp st hs body) \<or> (\<forall>x. fst (get_hops (Suc n) u E w) \<noteq> Ok x)"
        unfolding run by (auto simp: next_hop_def redirect_location_def bind_def need_def asks_def fail_def ret_def
            split: http_out.splits option.splits)
      then show ?thesis using fetch_run_one [OF passed(2)] t2 by fastforce
    next
      case (Some u')
      then have "get_hops (Suc n) u E w = get_hops n u' E w2"
        unfolding run by (auto simp: next_hop_def redirect_location_def bind_def need_def asks_def ret_def
            bind_eq_Some_conv split: http_out.splits if_splits)
      then show ?thesis using fetch_run_hop [OF passed(2)] Some Suc.IH [of u' w2] t2 by simp
    qed
  qed
qed

text \<open>C14: the requests of a guarded fetch are those of a chain of URLs: the one given, then wherever
  each answer redirects to, at most one more than the redirects allowed. Each is sent directly after a
  lookup of the host of that very URL, whose answer was a nonempty list of public addresses; the only
  other thing a fetch does is one last lookup, and what it returns is the answer to its last request.\<close>

theorem safe_get_dials_checked_hosts:
  "fetch_run E (max_redirects + 1) (l_url (e_lib E) text) (w_trace w)
     (fst (safe_get text max_redirects E w)) (w_trace (snd (safe_get text max_redirects E w)))"
proof (cases "l_url (e_lib E) text")
  case None
  then show ?thesis using fetch_run_stop [of _ "[]"]
    by (simp add: safe_get_def bind_def asks_def need_def fail_def)
next
  case (Some u)
  then show ?thesis using get_hops_run [of E "max_redirects + 1" u w]
    by (simp add: safe_get_def bind_def [of "asks _"] bind_def [of "need _ _"] need_def step_simps)
qed

end
