(* ===== verification/Text_Claims.thy ===== *)
theory Text_Claims
  imports Localpart Images Samples
begin

text \<open>
  What the pure text routines of the bridge promise: ghost localparts are told apart
  (\<^verbatim>\<open>src/src/ghost.rs\<close>), bodies fit the Matrix size limit, the bridge's own reply quote is
  stripped again, and the remote images of a body are web addresses, each once
  (\<^verbatim>\<open>src/src/services/content.rs\<close>).
\<close>

section \<open>Ghost localparts\<close>

definition ascii :: "string \<Rightarrow> bool" where
  "ascii = list_all (\<lambda>c. (of_char c :: nat) < 128)"

lemma utf8_chars_ascii: "ascii s \<Longrightarrow> utf8_chars s = map of_char s"
  by (induction s) (auto simp: ascii_def)

lemma map_of_char_inj: "map (of_char :: char \<Rightarrow> nat) s = map of_char t \<longleftrightarrow> s = t"
  by (rule inj_map_eq_map) (auto simp: inj_on_def)

lemma decode_localpart:
  assumes "ascii s"
  shows "decode_chars (drop 6 (localpart_of_chars (utf8_chars s))) = map of_char s"
proof -
  have "\<forall>c \<in> set (map of_char s :: nat list). c < 256"
    using assms by (induction s) (auto simp: ascii_def)
  then show ?thesis
    using decode_localpart_chars [of "map of_char s"]
    by (simp add: localpart_of_chars_def utf8_chars_ascii [OF assms])
qed

lemma localpart_prefix_alphabet: "list_all localpart_alphabet (localpart_of_chars cs)"
  by (auto simp: localpart_of_chars_def list_all_iff localpart_alphabet_def plain_char_def
      dest!: localpart_char_alphabet)

text \<open>C40: two ASCII addresses have the same ghost exactly when they are equal up to case, and
  a localpart uses nothing but the characters Matrix allows in one.\<close>

theorem ghost_localpart_injective:
  assumes "ascii (lower a)" and "ascii (lower b)"
  shows "(email_to_localpart lower a = email_to_localpart lower b \<longleftrightarrow> lower a = lower b) \<and>
    list_all localpart_alphabet (email_to_localpart lower a)"
proof -
  have "lower a = lower b" if "email_to_localpart lower a = email_to_localpart lower b"
  proof -
    from that have "localpart_of_chars (utf8_chars (lower a)) = localpart_of_chars (utf8_chars (lower b))"
      by (simp only: email_to_localpart_def)
    with decode_localpart [OF assms(1)] have "map of_char (lower a) = (map of_char (lower b) :: nat list)"
      using decode_localpart [OF assms(2)] by (metis (no_types))
    then show ?thesis by (simp only: map_of_char_inj)
  qed
  then show ?thesis
    by (auto simp: email_to_localpart_def localpart_prefix_alphabet)
qed

lemma ghost_localpart_injective_witness:
  "email_to_localpart to_ascii_lowercase ''Bob@y.org'' \<noteq> email_to_localpart to_ascii_lowercase ''bob=40y.org''"
proof -
  have "ascii (to_ascii_lowercase ''Bob@y.org'')" and "ascii (to_ascii_lowercase ''bob=40y.org'')"
    and "to_ascii_lowercase ''Bob@y.org'' \<noteq> to_ascii_lowercase ''bob=40y.org''"
    by (simp_all add: ascii_def to_ascii_lowercase_def lower_char_def)
  then show ?thesis using ghost_localpart_injective by blast
qed

text \<open>
  Above code point 255 the escape has more than two digits and no end mark: U+1234 and U+0012
  followed by the digits 34 share a localpart.
\<close>

lemma ghost_localpart_collision:
  "email_to_localpart id (utf8_encode 0x1234) = email_to_localpart id (CHR 0x12 # ''34'')"
  by (simp add: email_to_localpart_def localpart_of_chars_def utf8_encode_def localpart_char_def plain_char_def
      hex02_def show_hex.simps hex_digit_def)

section \<open>The Matrix size limit\<close>

fun html_size :: "string option \<Rightarrow> nat" where
  "html_size None = 0"
| "html_size (Some h) = length h"

text \<open>C39: unless the HTML alone leaves less room than the truncation notice needs, the bodies
  of a message fit the budget together; the HTML is never cut but kept or dropped whole, and the
  text is the given one or a prefix of it and the notice.\<close>

theorem bodies_fit_matrix_limit:
  assumes "html_size html + 88 \<le> matrix_body_budget \<or> matrix_body_budget < html_size html"
  shows "case clamp_to_matrix_limit plain html of (p, h) \<Rightarrow>
    length p + html_size h \<le> matrix_body_budget \<and> (h = html \<or> h = None) \<and>
    (p = plain \<or> (\<exists>k. p = take k plain @ matrix_truncation_notice))"
proof -
  have cut: "a \<le> n \<Longrightarrow> length (clamp_utf8 plain (n - a)) + a \<le> n" for n a
    using clamp_utf8_length [of plain "n - a"] by simp
  have b: "matrix_body_budget = 57000" by (simp add: matrix_body_budget_def)
  show ?thesis
    using assms cut clamp_utf8_length [of plain] clamp_utf8_prefix [of plain]
    by (cases html) (auto simp: clamp_to_matrix_limit_def Let_def notice_length b)
qed

lemma bodies_fit_matrix_limit_witness:
  "case clamp_to_matrix_limit (replicate 60000 CHR ''x'') (Some (replicate 1000 CHR ''y'')) of (p, h) \<Rightarrow>
    length p + html_size h \<le> matrix_body_budget"
  using bodies_fit_matrix_limit [of "Some (replicate 1000 CHR ''y'')" "replicate 60000 CHR ''x''"]
  by (auto simp: matrix_body_budget_def)

text \<open>In the remaining window the result is over the budget by the length of the notice.\<close>

lemma body_budget_overrun:
  "length (fst (clamp_to_matrix_limit (replicate 100 CHR ''x'') (Some (replicate 57000 CHR ''y'')))) + 57000
    = matrix_body_budget + 88"
  using clamp_utf8_length [of "replicate 100 CHR ''x''" 0]
  by (simp add: clamp_to_matrix_limit_def Let_def matrix_body_budget_def notice_length)

section \<open>Reply quotes\<close>

text \<open>C35: stripping the quoted reply from a text to which the bridge appended its own quote
  gives what stripping the text alone gives, whatever was quoted, as long as the sender and the date
  are single lines.\<close>

theorem own_quote_is_stripped:
  assumes "CHR 0x0A \<notin> set sender" and "CHR 0x0A \<notin> set date"
  shows "strip_quoted_reply (body @ nl @ nl @ format_reply_quote sender date original) = strip_quoted_reply body"
  by (rule strip_appended_quote [OF assms])

lemma own_quote_is_stripped_witness:
  "strip_quoted_reply (''Fine.'' @ nl @ nl @ format_reply_quote ''Bob'' ''1 May'' ''Well?'') = ''Fine.''"
proof -
  have "strip_quoted_reply ''Fine.'' = ''Fine.''" by code_simp
  then show ?thesis using own_quote_is_stripped [of "''Bob''" "''1 May''" "''Fine.''"] by simp
qed

section \<open>Remote images\<close>

definition remote_once :: "remote_img list \<Rightarrow> bool" where
  "remote_once l \<longleftrightarrow> distinct (map ri_url l) \<and> list_all (is_remote \<circ> ri_url) l"

lemma add_remote_once: "remote_once out \<Longrightarrow> remote_once (add_remote chrome out t)"
  by (auto simp: remote_once_def add_remote_def list_ex_iff split: prod.split option.split)

lemma foldl_remote_once: "remote_once out \<Longrightarrow> remote_once (foldl (add_remote chrome) out l)"
  by (induction l arbitrary: out) (simp_all add: add_remote_once)

lemma img_tags_whole: "img_tags i s = (l, t) \<Longrightarrow> concat (map (\<lambda>(b, _, g). b @ g) l) @ t = s"
proof (induction i s arbitrary: l t rule: img_tags.induct)
  case (1 i s)
  show ?case
  proof (cases "find_ci s ''<img''")
    case None
    then show ?thesis using 1(2) by (simp add: img_tags.simps [of i s])
  next
    case (Some r)
    define n where "n = tag_len (drop r s)"
    obtain l' t' where p: "img_tags (i + r + n) (drop n (drop r s)) = (l', t')" by fastforce
    from 1(1) [OF Some refl n_def p]
    have "concat (map (\<lambda>(b, _, g). b @ g) l') @ t' = drop n (drop r s)" .
    moreover have "l = (take r s, i + r, take n (drop r s)) # l'" and "t = t'"
      using 1(2) Some p by (simp_all add: img_tags.simps [of i s] n_def Let_def)
    moreover have "take r s @ take n (drop r s) @ drop n (drop r s) = s" by (metis append_take_drop_id)
    ultimately show ?thesis by simp
  qed
qed

lemma rewrite_img_none [simp]: "rewrite_img [] = id"
  by (auto simp: rewrite_img_def fun_eq_iff split: option.split)

lemma rewrite_images_none: "rewrite_images [] html = html"
  using img_tags_whole [of 0 html] by (auto simp: rewrite_images_def split: prod.split)

text \<open>The remote images of a body are http or https addresses, each listed once, of which
  at most twenty that are not decoration are loaded; and a body none of whose images was loaded is
  left as it is.\<close>

theorem remote_images_once:
  "remote_once (extract_remote_images html) \<and> length (loadable html) \<le> 20 \<and>
   set (loadable html) \<subseteq> {i \<in> set (extract_remote_images html). \<not> ri_decorative i} \<and>
   rewrite_images [] html = html"
  using foldl_remote_once [of "[]"] rewrite_images_none
  by (auto simp: extract_remote_images_def loadable_def max_images_def remote_once_def dest!: in_set_takeD)

end
