(* ===== verification/Poll_End.thy ===== *)
theory Poll_End
  imports Poller Contracts
begin

text \<open>
  When the mailbox loop of a poll (\<^verbatim>\<open>sync_mailboxes\<close> in \<^verbatim>\<open>src/src/sync/mailbox.rs\<close>) ends.
  Each round asks the server for one more page of changes, so the trace of requests is what a round
  makes longer, and the fuel is what it uses up.
\<close>

section \<open>A page of changes\<close>

text \<open>\<open>last_page E k\<close>: once \<open>k\<close> requests have been sent, no answer says there is more.\<close>

definition last_page :: "env \<Rightarrow> nat \<Rightarrow> bool" where
  "last_page E k \<longleftrightarrow> (\<forall>tr ch. k \<le> length tr \<longrightarrow> e_changes (e_jmap E) tr = JGot ch \<longrightarrow> \<not> ch_more ch)"

lemma last_pageD:
  "last_page E k \<Longrightarrow> k \<le> length tr \<Longrightarrow> e_changes (e_jmap E) tr = JGot ch \<Longrightarrow> \<not> ch_more ch"
  by (auto simp: last_page_def)

lemma all_mailboxes_calm [calm_rules]: "calm (all_mailboxes c)"
  unfolding all_mailboxes_def by (intro calm_rules)

lemma mailbox_loop_full: "0 < n \<Longrightarrow> comes_back (fst (mailbox_loop n u c None acc E w))"
proof (cases n)
  case (Suc m)
  have "calm (mailbox_loop n u c None acc)"
    unfolding Suc mailbox_loop.simps option.case by (intro calm_rules)
  then show ?thesis by (simp add: calm_def)
qed simp

lemma delete_then_full:
  assumes "0 < n"
  shows "comes_back (fst (andthen (delete_jmap_state u k) (mailbox_loop n u c None acc) E w))"
proof -
  have "comes_back (fst (delete_jmap_state u k E w))"
    using store_writes_calm(3) [of u k] by (simp add: calm_def)
  with assms mailbox_loop_full show ?thesis
    by (auto simp: andthen_def bind_def split: prod.split outcome.split)
qed

lemma changes_call:
  "jcall c (MailboxChanges s) e_changes E w =
    (Ok (e_changes (e_jmap E) (EvJmap c (MailboxChanges s) # w_trace w)),
     tick E (emit (EvJmap c (MailboxChanges s)) w))"
  by (simp add: jcall_def call_def)

lemma emitted_trace [simp]: "w_trace (tick E (emit e w)) = e # w_trace w"
  by (simp add: tick_def emit_def)

lemma mailbox_loop_comes_back:
  assumes "last_page E k" and "k \<le> length (w_trace w) + r" and "r + 2 \<le> n"
  shows "comes_back (fst (mailbox_loop n u c st acc E w))"
  using assms(2,3)
proof (induction n arbitrary: st acc w r)
  case (Suc n)
  show ?case
  proof (cases st)
    case None
    then show ?thesis using mailbox_loop_full [of "Suc n"] by simp
  next
    case (Some s)
    define w' where "w' = tick E (emit (EvJmap c (MailboxChanges s)) w)"
    have tr: "w_trace w' = EvJmap c (MailboxChanges s) # w_trace w" by (simp add: w'_def)
    have full: "comes_back (fst (andthen (delete_jmap_state u ''mailbox'') (mailbox_loop n u c None acc) E w'))"
      using Suc.prems(2) by (intro delete_then_full) simp
    have next_page: "comes_back (fst (mailbox_loop n u c st' acc' E w'))" if "ch_more ch"
      and "e_changes (e_jmap E) (w_trace w') = JGot ch" for ch st' acc'
    proof -
      have "0 < r"
        using last_pageD [OF assms(1) _ that(2)] that(1) Suc.prems(1) by (cases r) (auto simp: tr)
      then show ?thesis
        using Suc.prems by (intro Suc.IH [of w' "r - 1"]) (auto simp: tr)
    qed
    show ?thesis
      using full next_page Some
      by (auto simp: bind_def changes_call junwrap_def fail_def ret_def Let_def tr w'_def [symmetric]
          split: jres.split)
  qed
qed simp

text \<open>The mailbox loop of a poll ends, with the changed mailboxes or an error and without
  a panic, once the server stops saying that there are more changes: if it does so after \<open>r\<close> pages,
  \<open>r + 2\<close> rounds are enough, the two more being a page whose state the server no longer knows and
  the full list asked for instead.\<close>

theorem mailbox_loop_ends:
  assumes "last_page E (length (w_trace w) + r)" and "r + 2 \<le> n"
  shows "comes_back (fst (mailbox_loop n u c st acc E w))"
  using mailbox_loop_comes_back [OF assms(1) order_refl assms(2)] .

definition two_pages :: "ev list \<Rightarrow> changes jres" where
  "two_pages tr = (if length tr < 2 then JGot \<lparr>ch_created = [''B1''], ch_updated = [], ch_destroyed = [],
     ch_new_state = ''s1'', ch_more = True\<rparr> else JMethodErr True ''cannotCalculateChanges'')"

definition paged_env :: env where
  "paged_env = sample_env\<lparr>e_jmap := quiet_jmap\<lparr>e_changes := two_pages\<rparr>\<rparr>"

lemma mailbox_loop_ends_witness:
  "comes_back (fst (mailbox_loop 4 ''@a:x.org'' sample_client (Some ''s0'') [] paged_env sample_world))"
proof (rule mailbox_loop_ends)
  show "last_page paged_env (length (w_trace sample_world) + 2)"
    by (auto simp: last_page_def paged_env_def two_pages_def sample_defs)
qed simp

end
