(* ===== verification/Poll_Settles.thy ===== *)
theory Poll_Settles
  imports Poll_End
begin

text \<open>
  When a whole poll (\<^verbatim>\<open>src/src/sync/mod.rs\<close>) ends. Besides the paging of the server it waits for the
  two room-creation locks, of a user's email space and of a thread, so the logic here follows which
  locks are held: \<open>settles E H m\<close> says that \<open>m\<close>, started with exactly the locks \<open>H\<close> held, neither
  panics nor waits forever, and gives back every lock it took.
\<close>

section \<open>Locks held\<close>

definition held_locks :: "world \<Rightarrow> string set" where
  "held_locks w = set (t_locks (w_db w))"

definition settles :: "env \<Rightarrow> string set \<Rightarrow> 'a act \<Rightarrow> bool" where
  "settles E H m \<longleftrightarrow> (\<forall>w. held_locks w = H \<longrightarrow> comes_back (fst (m E w)) \<and> held_locks (snd (m E w)) = H)"

definition db_answers :: "env \<Rightarrow> bool" where
  "db_answers E \<longleftrightarrow> (\<forall>i. e_fault (e_net E) i = None)"

lemma settlesD:
  "settles E H m \<Longrightarrow> held_locks w = H \<Longrightarrow> m E w = (r, w') \<Longrightarrow> comes_back r \<and> held_locks w' = H"
  unfolding settles_def by (metis fst_conv snd_conv)

text \<open>An action that never touches the table of locks settles when it is calm.\<close>

definition lockless :: "label \<Rightarrow> bool" where
  "lockless l \<longleftrightarrow> (\<forall>k. l \<noteq> LDb (TakeLock k) \<and> l \<noteq> LDb (DropLock k)) \<and> l \<noteq> LDb DropAllLocks"

lemma lockless_simps [simp]:
  "lockless (LEv e)" "lockless (LMem mo)" "lockless LTick"
  "lockless (LDb s) \<longleftrightarrow> (\<forall>k. s \<noteq> TakeLock k \<and> s \<noteq> DropLock k) \<and> s \<noteq> DropAllLocks"
  by (auto simp: lockless_def)

lemma exec_lockless: "exec t s d = Inr (n, d') \<Longrightarrow> lockless (LDb s) \<Longrightarrow> t_locks d' = t_locks d"
  by (cases s) (auto split: if_splits option.splits)

lemma lockless_held: "evolves lockless w w' \<Longrightarrow> held_locks w' = held_locks w"
proof (erule evolves_invariant [where I = "\<lambda>w'. held_locks w' = held_locks w"])
  fix l w1 w2
  assume st: "world_step l w1 w2" and l: "l = LTick \<or> lockless l" and h: "held_locks w1 = held_locks w"
  show "held_locks w2 = held_locks w"
    using st
  proof (cases rule: world_step.cases)
    case (step_db s n d)
    then show ?thesis using l h exec_lockless [of "w_clock w1" s "w_db w1" n d] by (simp add: held_locks_def)
  next
    case (step_mem m)
    then show ?thesis using h by (cases m) (auto simp: held_locks_def)
  qed (use h in \<open>auto simp: held_locks_def emit_def\<close>)
qed simp

lemma settles_calm: "calm m \<Longrightarrow> within (evolves lockless) m \<Longrightarrow> settles E H m"
  unfolding settles_def calm_def within_def using lockless_held by metis

lemma settles_bind: "settles E H m \<Longrightarrow> (\<And>x. settles E H (f x)) \<Longrightarrow> settles E H (bind m f)"
  unfolding settles_def bind_def by (auto split: prod.split outcome.split)

lemma settles_ret: "settles E H (ret x)"
  by (simp add: settles_def ret_def)

lemma settles_asks: "settles E H (f (g E)) \<Longrightarrow> settles E H (bind (asks g) f)"
  by (simp add: settles_def bind_def asks_def)

lemma settles_attempt: "settles E H m \<Longrightarrow> settles E H (attempt m)"
  unfolding settles_def attempt_def
  by (auto split: prod.split outcome.split)

lemma settles_andthen: "settles E H m \<Longrightarrow> settles E H n \<Longrightarrow> settles E H (andthen m n)"
  by (simp add: andthen_def settles_bind)

lemma settles_ignore: "settles E H m \<Longrightarrow> settles E H (ignore m)"
  by (simp add: ignore_def settles_bind settles_attempt settles_ret)

lemma settles_contextual: "settles E H m \<Longrightarrow> settles E H (contextual c m)"
  unfolding contextual_def
  by (auto intro!: settles_bind settles_attempt settles_ret split: sum.split)
    (simp add: settles_def fail_def)

lemma settles_for_each: "(\<And>x. x \<in> set xs \<Longrightarrow> settles E H (f x)) \<Longrightarrow> settles E H (for_each xs f)"
  by (induction xs) (auto intro: settles_andthen settles_ret)

lemma settles_branches:
  "(b \<Longrightarrow> settles E H m) \<Longrightarrow> (\<not> b \<Longrightarrow> settles E H n) \<Longrightarrow> settles E H (if b then m else n)"
  "(v = None \<Longrightarrow> settles E H m) \<Longrightarrow> (\<And>x. v = Some x \<Longrightarrow> settles E H (g x)) \<Longrightarrow>
     settles E H (case v of None \<Rightarrow> m | Some x \<Rightarrow> g x)"
  "(\<And>x y. p = (x, y) \<Longrightarrow> settles E H (k x y)) \<Longrightarrow> settles E H (case p of (x, y) \<Rightarrow> k x y)"
  "(\<And>x. s = Inl x \<Longrightarrow> settles E H (g1 x)) \<Longrightarrow> (\<And>x. s = Inr x \<Longrightarrow> settles E H (g2 x)) \<Longrightarrow>
     settles E H (case s of Inl x \<Rightarrow> g1 x | Inr x \<Rightarrow> g2 x)"
  by (auto split: option.split prod.split sum.split)

lemmas settle_rules = settles_asks settles_bind settles_attempt settles_andthen settles_ignore settles_contextual settles_for_each
  settles_branches settles_ret

text \<open>A block under a lock that was free.\<close>

lemma settles_under_lock:
  assumes "db_answers E" and "k \<notin> H" and m: "settles E (insert k H) m"
  shows "settles E H (bind (try_acquire_room_creation_lock k)
    (\<lambda>got. if got then guarded (release_room_creation_lock k) m else n))"
  unfolding settles_def
proof (intro allI impI)
  fix w
  assume h: "held_locks w = H"
  have ok: "e_fault (e_net E) i = None" for i using assms(1) by (simp add: db_answers_def)
  obtain w1 where got: "try_acquire_room_creation_lock k E w = (Ok True, w1)" and w1: "held_locks w1 = insert k H"
    using creation_lock_row_is_mutex [OF ok, of k w] h assms(2)
      store_calm(7) [of k, THEN calmD, of E w] by (cases "try_acquire_room_creation_lock k E w") (auto simp: held_locks_def)
  obtain r w2 where run: "m E w1 = (r, w2)" by fastforce
  have r: "comes_back r" "held_locks w2 = insert k H" using settlesD [OF m w1 run] by auto
  have rel: "held_locks (snd (release_room_creation_lock k E w2)) = H"
    using creation_lock_row_is_mutex [OF ok, of k w2] r(2) assms(2) by (auto simp: held_locks_def)
  show "comes_back (fst (bind (try_acquire_room_creation_lock k)
      (\<lambda>got. if got then guarded (release_room_creation_lock k) m else n) E w)) \<and>
    held_locks (snd (bind (try_acquire_room_creation_lock k)
      (\<lambda>got. if got then guarded (release_room_creation_lock k) m else n) E w)) = H"
    using r(1) rel by (cases r) (simp_all add: bind_def got guarded_def run)
qed


section \<open>Rooms and emails\<close>

lemma lockless_allows [simp]:
  "allows_mx lockless r" "allows_attach lockless" "allows_jread lockless" "allows_ghost lockless"
  "allows_read_state lockless u i"
  by (simp_all add: allows_attach_def allows_jread_def allows_ghost_def allows_read_state_def)

lemma poll_calm [calm_rules]:
  "calm (join_room_via_token t room)" "calm (create_email_space u)" "calm (resolve_ghost em)"
  "calm (sync_read_state u em)" "calm (resolve_backfill_cutoff u)" "calm (first_page u c)" "calm (fetch_emails c ids)"
  unfolding join_room_via_token_def create_email_space_def resolve_ghost_def sync_read_state_def mirror_edge_def
    mirror_read_def mirror_unread_def resolve_backfill_cutoff_def anchor_cutoff_def first_page_def fetch_emails_def
  by (intro calm_rules)+

lemma process_reply_calm [calm_rules]: "calm (process_reply u c em g b room)"
  unfolding process_reply_def by (auto intro!: calm_rules split: prod.split option.split)

lemma poll_lockless [frame_rules]:
  "within (evolves lockless) (resolve_ghost em)" "within (evolves lockless) (resolve_backfill_cutoff u)"
  "within (evolves lockless) (first_page u c)" "within (evolves lockless) (process_reply u c em g b room)"
  unfolding resolve_ghost_def resolve_backfill_cutoff_def anchor_cutoff_def first_page_def process_reply_def Let_def
  by (intro frame_rules; simp)+

text \<open>The leaves of a settling action: calm, and never near a lock.\<close>

lemma settles_leaves:
  "settles E H (get_email_space_room u)" "settles E H (set_email_space_room u s)" "settles E H (create_email_space u)"
  "settles E H (add_room_to_space s room)" "settles E H (ensure_user_exists lp)" "settles E H (set_display_name u n)"
  "settles E H (create_room_for_contact n a u)" "settles E H (save_room_ghost_mapping room a u)"
  "settles E H (join_room_as room u)" "settles E H (get_matrix_puppet_token u)" "settles E H (join_room_via_token t room)"
  "settles E H (set_room_name room n)" "settles E H (set_room_topic room n)" "settles E H (get_user_email u)"
  "settles E H (send_message_as room b h ro l u ts)" "settles E H (save_thread_mapping_atomic th e room n)"
  "settles E H (save_message_mapping i e)" "settles E H (handle_attachments c u em room ro l s ts)"
  "settles E H (get_thread_info th)" "settles E H (has_message_mapped i)" "settles E H (need ctx v)"
  "settles E H (sync_read_state u em)" "settles E H (resolve_ghost em)" "settles E H (process_reply u c em g eb room)"
  by (rule settles_calm, (intro calm_rules), (intro frame_rules; simp))+

lemma settles_poll_leaves:
  "settles E H (resolve_backfill_cutoff u)" "settles E H (first_page u c)"
  "settles E H (fetch_emails c ids)" "settles E H (junwrap ctx j)"
  "settles E H (delete_jmap_state u k)" "settles E H (save_jmap_state u k v)" "settles E H (get_jmap_state u k)"
  "settles E H (mark_email_destroyed i)" "settles E H (set_last_sync u v)" "settles E H (sleep n)" "settles E H now"
  "settles E H (create_room_for_mailbox nm)" "settles E H (save_room_mapping i room)"
  "settles E H (get_room_id i)" "settles E H (ensure b ctx)" "settles E H (jcall c (GMailboxes ids) f)"
  "settles E H (jcall c (QEmails ctf pos lim) g)"
  by (rule settles_calm, (intro calm_rules), (intro frame_rules; simp add: allows_jread_def))+

lemma ensure_space_settles:
  assumes "db_answers E" and "0 < e_fuel E" and "space_lock_key u \<notin> H"
  shows "settles E H (ensure_email_space u)"
proof -
  obtain n where n: "e_fuel E = Suc n" using assms(2) by (cases "e_fuel E") auto
  have "settles E (insert (space_lock_key u) H) (space_under_lock u)"
    unfolding space_under_lock_def by (intro settle_rules settles_leaves)
  then have "settles E H (ensure_space_loop (Suc n) u)"
    unfolding ensure_space_loop.simps
    by (intro settles_bind settles_leaves settles_branches settles_ret settles_under_lock [OF assms(1,3)])
  then show ?thesis unfolding ensure_email_space_def by (intro settles_asks) (simp add: n)
qed

lemma create_contact_room_settles:
  assumes "db_answers E" and "0 < e_fuel E" and "space_lock_key u \<notin> H"
  shows "settles E H (create_contact_room u a d)"
  unfolding create_contact_room_def ensure_room_in_email_space_def
  by (intro settle_rules settles_leaves ensure_space_settles [OF assms])

lemma lock_keys_differ [simp]: "space_lock_key u \<noteq> thread_lock_key t"
  by (simp add: space_lock_key_def thread_lock_key_def)

lemma open_thread_room_settles:
  assumes "db_answers E" and "0 < e_fuel E" and "space_lock_key u \<notin> H"
  shows "settles E H (open_thread_room u c em g b th i)"
  unfolding open_thread_room_def Let_def
  by (intro settle_rules settles_leaves create_contact_room_settles [OF assms])

lemma process_new_thread_settles:
  assumes "db_answers E" and "0 < e_fuel E"
  shows "settles E {} (process_new_thread u c em g b)"
proof -
  obtain n where n: "e_fuel E = Suc n" using assms(2) by (cases "e_fuel E") auto
  have inner: "settles E (insert (thread_lock_key th) {}) (new_thread_locked u c em g b th i)" for th i
    unfolding new_thread_locked_def
    by (intro settle_rules settles_leaves open_thread_room_settles [OF assms]) simp
  have "settles E {} (new_thread_loop (Suc n) u c em g b th i)" for th i
    unfolding new_thread_loop.simps
    by (intro settles_bind settles_leaves settles_branches settles_under_lock [OF assms(1)] inner) simp
  then show ?thesis
    unfolding process_new_thread_def by (intro settles_asks settle_rules) (simp add: n)
qed

lemma process_email_settles:
  assumes "db_answers E" and "0 < e_fuel E"
  shows "settles E {} (process_email u c em)"
  unfolding process_email_def bridge_inbound_def
  by (intro settle_rules settles_leaves process_new_thread_settles [OF assms])

lemma process_ids_settles:
  assumes "db_answers E" and "0 < e_fuel E"
  shows "settles E {} (process_ids u c ids)"
  unfolding process_ids_def
  by (intro settle_rules settles_leaves settles_poll_leaves process_email_settles [OF assms])


section \<open>The two walks over changes\<close>

text \<open>
  How many rounds are enough depends on how long the trace of requests already is, and every round
  makes it longer; so the loops are followed from one world.
\<close>

definition ends_from :: "env \<Rightarrow> world \<Rightarrow> 'a act \<Rightarrow> bool" where
  "ends_from E w m \<longleftrightarrow> comes_back (fst (m E w)) \<and> held_locks (snd (m E w)) = held_locks w"

lemma ends_from_settles: "settles E (held_locks w) m \<Longrightarrow> ends_from E w m"
  by (simp add: settles_def ends_from_def)

lemma ends_from_bind:
  assumes "ends_from E w m"
    and "\<And>x w1. m E w = (Ok x, w1) \<Longrightarrow> held_locks w1 = held_locks w \<Longrightarrow> ends_from E w1 (f x)"
  shows "ends_from E w (bind m f)"
  using assms by (cases "m E w"; cases "fst (m E w)") (auto simp: ends_from_def bind_def)

lemma ends_from_andthen:
  "ends_from E w m \<Longrightarrow> (\<And>w1. m E w = (Ok (), w1) \<Longrightarrow> held_locks w1 = held_locks w \<Longrightarrow> ends_from E w1 n) \<Longrightarrow>
   ends_from E w (andthen m n)"
  unfolding andthen_def by (rule ends_from_bind) auto

lemma ends_from_asks [simp]: "ends_from E w (asks f)"
  by (simp add: ends_from_def asks_def)

lemma ends_from_junwrap: "(\<And>v. a = JGot v \<Longrightarrow> ends_from E w (f v)) \<Longrightarrow> ends_from E w (bind (junwrap x a) f)"
  by (cases a) (auto simp: ends_from_def junwrap_def bind_def ret_def fail_def)

lemma trace_grows:
  assumes "within (evolves K) m" and "m E w = (r, w')"
  shows "length (w_trace w) \<le> length (w_trace w')"
  using evolves_trace [OF withinD [OF assms]] by auto

lemma walk_grows:
  "within (evolves (\<lambda>_. True)) (for_each ids (\<lambda>i. ignore (mark_email_destroyed i)))"
  "within (evolves (\<lambda>_. True)) (process_ids u c ids)"
  "within (evolves (\<lambda>_. True)) (mailbox_loop n u c st acc)"
  "within (evolves (\<lambda>_. True)) (contextual x (sync_mailboxes u c))"
  by (intro frame_rules mailbox_loop_evolves; simp add: allows_email_def allows_sync_def allows_rooms_def allows_attach_def
      allows_ghost_def allows_jread_def)+

lemma destroyed_settles: "settles E H (for_each ids (\<lambda>i. ignore (mark_email_destroyed i)))"
  by (intro settle_rules settles_poll_leaves)

lemma sync_loop_full:
  assumes "db_answers E" and "0 < e_fuel E" and "0 < n" and "held_locks w = {}"
  shows "ends_from E w (sync_loop n u c None)"
proof (rule ends_from_settles)
  show "settles E (held_locks w) (sync_loop n u c None)"
    using assms by (cases n) (auto intro!: settle_rules settles_poll_leaves process_ids_settles)
qed

lemma sync_loop_ends:
  assumes E: "db_answers E" "0 < e_fuel E" and last: "last_page E k"
    and "k \<le> length (w_trace w) + r" and "r + 2 \<le> n" and "held_locks w = {}"
  shows "ends_from E w (sync_loop n u c st)"
  using assms(4-6)
proof (induction n arbitrary: st w r)
  case (Suc n)
  show ?case
  proof (cases st)
    case None
    then show ?thesis using sync_loop_full [OF E, of "Suc n" w] Suc.prems by simp
  next
    case (Some s)
    define w1 where "w1 = tick E (emit (EvJmap c (EmailChanges s)) w)"
    define a where "a = e_changes (e_jmap E) (w_trace w1)"
    have w1: "held_locks w1 = {}" "length (w_trace w1) = Suc (length (w_trace w))"
      using Suc.prems(3) by (simp_all add: w1_def held_locks_def)
    have call: "jcall c (EmailChanges s) e_changes E w = (Ok a, w1)"
      by (simp add: jcall_def call_def w1_def a_def)
    have full: "ends_from E w1 (andthen (delete_jmap_state u ''changes'') (sync_loop n u c None))"
      using Suc.prems(2) w1 by (intro ends_from_andthen sync_loop_full [OF E] ends_from_settles settles_poll_leaves) auto
    have page: "ends_from E w1 (andthen (for_each (ch_destroyed ch) (\<lambda>i. ignore (mark_email_destroyed i)))
        (andthen (process_ids u c (ch_created ch @ ch_updated ch))
        (if ch_more ch then sync_loop n u c (Some (ch_new_state ch)) else ret (ch_new_state ch))))"
      if ch: "a = JGot ch" for ch
    proof (intro ends_from_andthen)
      show "ends_from E w1 (for_each (ch_destroyed ch) (\<lambda>i. ignore (mark_email_destroyed i)))"
        by (intro ends_from_settles destroyed_settles)
      fix w2 w3
      assume w2: "for_each (ch_destroyed ch) (\<lambda>i. ignore (mark_email_destroyed i)) E w1 = (Ok (), w2)" "held_locks w2 = held_locks w1"
      show "ends_from E w2 (process_ids u c (ch_created ch @ ch_updated ch))"
        using process_ids_settles [OF E] w1 w2(2) by (intro ends_from_settles) simp
      assume w3: "process_ids u c (ch_created ch @ ch_updated ch) E w2 = (Ok (), w3)" "held_locks w3 = held_locks w2"
      have "length (w_trace w1) \<le> length (w_trace w2)" using walk_grows(1) w2(1) by (rule trace_grows)
      moreover have "length (w_trace w2) \<le> length (w_trace w3)" using walk_grows(2) w3(1) by (rule trace_grows)
      ultimately have len: "Suc (length (w_trace w)) \<le> length (w_trace w3)" using w1(2) by simp
      have "0 < r" if "ch_more ch"
        using last_pageD [OF last, of "w_trace w1" ch] ch that Suc.prems(1) w1(2) by (cases r) (auto simp: a_def)
      then show "ends_from E w3 (if ch_more ch then sync_loop n u c (Some (ch_new_state ch)) else ret (ch_new_state ch))"
        using Suc.prems len w1(1) w2(2) w3(2) Suc.IH [of w3 "r - 1" "Some (ch_new_state ch)"]
        by (auto intro: ends_from_settles settles_ret)
    qed
    have "ends_from E w1 (if cannot_calculate a then andthen (delete_jmap_state u ''changes'') (sync_loop n u c None)
       else bind (junwrap ''Empty response for Email/changes'' a) (\<lambda>ch.
         andthen (for_each (ch_destroyed ch) (\<lambda>i. ignore (mark_email_destroyed i)))
         (andthen (process_ids u c (ch_created ch @ ch_updated ch))
         (if ch_more ch then sync_loop n u c (Some (ch_new_state ch)) else ret (ch_new_state ch)))))"
      using full page by (auto intro: ends_from_junwrap)
    then show ?thesis
      using w1(1) Suc.prems(3) by (simp add: Some ends_from_def bind_def call)
  qed
qed simp


lemma mailbox_loop_lockless: "within (evolves lockless) (mailbox_loop n u c st acc)"
proof (induction n arbitrary: st acc)
  case (Suc n)
  show ?case unfolding mailbox_loop.simps all_mailboxes_def Let_def
    by (intro frame_rules Suc.IH; simp add: allows_jread_def)
qed (auto intro: frame_rules)

lemma fetch_and_map_settles:
  assumes "db_answers E" and "0 < e_fuel E"
  shows "settles E {} (fetch_and_map_mailboxes u c ids)"
  unfolding fetch_and_map_mailboxes_def map_mailbox_def ensure_room_in_email_space_def
  by (intro settle_rules settles_leaves settles_poll_leaves ensure_space_settles [OF assms]) simp

section \<open>The poll\<close>

lemma sync_mailboxes_ends:
  assumes E: "db_answers E" "last_page E k" and "k \<le> length (w_trace w) + r" and "r + 2 \<le> e_fuel E"
    and "held_locks w = {}"
  shows "ends_from E w (sync_mailboxes u c)"
  unfolding sync_mailboxes_def
proof (intro ends_from_bind)
  fix st w1 n w2
  assume w1: "get_jmap_state u ''mailbox'' E w = (Ok st, w1)" "held_locks w1 = held_locks w"
    and n: "asks e_fuel E w1 = (Ok n, w2)"
  have "length (w_trace w) \<le> length (w_trace w1)"
    using w1(1) by (auto simp: get_kv split: option.splits)
  moreover have n: "n = e_fuel E" "w2 = w1" using n by (simp_all add: asks_def)
  ultimately have "comes_back (fst (mailbox_loop n u c st [] E w2))"
    using assms(3,4) by (intro mailbox_loop_comes_back [OF E(2), of _ r]) auto
  moreover have "held_locks (snd (mailbox_loop n u c st [] E w2)) = held_locks w2"
    using lockless_held mailbox_loop_lockless by (simp add: within_def)
  ultimately show "ends_from E w2 (mailbox_loop n u c st [])" by (simp add: ends_from_def)
  fix p w3
  assume "held_locks w3 = held_locks w2"
  then have "held_locks w3 = {}" using w1(2) n assms(5) by simp
  then show "ends_from E w3 (case p of (ids, fin) \<Rightarrow>
      andthen (if ids = [] then ret () else fetch_and_map_mailboxes u c ids) (save_jmap_state u ''mailbox'' fin))"
    using fetch_and_map_settles E assms(4)
    by (intro ends_from_settles settle_rules settles_poll_leaves) auto
qed (auto intro: ends_from_settles settles_poll_leaves)

lemma sync_emails_ends:
  assumes E: "db_answers E" "last_page E k" and "k \<le> length (w_trace w) + r" and "r + 2 \<le> e_fuel E"
    and "held_locks w = {}"
  shows "ends_from E w (sync_emails u c)"
  unfolding sync_emails_def
proof (intro ends_from_bind)
  fix st w1 n w2
  assume w1: "get_jmap_state u ''changes'' E w = (Ok st, w1)" "held_locks w1 = held_locks w"
    and n: "asks e_fuel E w1 = (Ok n, w2)"
  have "length (w_trace w) \<le> length (w_trace w1)"
    using w1(1) by (auto simp: get_kv split: option.splits)
  moreover have n: "n = e_fuel E" "w2 = w1" using n by (simp_all add: asks_def)
  ultimately show "ends_from E w2 (sync_loop n u c st)"
    using assms(3-5) w1(2) by (intro sync_loop_ends [OF E(1) _ E(2), of _ r]) auto
qed (auto intro: ends_from_settles settles_poll_leaves)

lemma ends_from_contextual: "ends_from E w m \<Longrightarrow> ends_from E w (contextual x m)"
  by (cases "m E w"; cases "fst (m E w)")
    (auto simp: ends_from_def contextual_def bind_def attempt_def ret_def fail_def)

lemma poll_ends_from:
  assumes E: "db_answers E" "last_page E k" and len: "k \<le> length (w_trace w) + r" and n: "r + 2 \<le> e_fuel E"
    and h: "held_locks w = {}"
  shows "ends_from E w (poll u c)"
  unfolding poll_def
proof (intro ends_from_bind ends_from_andthen)
  fix b w1 w2
  assume b: "asks (c_bridge_mailboxes \<circ> e_cfg) E w = (Ok b, w1)"
  then have w1: "w1 = w" by (simp add: asks_def)
  show "ends_from E w1 (if b then contextual ''Mailbox sync failed'' (sync_mailboxes u c) else ret ())"
    using sync_mailboxes_ends [OF E len n h] w1 by (auto intro: ends_from_contextual ends_from_settles settles_ret)
  assume w2: "(if b then contextual ''Mailbox sync failed'' (sync_mailboxes u c) else ret ()) E w1 = (Ok (), w2)"
    "held_locks w2 = held_locks w1"
  have "length (w_trace w1) \<le> length (w_trace w2)"
    using trace_grows [OF walk_grows(4)] w2(1) by (cases b) (auto simp: ret_def)
  then show "ends_from E w2 (contextual ''Email sync failed'' (sync_emails u c))"
    using len n h w1 w2(2) by (intro ends_from_contextual sync_emails_ends [OF E, of _ r]) auto
  fix w3
  show "ends_from E w3 now" by (intro ends_from_settles settles_poll_leaves)
qed (auto intro: ends_from_settles settles_ignore settles_poll_leaves)


section \<open>The backfill\<close>

lemma run_backfill_settles:
  assumes "db_answers E" and "0 < e_fuel E"
  shows "settles E {} (run_backfill n u c)"
proof -
  have batch: "settles E {} (backfill_batch u c p)" for p
    unfolding backfill_batch_def
    by (intro settle_rules settles_poll_leaves process_email_settles [OF assms])
  have turn: "settles E {} (backfill_turn u c)"
    unfolding backfill_turn_def backfill_done_def Let_def
    by (intro settle_rules settles_poll_leaves batch)
  have "settles E {} (backfill_turns n u c)" for n
    by (induction n) (auto intro!: settle_rules turn)
  then show ?thesis unfolding run_backfill_def by (intro settle_rules settles_poll_leaves)
qed

text \<open>C10: as long as the database answers, no creation lock is held when it starts and the server
  stops saying that there are more changes after \<open>r\<close> further requests, a poll ends, without a panic
  and with every lock it took released again: \<open>r + 2\<close> rounds of either walk are enough, and one look
  at each lock.\<close>

theorem poll_ends:
  assumes "db_answers E" and "t_locks (w_db w) = []" and "last_page E (length (w_trace w) + r)" and "r + 2 \<le> e_fuel E"
  shows "comes_back (fst (poll u c E w)) \<and> t_locks (w_db (snd (poll u c E w))) = []"
proof -
  have h: "held_locks w = {}" using assms(2) by (simp add: held_locks_def)
  have "ends_from E w (poll u c)" by (rule poll_ends_from [OF assms(1,3) order_refl assms(4) h])
  then show ?thesis using h by (simp add: ends_from_def held_locks_def)
qed

lemma poll_ends_witness:
  "comes_back (fst (poll ''@a:x.org'' sample_client paged_env sample_world)) \<and>
   t_locks (w_db (snd (poll ''@a:x.org'' sample_client paged_env sample_world))) = []"
proof -
  have "db_answers paged_env" "t_locks (w_db sample_world) = []" "2 + 2 \<le> e_fuel paged_env"
    by (simp_all add: db_answers_def paged_env_def sample_defs empty_db_def)
  moreover have "last_page paged_env (length (w_trace sample_world) + 2)"
    by (auto simp: last_page_def paged_env_def two_pages_def sample_defs)
  ultimately show ?thesis using poll_ends [of paged_env sample_world 2] by blast
qed

end
