(* ===== verification/Unsend.thy ===== *)
theory Unsend
  imports Delivery
begin

text \<open>
  Unsending a message while the outbound worker runs. \<open>Delivery\<close> lets the worker finish a round
  before anything else happens; in the program its task reads a batch of messages and submits them
  one by one, and the endpoints and polls run in between. Here the batch is part of the state and
  every submission is a move of its own, so redactions, edits and new mail fall anywhere between them.
\<close>

section \<open>A worker that shares its world\<close>

definition worker_read :: "outbound_message list act" where
  "worker_read = andthen (sleep 2) (bind (attempt get_pending_outbound) (\<lambda>r. ret (case r of
     Inr messages \<Rightarrow> messages | Inl _ \<Rightarrow> [])))"

text \<open>What the worker still has to submit of its batch, and what it has been through.\<close>

record station =
  st_world :: world
  st_batch :: "outbound_message list"
  st_handled :: "outbound_message list"

datatype move = Other duty | Read | Submit_next

fun make :: "env \<Rightarrow> move \<Rightarrow> station \<Rightarrow> station" where
  "make E (Other d) s = (if d = Work then s else s\<lparr>st_world := snd (perform d E (st_world s))\<rparr>)"
| "make E Read s = (if st_batch s \<noteq> [] then s else case worker_read E (st_world s) of
     (Ok ms, w) \<Rightarrow> s\<lparr>st_world := w, st_batch := ms\<rparr>
   | (_, w) \<Rightarrow> s\<lparr>st_world := w\<rparr>)"
| "make E Submit_next s = (case st_batch s of
     [] \<Rightarrow> s
   | m # ms \<Rightarrow> s\<lparr>st_world := snd (handle_message m E (st_world s)), st_batch := ms, st_handled := m # st_handled s\<rparr>)"

fun course :: "env \<Rightarrow> move list \<Rightarrow> station \<Rightarrow> station" where
  "course E [] s = s"
| "course E (m # ms) s = course E ms (make E m s)"

lemma course_append: "course E (ms @ ms') s = course E ms' (course E ms s)"
  by (induction ms arbitrary: s) simp_all

section \<open>An undisturbed round\<close>

lemma retry_round_reads: "retry_round = bind worker_read (\<lambda>ms. for_each ms handle_message)"
  unfolding retry_round_def worker_read_def andthen_def bind_assoc
  by (intro arg_cong2 [where f = bind] refl ext) (auto simp: bind_def ret_def split: prod.split outcome.split sum.split)

lemma worker_read_Ok: "\<exists>ms w'. worker_read E w = (Ok ms, w')"
proof -
  have "total worker_read"
    unfolding worker_read_def by (intro total_rules total_attempt calm_rules)
  then show ?thesis by (simp add: total_def)
qed

lemma handle_message_total: "total (handle_message m)"
  unfolding handle_message_def by (intro total_rules submit_one_total handle_unresolved_total)

lemma submit_all:
  "length (st_batch s) \<le> n \<Longrightarrow>
   st_world (course E (replicate n Submit_next) s) = snd (for_each (st_batch s) handle_message E (st_world s))"
proof (induction n arbitrary: s)
  case (Suc n)
  show ?case
  proof (cases "st_batch s")
    case Nil
    then show ?thesis using Suc.IH [of s] by (simp add: ret_def)
  next
    case (Cons m ms)
    obtain w1 where h: "handle_message m E (st_world s) = (Ok (), w1)"
      using handle_message_total [of m] by (auto simp: total_def)
    then show ?thesis using Suc.prems Suc.IH [of "s\<lparr>st_world := w1, st_batch := ms, st_handled := m # st_handled s\<rparr>"]
      by (simp add: Cons andthen_def bind_def)
  qed
qed (simp add: ret_def)

text \<open>Without moves of others in between, reading and submitting is a round of \<open>retry_round\<close>.\<close>

lemma course_is_round:
  assumes "st_batch s = []" and "10 \<le> n"
  shows "st_world (course E (Read # replicate n Submit_next) s) = snd (retry_round E (st_world s))"
proof -
  obtain ms w1 where r: "worker_read E (st_world s) = (Ok ms, w1)" using worker_read_Ok by blast
  have "length ms \<le> 10"
    using r by (auto simp: worker_read_def pending_eq pick_length andthen_def bind_def attempt_def ret_def sleep_def
        split: option.splits)
  then show ?thesis
    using submit_all [of "s\<lparr>st_world := w1, st_batch := ms\<rparr>" n E] assms r
    by (simp add: retry_round_reads bind_def)
qed

section \<open>What has been read was released\<close>

text \<open>
  \<open>released i w\<close>: the row \<open>i\<close>, if it is still queued, is past its hold; \<open>gone i w\<close>: it left the
  queue. Row ids are never given out twice, so neither is undone by anything the bridge does.
\<close>

definition released :: "nat \<Rightarrow> world \<Rightarrow> bool" where
  "released i w \<longleftrightarrow> i < t_next_id (w_db w) \<and>
     (\<forall>r \<in> set (t_outbound (w_db w)). om_id r = i \<longrightarrow> release_at r \<le> w_clock w)"

definition gone :: "nat \<Rightarrow> world \<Rightarrow> bool" where
  "gone i w \<longleftrightarrow> i < t_next_id (w_db w) \<and> (\<forall>r \<in> set (t_outbound (w_db w)). om_id r \<noteq> i)"

lemma old_rows:
  assumes "world_step l w w'" and "r \<in> set (t_outbound (w_db w'))"
  shows "(\<exists>r' \<in> set (t_outbound (w_db w)). om_id r = om_id r' \<and> release_at r = release_at r') \<or>
    om_id r = t_next_id (w_db w)"
proof (cases "ages l")
  case False
  then show ?thesis using world_step_queue_rows [OF assms(1) False assms(2)] by auto
next
  case True
  then obtain i where "l = LDb (AgeRow i)" by (auto simp: ages_def)
  with assms(1) obtain n d where d: "exec (w_clock w) (AgeRow i) (w_db w) = Inr (n, d)" "w' = w\<lparr>w_db := d\<rparr>"
    by (auto elim: world_step_dbE)
  then show ?thesis using aged_rows [OF _ d(1), of r] assms(2) by (force split: if_splits)
qed

lemma evolves_released: "evolves K w w' \<Longrightarrow> released i w \<Longrightarrow> released i w'"
proof (erule evolves_invariant [where I = "released i"])
  fix l w1 w2
  assume st: "world_step l w1 w2" and r: "released i w1"
  have "release_at r \<le> w_clock w2" if "r \<in> set (t_outbound (w_db w2))" "om_id r = i" for r
    using old_rows [OF st that(1)] that(2) r world_step_clock [OF st] by (force simp: released_def)
  then show "released i w2"
    using r world_step_next_id [OF st] by (auto simp: released_def)
qed

lemma evolves_gone: "evolves K w w' \<Longrightarrow> gone i w \<Longrightarrow> gone i w'"
proof (erule evolves_invariant [where I = "gone i"])
  fix l w1 w2
  assume st: "world_step l w1 w2" and g: "gone i w1"
  have "om_id r \<noteq> i" if "r \<in> set (t_outbound (w_db w2))" for r
    using old_rows [OF st that] g by (auto simp: gone_def)
  then show "gone i w2" using g world_step_next_id [OF st] by (auto simp: gone_def)
qed

lemma perform_evolves: "evolves (\<lambda>_. True) w (snd (perform d E w))"
proof (rule evolves_mono)
  show "evolves (queues_for UNIV) w (snd (perform d E w))"
    using perform_queues_for [of d UNIV] by (simp add: within_def)
qed simp

lemma handle_evolves: "evolves (\<lambda>_. True) w (snd (handle_message m E w))"
  by (rule evolves_mono [OF handle_message_sends]) simp

lemma read_evolves: "evolves (\<lambda>_. True) w (snd (worker_read E w))"
proof -
  have "within (evolves (\<lambda>_. True)) worker_read" unfolding worker_read_def by (intro frame_rules)
  then show ?thesis by (simp add: within_def)
qed

text \<open>What a read returns: rows of the queue past their hold.\<close>

lemma read_released:
  assumes "worker_read E w = (Ok ms, w')" and "db_ok (w_db w)" and "m \<in> set ms"
  shows "released (om_id m) w' \<and> \<not> gone (om_id m) w"
proof -
  obtain w1 where s: "sleep 2 E w = (Ok (), w1)" "w_db w1 = w_db w" by (simp add: sleep_def)
  then have "get_pending_outbound E w1 = (Ok ms, w')"
    using assms(1,3) by (auto simp: worker_read_def andthen_def bind_def attempt_def ret_def
        split: prod.splits outcome.splits sum.splits)
  then obtain rank where ms: "w_db w' = w_db w1"
      "ms = map outbound_message.truncate (pick rank (w_clock w') (w_db w1))"
    using pending_Ok by (metis tick_simps(1))
  obtain r0 where r0: "r0 \<in> set (t_outbound (w_db w))" "eligible (w_clock w') r0" "m = outbound_message.truncate r0"
    using assms(3) ms(2) s(2) by (auto dest!: picked)
  have id: "om_id m = om_id r0" using r0(3) by (simp add: outbound_message.defs)
  have "r = r0" if "r \<in> set (t_outbound (w_db w))" "om_id r = om_id r0" for r
    using assms(2) that r0(1) by (auto simp: db_ok_def keys_ok_def unique_key_def distinct_map dest: inj_onD)
  moreover have "om_id r0 < t_next_id (w_db w)"
    using assms(2) r0(1) by (simp add: db_ok_def ids_ok_def)
  ultimately show ?thesis
    using r0 ms(1) s(2) id by (auto simp: released_def gone_def eligible_def)
qed

section \<open>The course of the bridge\<close>

definition seen :: "station \<Rightarrow> nat set" where
  "seen s = om_id ` (set (st_batch s) \<union> set (st_handled s))"

definition orderly :: "station \<Rightarrow> bool" where
  "orderly s \<longleftrightarrow> db_ok (w_db (st_world s)) \<and> (\<forall>i \<in> seen s. released i (st_world s))"

lemma make_world: "evolves (\<lambda>_. True) (st_world s) (st_world (make E m s))"
  using perform_evolves handle_evolves read_evolves [of "st_world s" E]
  by (cases m) (auto intro: evolves_refl split: list.split prod.split outcome.split)

lemma make_seen: "seen (make E m s) \<subseteq> seen s \<union> {i. m = Read \<and> released i (st_world (make E m s)) \<and> \<not> gone i (st_world s)}"
  if "db_ok (w_db (st_world s))"
  using read_released [of E "st_world s"] that
  by (cases m) (auto simp: seen_def split: list.splits prod.splits outcome.splits)

lemma make_orderly: "orderly s \<Longrightarrow> orderly (make E m s)"
  using make_seen [of s E m] evolves_released [OF make_world] evolves_db_ok [OF make_world]
  unfolding orderly_def by blast

lemma course_orderly: "orderly s \<Longrightarrow> orderly (course E ms s)"
  by (induction ms arbitrary: s) (simp_all add: make_orderly)

lemma course_unseen:
  "orderly s \<Longrightarrow> gone i (st_world s) \<Longrightarrow> i \<notin> seen s \<Longrightarrow> i \<notin> seen (course E ms s)"
proof (induction ms arbitrary: s)
  case (Cons m ms)
  have "i \<notin> seen (make E m s)" using Cons.prems make_seen [of s E m] by (auto simp: orderly_def)
  then show ?case using Cons make_orderly evolves_gone [OF make_world] by simp
qed simp


section \<open>Unsending\<close>

definition unsends :: "timeline_event \<Rightarrow> event_id \<Rightarrow> bool" where
  "unsends ev e \<longleftrightarrow> \<not> is_bridge_user (te_sender ev) \<and> (case te_kind ev of
     ERedaction r \<Rightarrow> redacted_event r = Some e | _ \<Rightarrow> False)"

lemma unsends_cancels: "unsends ev e \<Longrightarrow> process_event ev = cancel_queued (te_room ev) e"
  by (auto simp: unsends_def process_event_def Let_def split: event_kind.splits)

lemma cancel_gone:
  assumes "e_fault (e_net E) (w_step w) = None" and "row \<in> set (t_outbound (w_db w))" and "db_ok (w_db w)"
  shows "gone (om_id row) (snd (cancel_queued room (om_event row) E w))"
proof -
  obtain b w1 where c: "cancel_outbound_by_event (om_event row) E w = (Ok b, w1)"
    "w_db w1 = (w_db w)\<lparr>t_outbound := drop_rows (\<lambda>r. om_event r = om_event row) (t_outbound (w_db w))\<rparr>"
    using assms(1) by (simp add: cancel_outbound_by_event_def exec_changed_def bind_def run_def Let_def ret_def)
  have "om_id row < t_next_id (w_db w)" using assms(2,3) by (simp add: db_ok_def ids_ok_def)
  moreover have "r = row" if "r \<in> set (t_outbound (w_db w))" "om_id r = om_id row" for r
    using assms(2,3) that by (auto simp: db_ok_def keys_ok_def unique_key_def distinct_map dest: inj_onD)
  ultimately have g: "gone (om_id row) w1" using c(2) by (auto simp: gone_def set_drop_rows)
  have "within (evolves (\<lambda>_. True)) (if b then notify (Some room) unsent_msg else ret ())"
    by (intro frame_rules; simp add: allows_ghost_def)
  then have "evolves (\<lambda>_. True) w1 (snd ((if b then notify (Some room) unsent_msg else ret ()) E w1))"
    by (simp add: within_def)
  then have "gone (om_id row) (snd ((if b then notify (Some room) unsent_msg else ret ()) E w1))"
    using g by (rule evolves_gone)
  then show ?thesis using c(1) by (cases b) (simp_all add: cancel_queued_def bind_def attempt_def)
qed

text \<open>C6: however redactions, edits, new mail and polls fall between the reads and the submissions
  of the worker: a message whose redaction is handled before its send delay is over is never
  submitted, neither by the batch the worker is on nor by any later one.\<close>

theorem unsent_stays_unsent:
  assumes "db_ok (w_db (st_world s0))" and "st_batch s0 = []" and "st_handled s0 = []"
    and s: "s = course E ms s0" and row: "row \<in> set (t_outbound (w_db (st_world s)))"
    and held: "w_clock (st_world s) < release_at row"
    and ev: "unsends ev (om_event row)" and ok: "e_fault (e_net E) (w_step (st_world s)) = None"
  shows "\<forall>m \<in> set (st_handled (course E (ms @ Other (Deliver ev) # ms') s0)). om_id m \<noteq> om_id row"
proof -
  have "orderly s0" using assms(1-3) by (simp add: orderly_def seen_def)
  then have o1: "orderly s" unfolding s by (rule course_orderly)
  have unseen: "om_id row \<notin> seen s"
  proof
    assume "om_id row \<in> seen s"
    then have "released (om_id row) (st_world s)" using o1 by (simp add: orderly_def)
    then show False using row held by (auto simp: released_def)
  qed
  let ?s1 = "make E (Other (Deliver ev)) s"
  have "gone (om_id row) (st_world ?s1)"
    using cancel_gone [OF ok row] o1 by (simp add: unsends_cancels [OF ev] orderly_def)
  moreover have "om_id row \<notin> seen ?s1" using unseen by (simp add: seen_def)
  ultimately have "om_id row \<notin> seen (course E ms' ?s1)"
    by (intro course_unseen make_orderly o1)
  then have "om_id m \<noteq> om_id row" if "m \<in> set (st_handled (course E ms' ?s1))" for m
    using imageI [OF that, of om_id] by (auto simp: seen_def)
  then show ?thesis by (simp only: course_append course.simps s [symmetric]) blast
qed

text \<open>A redaction of the queued message of \<open>mail_world\<close>, here with an hour of its hold left.\<close>

definition redaction :: timeline_event where
  "redaction = \<lparr>te_sender = ''@a:x.org'', te_id = ''$e2'', te_room = ''!r:x.org'',
     te_kind = ERedaction (Some (Some ''$e'', None))\<rparr>"

definition fresh_row :: outbound_row where
  "fresh_row = sample_row\<lparr>om_retry := 0, release_at := 43600\<rparr>"

definition held_station :: station where
  "held_station = \<lparr>st_world = mail_world\<lparr>w_db := (w_db mail_world)\<lparr>t_outbound := [fresh_row]\<rparr>\<rparr>,
     st_batch = [], st_handled = []\<rparr>"

lemma held_station_read:
  "t_outbound (w_db (st_world (course mail_env [Read] held_station))) = [fresh_row]"
  "w_clock (st_world (course mail_env [Read] held_station)) < 43600"
  by code_simp+

theorem unsent_stays_unsent_witness:
  "1 \<notin> om_id ` set (st_handled (course mail_env ([Read] @ Other (Deliver redaction) # [Read, Submit_next]) held_station))"
proof -
  have "db_ok (w_db (st_world held_station))"
    by (simp add: held_station_def fresh_row_def mail_world_def sample_defs empty_db_def db_ok_def keys_ok_def fks_ok_def
        ids_ok_def unique_key_def user_exists_def)
  moreover have "unsends redaction (om_event fresh_row)"
    by (simp add: unsends_def redaction_def fresh_row_def sample_row_def is_bridge_user_def redacted_event_def starts_with_def)
  moreover have "e_fault (e_net mail_env) i = None" for i by (simp add: mail_env_def sample_defs)
  moreover have "fresh_row \<in> set (t_outbound (w_db (st_world (course mail_env [Read] held_station))))"
    "w_clock (st_world (course mail_env [Read] held_station)) < release_at fresh_row"
    unfolding held_station_read(1) using held_station_read(2) by (simp_all add: fresh_row_def)
  moreover have "om_id fresh_row = 1" by (simp add: fresh_row_def sample_row_def)
  ultimately show ?thesis
    using unsent_stays_unsent [OF _ _ _ refl, of held_station fresh_row mail_env "[Read]" redaction "[Read, Submit_next]"]
    by (auto simp: held_station_def simp del: course.simps make.simps)
qed

section \<open>A mail server that works\<close>

text \<open>It has a mailbox for every role that is asked for, and accepts what is submitted.\<close>

definition mail_accepted :: "env \<Rightarrow> bool" where
  "mail_accepted E \<longleftrightarrow> (\<forall>t. \<exists>i js. e_ids (e_jmap E) t = JGot (i # js)) \<and>
     (\<forall>t. \<exists>i. e_submit (e_jmap E) t = Inr (CCreated (Some i), CCreated ()))"

definition serves :: "env \<Rightarrow> 'a act \<Rightarrow> bool" where
  "serves E m \<longleftrightarrow> (\<forall>w. \<exists>x w'. m E w = (Ok x, w'))"

lemma total_requests:
  "total (mx_call q)" "total (asks f)"
  "(\<And>e. total (m e)) \<Longrightarrow> (\<And>st h b. total (n st h b)) \<Longrightarrow> total (case r of HttpErr e \<Rightarrow> m e | HttpResp st h b \<Rightarrow> n st h b)"
  by (simp_all add: total_def mx_call_def call_def asks_def split: http_out.split)

lemma serves_total: "total m \<Longrightarrow> serves E m"
  by (simp add: serves_def total_def)

lemma serves_bind: "serves E m \<Longrightarrow> (\<And>x. serves E (f x)) \<Longrightarrow> serves E (bind m f)"
  unfolding serves_def bind_def by (metis (no_types, lifting) outcome.case(1) prod.case)

lemma serves_calls: "serves E (asks f)" "serves E (jcall c r g)" "serves E (ret x)"
  by (simp_all add: serves_def asks_def jcall_def call_def ret_def)

lemma serves_branches:
  "serves E m \<Longrightarrow> serves E n \<Longrightarrow> serves E (if b then m else n)"
  "serves E m \<Longrightarrow> (\<And>x. serves E (g x)) \<Longrightarrow> serves E (case v of None \<Rightarrow> m | Some x \<Rightarrow> g x)"
  "(\<And>x y. serves E (k x y)) \<Longrightarrow> serves E (case p of (x, y) \<Rightarrow> k x y)"
  "(\<And>x. serves E (g1 x)) \<Longrightarrow> (\<And>x. serves E (g2 x)) \<Longrightarrow> serves E (case r of Inl x \<Rightarrow> g1 x | Inr x \<Rightarrow> g2 x)"
  "serves E n \<Longrightarrow> serves E m \<Longrightarrow> serves E (case j of JSendErr e \<Rightarrow> n | _ \<Rightarrow> m)"
  by (auto split: option.split prod.split sum.split jres.split)

lemmas serves_rules = serves_calls serves_bind serves_branches

lemma serves_filing:
  assumes "mail_accepted E"
  shows "serves E (filing_mailbox c)"
  unfolding serves_def
proof
  fix w :: world
  obtain i js where "e_ids (e_jmap E) (EvJmap c (QMailboxRole RoleSent) # w_trace w) = JGot (i # js)"
    using assms unfolding mail_accepted_def by metis
  then show "\<exists>x w'. filing_mailbox c E w = (Ok x, w')"
    by (simp add: filing_mailbox_def mailbox_id_for_role_def jcall_def call_def junwrap_def bind_def ret_def)
qed

lemma serves_submit:
  assumes "mail_accepted E"
  shows "serves E (submit c to subject body irt refs atts)"
proof -
  have post: "serves E (bind (jcall c (Submit d) e_submit) unpack_submission)" for d
    unfolding serves_def
  proof
    fix w :: world
    obtain i where "e_submit (e_jmap E) (EvJmap c (Submit d) # w_trace w) = Inr (CCreated (Some i), CCreated ())"
      using assms by (auto simp: mail_accepted_def)
    then show "\<exists>x w'. bind (jcall c (Submit d) e_submit) unpack_submission E w = (Ok x, w')"
      by (simp add: jcall_def call_def bind_def unpack_submission_def need_def ret_def)
  qed
  show ?thesis
    unfolding submit_def primary_identity_def by (intro serves_rules serves_filing [OF assms] post)
qed

lemma serves_submit_to:
  assumes "mail_accepted E"
  shows "serves E (submit_to c m to)"
proof -
  have "total (attempt (get_thread_subject r))" "total (room_name r)" "total (attempt (try_resolve_thread c i))"
    "total (ignore (save_thread_mapping_atomic th e r subj))" for r i th e subj
    unfolding room_name_def by (intro total_rules total_requests calm_rules)+
  note leaves = this [THEN serves_total] serves_submit [OF assms]
  show ?thesis
    unfolding submit_to_def submit_reply_def submit_fresh_def send_email_def reply_to_email_def reply_headers_def
      reply_quote_def thread_email_ids_def queued_attachments_def Let_def
    by (intro serves_rules leaves)
qed

lemma submit_one_accepted:
  assumes "mail_accepted E" and "e_fault (e_net E) (w_step w) = None"
    and "client_of (om_user m) w = Some c" and "ghost_of (om_room m) (w_db w) = Some g"
  shows "\<exists>w'. submit_one m E w = (Ok True, w') \<and> accepted (gr_email g) (om_body m) E w w'"
proof -
  obtain x w1 where w1: "submit_to c m (gr_email g) E (tick E w) = (Ok x, w1)"
    using serves_submit_to [OF assms(1)] unfolding serves_def by blast
  obtain w2 where w2: "ignore (remove_from_outbound_queue (om_id m)) E w1 = (Ok (), w2)"
    using total_ignore [of "remove_from_outbound_queue (om_id m)"] calm_rules unfolding total_def by (metis old.unit.exhaust)
  obtain w' where w3: "mark_submitted (om_user m) (om_room m) (om_event m) E w2 = (Ok (), w')"
    using mark_total(1) unfolding total_def by (metis old.unit.exhaust)
  have sent: "submit_mapped c m (gr_email g) E (tick E w) = (Ok True, w')"
    using w1 w2 w3 by (simp add: submit_mapped_def andthen_def bind_def attempt_def ret_def)
  have "submit_one m E w = submit_mapped c m (gr_email g) E (tick E w)"
    using assms(2-4) by (simp add: submit_one_def get_client_def gets_def bind_def attempt_def get_ghost_email_by_room_def query_def)
  moreover have "accepted (gr_email g) (om_body m) E w w'"
    using submit_mapped_True [OF sent] by (simp add: accepted_def)
  ultimately show ?thesis using sent by simp
qed

section \<open>Unsending too late\<close>

text \<open>What a redaction does besides its notice: sessions and rooms stay as they are.\<close>

definition notice_label :: "label \<Rightarrow> bool" where
  "notice_label l \<longleftrightarrow> (\<exists>e. l = LEv e)"

lemma notice_frame:
  assumes "evolves notice_label w w'"
  shows "w_clients w' = w_clients w \<and> w_db w' = w_db w"
  using assms
proof (rule evolves_invariant [where I = "\<lambda>w'. w_clients w' = w_clients w \<and> w_db w' = w_db w"])
  fix l w1 w2
  assume "world_step l w1 w2" "l = LTick \<or> notice_label l" "w_clients w1 = w_clients w \<and> w_db w1 = w_db w"
  then show "w_clients w2 = w_clients w \<and> w_db w2 = w_db w"
    by (cases rule: world_step.cases) (auto simp: notice_label_def emit_def)
qed simp

lemma late_cancel:
  assumes "e_fault (e_net E) (w_step w) = None" and "row \<in> set (t_outbound (w_db w))"
    and w': "w' = snd (cancel_queued room (om_event row) E w)"
  shows "w_clients w' = w_clients w \<and>
    w_db w' = (w_db w)\<lparr>t_outbound := drop_rows (\<lambda>r. om_event r = om_event row) (t_outbound (w_db w))\<rparr> \<and>
    notified room unsent_msg E w w'"
proof -
  obtain w1 where c: "cancel_outbound_by_event (om_event row) E w = (Ok True, w1)" "w_trace w1 = w_trace w"
    "w_clients w1 = w_clients w"
    "w_db w1 = (w_db w)\<lparr>t_outbound := drop_rows (\<lambda>r. om_event r = om_event row) (t_outbound (w_db w))\<rparr>"
    using assms(1,2) by (auto simp: cancel_outbound_by_event_def exec_changed_def bind_def run_def Let_def ret_def filter_empty_conv)
  have "w' = snd (notify (Some room) unsent_msg E w1)"
    using w' c(1) by (simp add: cancel_queued_def bind_def attempt_def)
  then have n: "w' = snd (send_message room unsent_msg E w1)"
    by (auto simp: notify_def ignore_def bind_def attempt_def ret_def split: prod.split outcome.split)
  have "within (evolves notice_label) (send_message room unsent_msg)"
    by (intro frame_rules) (simp add: allows_ghost_def notice_label_def)
  then have "evolves notice_label w1 w'" using n by (simp add: within_def)
  then have "w_clients w' = w_clients w1" "w_db w' = w_db w1" using notice_frame by blast+
  moreover have "notified room unsent_msg E w w'"
    using send_message_notifies [of room unsent_msg E w1] n c(2) by (simp add: notified_def)
  ultimately show ?thesis using c(3,4) by simp
qed

text \<open>C32: a redaction handled after the worker has read the message into its batch is too late, and
  its author is not told so: the row is deleted and the message reported in the room as unsent, and
  the worker, if it has the author's session, the room has a contact and the mail server accepts
  mail, still submits the text of its copy to that contact.\<close>

theorem late_unsend_is_mailed:
  assumes "st_batch s = m # ms" and "unsends ev (om_event m)"
    and "\<exists>row \<in> set (t_outbound (w_db (st_world s))). om_event row = om_event m"
    and "mail_accepted E" and "no_faults E"
    and "client_of (om_user m) (st_world s) = Some c"
    and "ghost_of (om_room m) (w_db (st_world s)) = Some g"
    and s1: "s1 = make E (Other (Deliver ev)) s"
  shows "om_event m \<notin> om_event ` set (t_outbound (w_db (st_world s1))) \<and>
    notified (te_room ev) unsent_msg E (st_world s) (st_world s1) \<and>
    accepted (gr_email g) (om_body m) E (st_world s1) (st_world (make E Submit_next s1))"
proof -
  obtain row where row: "row \<in> set (t_outbound (w_db (st_world s)))" "om_event row = om_event m"
    using assms(3) by blast
  have w1: "st_world s1 = snd (cancel_queued (te_room ev) (om_event row) E (st_world s))" "st_batch s1 = m # ms"
    using assms(1) row(2) s1 by (simp_all add: unsends_cancels [OF assms(2)])
  have gone: "w_clients (st_world s1) = w_clients (st_world s)" "w_db (st_world s1) = (w_db (st_world s))\<lparr>t_outbound :=
      drop_rows (\<lambda>r. om_event r = om_event row) (t_outbound (w_db (st_world s)))\<rparr>"
    "notified (te_room ev) unsent_msg E (st_world s) (st_world s1)"
    using late_cancel [OF _ row(1) w1(1)] assms(5) by simp_all
  obtain w' where "submit_one m E (st_world s1) = (Ok True, w')" "accepted (gr_email g) (om_body m) E (st_world s1) w'"
    using submit_one_accepted [OF assms(4), of "st_world s1" m c g] assms(5-7) gone(1,2)
    by (auto simp: client_of_def ghost_of_def)
  then have "accepted (gr_email g) (om_body m) E (st_world s1) (st_world (make E Submit_next s1))"
    using w1(2) by (simp add: handle_message_def bind_def ret_def)
  then show ?thesis using gone row(2) by (auto simp: set_drop_rows)
qed

text \<open>The queued message of \<open>mail_world\<close> is due; it is read, redacted and submitted.\<close>

definition late_station :: station where
  "late_station = \<lparr>st_world = mail_world, st_batch = [], st_handled = []\<rparr>"

lemma late_read:
  "st_batch (make mail_env Read late_station) = [outbound_message.truncate sample_row]"
  "t_outbound (w_db (st_world (make mail_env Read late_station))) = [sample_row]"
  "map_option gr_email (ghost_of ''!r:x.org'' (w_db (st_world (make mail_env Read late_station)))) = Some ''b@y.org''"
  "client_of ''@a:x.org'' (st_world (make mail_env Read late_station)) = Some sample_client"
  by code_simp+

theorem late_unsend_is_mailed_witness:
  "accepted ''b@y.org'' ''hello'' mail_env
     (st_world (course mail_env [Read, Other (Deliver redaction)] late_station))
     (st_world (course mail_env [Read, Other (Deliver redaction), Submit_next] late_station))"
proof -
  have m: "mail_accepted mail_env" "no_faults mail_env"
    by (simp_all add: mail_accepted_def mail_env_def sample_defs fun_eq_iff)
  have u: "unsends redaction ''$e''"
    by (simp add: unsends_def redaction_def is_bridge_user_def redacted_event_def starts_with_def)
  obtain g where g: "ghost_of ''!r:x.org'' (w_db (st_world (make mail_env Read late_station))) = Some g" "gr_email g = ''b@y.org''"
    using late_read(3) by auto
  show ?thesis
    using late_unsend_is_mailed [OF late_read(1) _ _ m _ _ refl, of redaction sample_client g] u g late_read(2,4)
    by (simp add: sample_row_def outbound_message.defs del: make.simps)
qed

end
