(* ===== verification/Backfill_End.thy ===== *)
theory Backfill_End
  imports Poll_Settles Unsend
begin

text \<open>
  When the backfill task (\<^verbatim>\<open>src/src/sync/backfill.rs\<close>) ends. Its loop has no bound of its own: it
  waits for the first poll, retries a failed batch and goes on for as long as pages are full. Against
  a mail server that answers and has finitely many emails it comes to the end of them.
\<close>

section \<open>The saved position\<close>

definition position :: "mxid \<Rightarrow> world \<Rightarrow> string option" where
  "position u w = kv_map (w_db w) (u, ''backfill_position'')"

definition spares_position :: "mxid \<Rightarrow> label \<Rightarrow> bool" where
  "spares_position u l \<longleftrightarrow> (\<forall>v. l \<noteq> LDb (PutKv u ''backfill_position'' v)) \<and> l \<noteq> LDb (DelKv u ''backfill_position'')"

lemma position_step:
  assumes st: "world_step l w1 w2" and l: "l = LTick \<or> spares_position u l"
  shows "position u w2 = position u w1"
  using st
proof (cases rule: world_step.cases)
  case (step_db q n d)
  have "kv_map d (u, ''backfill_position'') = kv_map (w_db w1) (u, ''backfill_position'')"
    using step_db l by (cases q) (auto simp: spares_position_def kv_map_def find_put_row
        find_drop_row sr_pk_def [of "state_row_ext _ _ _ _"] split: if_splits option.splits)
  then show ?thesis using step_db by (simp add: position_def)
next
  case (step_mem m)
  then show ?thesis by (cases m) (auto simp: position_def)
qed (auto simp: position_def emit_def)

lemma position_kept: "evolves (spares_position u) w w' \<Longrightarrow> position u w' = position u w"
  by (erule evolves_invariant [where I = "\<lambda>w'. position u w' = position u w"]) (simp_all add: position_step)

definition resting :: "mxid \<Rightarrow> string option \<Rightarrow> world \<Rightarrow> bool" where
  "resting u p w \<longleftrightarrow> held_locks w = {} \<and> user_exists (w_db w) u \<and> position u w = p"

lemma resting_kept:
  assumes "within (evolves (spares_position u)) m" and "settles E {} m" and "m E w = (r, w')" and "resting u p w"
  shows "resting u p w'"
proof -
  have e: "evolves (spares_position u) w w'" using assms(1,3) by (rule withinD)
  then show ?thesis
    using settlesD [OF assms(2) _ assms(3)] assms(4) position_kept [OF e] evolves_users [OF e]
    by (simp add: resting_def)
qed

lemma spares_parts:
  "within (evolves (spares_position u)) (resolve_backfill_cutoff u)"
  "within (evolves (spares_position u)) (fetch_emails c ids)"
  "within (evolves (spares_position u)) (for_each l (\<lambda>e. ignore (process_email u c e)))"
  "within (evolves (spares_position u)) (delete_jmap_state u backfill_cutoff_key)"
  by (intro frame_rules; simp add: allows_email_def allows_rooms_def allows_attach_def allows_ghost_def allows_jread_def
      spares_position_def backfill_cutoff_key_def)+

section \<open>One batch\<close>

text \<open>The server has at most \<open>n\<close> emails to list, and answers.\<close>

definition finite_history :: "env \<Rightarrow> nat \<Rightarrow> bool" where
  "finite_history E n \<longleftrightarrow> (\<forall>t. \<exists>l. e_emails (e_jmap E) t = JGot l) \<and>
     (\<forall>c cut pos lim t. \<exists>st ids. e_query (e_jmap E) (EvJmap c (QEmails cut (Some pos) lim) # t) = JGot (st, ids) \<and>
        (ids \<noteq> [] \<longrightarrow> pos + length ids \<le> n))"

lemma cutoff_serves: "serves E (resolve_backfill_cutoff u)"
proof -
  have "total (resolve_backfill_cutoff u)"
    unfolding resolve_backfill_cutoff_def anchor_cutoff_def now_def
    by (intro total_rules total_requests calm_rules)
  then show ?thesis by (rule serves_total)
qed

lemma fetch_serves:
  assumes "finite_history E n"
  shows "serves E (fetch_emails c ids)"
  unfolding serves_def
proof
  fix w :: world
  obtain l where "e_emails (e_jmap E) (EvJmap c (GEmails GetFull ids) # w_trace w) = JGot l"
    using assms unfolding finite_history_def by metis
  then show "\<exists>x w'. fetch_emails c ids E w = (Ok x, w')"
    by (simp add: fetch_emails_def jcall_def call_def junwrap_def bind_def ret_def)
qed

lemma each_ignored:
  assumes "\<And>x. settles E H (f x)" and "held_locks w = H"
  shows "\<exists>w'. for_each xs (\<lambda>x. ignore (f x)) E w = (Ok (), w')"
  using assms(2)
proof (induction xs arbitrary: w)
  case (Cons x xs)
  obtain r w1 where r: "f x E w = (r, w1)" by fastforce
  then have "comes_back r" "held_locks w1 = H" using settlesD [OF assms(1) Cons.prems r] by auto
  then have "ignore (f x) E w = (Ok (), w1)" using r by (cases r) (simp_all add: ignore_def bind_def attempt_def ret_def)
  then show ?case using Cons.IH [OF \<open>held_locks w1 = H\<close>] by (simp add: andthen_def bind_def)
qed (simp add: ret_def)

lemma position_saved:
  assumes "db_answers E" and "resting u p w"
  shows "\<exists>w'. save_jmap_state u ''backfill_position'' v E w = (Ok (), w') \<and> resting u (Some v) w'"
  using assms by (auto simp: resting_def position_def save_jmap_state_def exec_unit_def bind_def run_def Let_def ret_def
      db_answers_def held_locks_def kv_map_def find_put_row sr_pk_def [of "state_row_ext _ _ _ _"])

lemma backfill_batch_run:
  assumes E: "db_answers E" "0 < e_fuel E" "finite_history E n"
    and pos: "pos \<le> i32_max" and w: "resting u p w"
  shows "\<exists>more w'. backfill_batch u c pos E w = (Ok more, w') \<and> (if more
    then \<exists>pos'. pos' \<le> n \<and> pos + c_sync_limit (e_cfg E) \<le> pos' \<and> pos < pos' \<and> resting u (Some (show_nat pos')) w'
    else resting u p w')"
proof -
  let ?lim = "c_sync_limit (e_cfg E)"
  obtain cut w1 where c1: "resolve_backfill_cutoff u E w = (Ok cut, w1)"
    using cutoff_serves unfolding serves_def by blast
  have w1: "resting u p w1" using resting_kept [OF spares_parts(1) settles_poll_leaves(1) c1 w] .
  define w2 where "w2 = tick E (emit (EvJmap c (QEmails cut (Some pos) ?lim)) w1)"
  have w2: "resting u p w2" using w1 by (simp add: w2_def resting_def position_def held_locks_def)
  obtain st ids where q: "e_query (e_jmap E) (EvJmap c (QEmails cut (Some pos) ?lim) # w_trace w1) = JGot (st, ids)"
    and len: "ids \<noteq> [] \<Longrightarrow> pos + length ids \<le> n"
    using E(3) unfolding finite_history_def by metis
  have run: "backfill_batch u c pos E w = (if ids = [] then ret False
     else bind (fetch_emails c ids) (\<lambda>emails. andthen (for_each emails (\<lambda>e. ignore (process_email u c e)))
       (if length ids < ?lim then ret False
        else andthen (save_jmap_state u ''backfill_position'' (show_nat (pos + length ids))) (ret True)))) E w2"
    using pos by (simp add: backfill_batch_def bind_def c1 andthen_def ensure_def ret_def asks_def jcall_def call_def q
        junwrap_def w2_def)
  show ?thesis
  proof (cases "ids = []")
    case True
    then show ?thesis using run w2 by (intro exI [of _ False]) (simp add: ret_def)
  next
    case False
    obtain l w3 where f: "fetch_emails c ids E w2 = (Ok l, w3)"
      using fetch_serves [OF E(3)] unfolding serves_def by blast
    have w3: "resting u p w3" using resting_kept [OF spares_parts(2) settles_poll_leaves(3) f w2] .
    obtain w4 where g: "for_each l (\<lambda>e. ignore (process_email u c e)) E w3 = (Ok (), w4)"
      using each_ignored [of E "{}" "process_email u c" w3 l] process_email_settles [OF E(1,2)] w3 by (auto simp: resting_def)
    have w4: "resting u p w4"
      using resting_kept [OF spares_parts(3) _ g w3] process_email_settles [OF E(1,2)]
      by (simp add: settles_for_each settles_ignore)
    obtain w5 where s: "save_jmap_state u ''backfill_position'' (show_nat (pos + length ids)) E w4 = (Ok (), w5)"
      "resting u (Some (show_nat (pos + length ids))) w5" using position_saved [OF E(1) w4] by blast
    show ?thesis
    proof (cases "length ids < ?lim")
      case True
      then show ?thesis using run False f g w4 by (intro exI [of _ False]) (simp add: bind_def andthen_def ret_def)
    next
      case more: False
      then have "backfill_batch u c pos E w = (Ok True, w5)"
        using run False f g s(1) by (simp add: bind_def andthen_def ret_def)
      moreover have "pos + length ids \<le> n" "pos + ?lim \<le> pos + length ids" "pos < pos + length ids"
        using len more False by simp_all
      ultimately show ?thesis using s(2) by (intro exI [of _ True] exI [of _ w5]) auto
    qed
  qed
qed

section \<open>The whole task\<close>

lemma backfill_turn_run:
  assumes E: "db_answers E" "0 < e_fuel E" "finite_history E n"
    and pos: "pos \<le> i32_max" and w: "resting u (Some (show_nat pos)) w"
  shows "\<exists>w'. backfill_turn u c E w = (Ok False, w') \<and> resting u None w' \<or>
    backfill_turn u c E w = (Ok True, w') \<and> (\<exists>pos'. pos' \<le> n \<and> pos + c_sync_limit (e_cfg E) \<le> pos' \<and> pos < pos' \<and>
      resting u (Some (show_nat pos')) w')"
proof -
  have ok: "e_fault (e_net E) i = None" for i using E(1) by (simp add: db_answers_def)
  let ?w = "tick E (tick E w)"
  have w1: "resting u (Some (show_nat pos)) ?w" using w by (simp add: resting_def position_def held_locks_def)
  obtain more w2 where b: "backfill_batch u c pos E ?w = (Ok more, w2)" and m: "if more
    then \<exists>pos'. pos' \<le> n \<and> pos + c_sync_limit (e_cfg E) \<le> pos' \<and> pos < pos' \<and> resting u (Some (show_nat pos')) w2
    else resting u (Some (show_nat pos)) w2"
    using backfill_batch_run [OF E pos w1] by blast
  have parse: "parse_usize (show_nat pos) = Some pos" using pos by (intro parse_show_nat) (simp add: i32_max_def)
  have run: "backfill_turn u c E w = (if more then andthen (sleep 5) (ret True) else andthen (backfill_done u) (ret False)) E w2"
    using w b parse ok by (simp add: backfill_turn_def bind_def attempt_def get_kv resting_def position_def Let_def)
  show ?thesis
  proof (cases more)
    case True
    then obtain pos' where p: "pos' \<le> n" "pos + c_sync_limit (e_cfg E) \<le> pos'" "pos < pos'"
      "resting u (Some (show_nat pos')) w2" using m by auto
    obtain w3 where s: "sleep 5 E w2 = (Ok (), w3)" "resting u (Some (show_nat pos')) w3"
      using p(4) by (simp add: sleep_def resting_def position_def held_locks_def)
    then have "backfill_turn u c E w = (Ok True, w3)" using run True by (simp add: andthen_def bind_def ret_def)
    then show ?thesis using p s(2) by blast
  next
    case False
    obtain w3 where d1: "ignore (delete_jmap_state u ''backfill_position'') E w2 = (Ok (), w3)" "resting u None w3"
      using m False ok by (simp add: ignore_def bind_def attempt_def ret_def delete_jmap_state_def exec_unit_def run_def Let_def
          resting_def position_def held_locks_def kv_map_def find_drop_row)
    obtain w4 where d2: "ignore (delete_jmap_state u backfill_cutoff_key) E w3 = (Ok (), w4)"
      using ok by (simp add: ignore_def bind_def attempt_def ret_def delete_jmap_state_def exec_unit_def run_def Let_def)
    have "within (evolves (spares_position u)) (ignore (delete_jmap_state u backfill_cutoff_key))"
      by (intro frame_rules) (simp add: spares_position_def backfill_cutoff_key_def)
    then have "resting u None w4"
      using resting_kept [of u "ignore (delete_jmap_state u backfill_cutoff_key)" E w3 "Ok ()" w4 None] d2 d1(2) by (simp add: settles_ignore settles_poll_leaves)
    moreover have "backfill_turn u c E w = (Ok False, w4)"
      using run False d1(1) d2 by (simp add: backfill_done_def andthen_def bind_def ret_def)
    ultimately show ?thesis by blast
  qed
qed

text \<open>Each turn but the last moves the position by a page.\<close>

lemma backfill_turns_run:
  assumes E: "db_answers E" "0 < e_fuel E" "finite_history E n"
    and n: "n \<le> i32_max" "0 < c_sync_limit (e_cfg E)"
  shows "resting u (Some (show_nat pos)) w \<Longrightarrow> pos \<le> i32_max \<Longrightarrow> (n - pos) div c_sync_limit (e_cfg E) \<le> k \<Longrightarrow>
    \<exists>w'. backfill_turns (Suc k) u c E w = (Ok False, w') \<and> resting u None w'"
proof (induction k arbitrary: pos w)
  case 0
  obtain w' where t: "backfill_turn u c E w = (Ok False, w') \<and> resting u None w' \<or>
    backfill_turn u c E w = (Ok True, w') \<and> (\<exists>pos'. pos' \<le> n \<and> pos + c_sync_limit (e_cfg E) \<le> pos' \<and> pos < pos' \<and>
      resting u (Some (show_nat pos')) w')"
    using backfill_turn_run [OF E 0(2,1), of c] by blast
  have "n - pos < c_sync_limit (e_cfg E)" using 0(3) n(2) by (simp add: div_eq_0_iff)
  then have "backfill_turn u c E w = (Ok False, w') \<and> resting u None w'" using t n(2) by auto
  then show ?case by (auto simp: bind_def ret_def)
next
  case (Suc k)
  let ?l = "c_sync_limit (e_cfg E)"
  obtain w1 where t: "backfill_turn u c E w = (Ok False, w1) \<and> resting u None w1 \<or>
    backfill_turn u c E w = (Ok True, w1) \<and> (\<exists>pos'. pos' \<le> n \<and> pos + ?l \<le> pos' \<and> pos < pos' \<and>
      resting u (Some (show_nat pos')) w1)"
    using backfill_turn_run [OF E Suc.prems(2,1), of c] by blast
  then show ?case
  proof
    assume "backfill_turn u c E w = (Ok False, w1) \<and> resting u None w1"
    then show ?thesis by (auto simp: bind_def ret_def)
  next
    assume "backfill_turn u c E w = (Ok True, w1) \<and> (\<exists>pos'. pos' \<le> n \<and> pos + ?l \<le> pos' \<and> pos < pos' \<and>
      resting u (Some (show_nat pos')) w1)"
    then obtain pos' where p: "backfill_turn u c E w = (Ok True, w1)" "pos' \<le> n" "pos + ?l \<le> pos'"
      "resting u (Some (show_nat pos')) w1" by blast
    have "(n - pos') div ?l \<le> (n - pos - ?l) div ?l" using p(3) by (intro div_le_mono) simp
    also have "\<dots> = (n - pos) div ?l - 1" using p(2,3) n(2) by (simp add: le_div_geq)
    finally have "(n - pos') div ?l \<le> k" using Suc.prems(3) by simp
    then obtain w' where "backfill_turns (Suc k) u c E w1 = (Ok False, w')" "resting u None w'"
      using Suc.IH [OF p(4)] p(2) n(1) by auto
    then show ?thesis using p(1) by (simp add: bind_def)
  qed
qed

text \<open>
  If the database answers, no creation lock is held, the user has an account row and a saved position,
  and the server answers, lists at most \<open>n\<close> emails and a page is not empty by configuration, then the
  loop of the backfill ends, after one turn for each page that is left and one more, without an error;
  the position is forgotten and no lock is held.
\<close>

theorem backfill_ends:
  assumes "db_answers E" and "0 < e_fuel E" and "finite_history E n" and "n \<le> i32_max" and "0 < c_sync_limit (e_cfg E)"
    and "t_locks (w_db w) = []" and "user_exists (w_db w) u"
    and "kv_map (w_db w) (u, ''backfill_position'') = Some (show_nat pos)" and "pos \<le> i32_max"
  shows "\<exists>w'. run_backfill_loop u c E w = Some (Ok (), w') \<and>
    run_backfill (Suc ((n - pos) div c_sync_limit (e_cfg E))) u c E w = (Ok False, w') \<and>
    kv_map (w_db w') (u, ''backfill_position'') = None \<and> t_locks (w_db w') = []"
proof -
  let ?k = "(n - pos) div c_sync_limit (e_cfg E)"
  obtain w0 where s: "sleep 5 E w = (Ok (), w0)" "resting u (Some (show_nat pos)) w0"
    using assms(6-8) by (simp add: resting_def position_def held_locks_def sleep_def)
  then obtain w' where t: "backfill_turns (Suc ?k) u c E w0 = (Ok False, w')" and r: "resting u None w'"
    using backfill_turns_run [OF assms(1-5) _ assms(9) order_refl] by blast
  show ?thesis
    using turns_end_loop [OF t] t s(1) r unfolding run_backfill_loop_def run_backfill_def andthen_def bind_def [of "sleep 5"]
    by (simp add: resting_def position_def held_locks_def del: backfill_turns.simps)
qed

text \<open>A history of twenty-five emails, listed in pages, with the task at the tenth.\<close>

definition history_env :: env where
  "history_env = sample_env\<lparr>e_cfg := sample_config\<lparr>c_sync_limit := 5\<rparr>, e_jmap := quiet_jmap\<lparr>e_emails := \<lambda>_. JGot [],
     e_query := \<lambda>t. case t of EvJmap c (QEmails since (Some pos) lim) # _ \<Rightarrow>
       JGot (''q'', take lim (drop pos (replicate 25 ''M''))) | _ \<Rightarrow> JGot (''q'', [])\<rparr>\<rparr>"

definition history_world :: world where
  "history_world = sample_world\<lparr>w_db := sample_db\<lparr>t_state := [\<lparr>sr_user = ''@a:x.org'',
     sr_key = ''backfill_position'', sr_val = show_nat 10\<rparr>]\<rparr>\<rparr>"

theorem backfill_ends_witness:
  "\<exists>w'. run_backfill_loop ''@a:x.org'' sample_client history_env history_world = Some (Ok (), w') \<and>
    kv_map (w_db w') (''@a:x.org'', ''backfill_position'') = None"
proof -
  have "db_answers history_env" "0 < e_fuel history_env" "0 < c_sync_limit (e_cfg history_env)"
    "t_locks (w_db history_world) = []" "user_exists (w_db history_world) ''@a:x.org''"
    by (simp_all add: db_answers_def history_env_def history_world_def sample_defs user_exists_def empty_db_def)
  moreover have "kv_map (w_db history_world) (''@a:x.org'', ''backfill_position'') = Some (show_nat 10)"
    by (simp add: history_world_def kv_map_def sr_pk_def)
  moreover have "finite_history history_env 25"
    by (auto simp: finite_history_def history_env_def)
  ultimately show ?thesis
    using backfill_ends [of history_env 25 history_world "''@a:x.org''" 10 sample_client] by (auto simp: i32_max_def)
qed

end
