(* ===== verification/Backoff.thy ===== *)
theory Backoff
  imports Unsend
begin

text \<open>
  The backoff of \<^verbatim>\<open>get_pending_outbound\<close> over time: once an attempt to mail a message has failed, the
  worker does not read that message again before its doubled wait is over, whatever the rest of the
  bridge does in between.
\<close>

section \<open>The row of one message\<close>







section \<open>Two to the number of failures\<close>










end
