(* ===== verification/Sync_Progress.thy ===== *)
theory Sync_Progress
  imports Inbound Contracts
begin

text \<open>
  What a run of \<^verbatim>\<open>sync_emails\<close> (\<^verbatim>\<open>src/src/sync/email.rs\<close>) promises about the sync state it
  keeps: the state moves only when the whole way from the old state to the new one has been walked,
  page by page, with the emails of every page fetched; a run that fails leaves it, or forgets it.
\<close>

section \<open>What was asked for\<close>

definition saved_state :: "mxid \<Rightarrow> db \<Rightarrow> string option" where
  "saved_state u d = kv_map d (u, ''changes'')"

text \<open>Between two traces the emails \<open>ids\<close> were fetched, if there are any.\<close>

definition fetched :: "env \<Rightarrow> jclient \<Rightarrow> email_id list \<Rightarrow> ev list \<Rightarrow> ev list \<Rightarrow> bool" where
  "fetched E c ids tr0 tr1 \<longleftrightarrow> (\<exists>v. tr1 = v @ tr0) \<and> (ids = [] \<or> (\<exists>v l.
     tr1 = v @ EvJmap c (GEmails GetFull ids) # tr0 \<and>
     e_emails (e_jmap E) (EvJmap c (GEmails GetFull ids) # tr0) = JGot l))"

text \<open>The server answered the changes since \<open>s\<close> with the page \<open>ch\<close>, and its emails were fetched.\<close>

definition page_of :: "env \<Rightarrow> jclient \<Rightarrow> ev list \<Rightarrow> string \<Rightarrow> changes \<Rightarrow> ev list \<Rightarrow> bool" where
  "page_of E c tr s ch tr' \<longleftrightarrow> e_changes (e_jmap E) (EvJmap c (EmailChanges s) # tr) = JGot ch \<and>
     fetched E c (ch_created ch @ ch_updated ch) (EvJmap c (EmailChanges s) # tr) tr'"

text \<open>Page after page from the state \<open>s\<close> to \<open>s'\<close>, with more to come.\<close>

inductive pages :: "env \<Rightarrow> jclient \<Rightarrow> ev list \<Rightarrow> string \<Rightarrow> ev list \<Rightarrow> string \<Rightarrow> bool" for E c where
  no_page: "pages E c tr s tr s"
| next_page: "page_of E c tr s ch tr1 \<Longrightarrow> ch_more ch \<Longrightarrow> pages E c tr1 (ch_new_state ch) tr2 s' \<Longrightarrow> pages E c tr s tr2 s'"

text \<open>Every page from \<open>s\<close> to the state \<open>f\<close>, up to the one after which there are no more.\<close>

definition all_changes :: "env \<Rightarrow> jclient \<Rightarrow> ev list \<Rightarrow> string \<Rightarrow> ev list \<Rightarrow> string \<Rightarrow> bool" where
  "all_changes E c tr s tr' f \<longleftrightarrow> (\<exists>tr1 s1 ch. pages E c tr s tr1 s1 \<and> page_of E c tr1 s1 ch tr' \<and>
     \<not> ch_more ch \<and> f = ch_new_state ch)"

text \<open>The server refused to calculate the changes from a state on the way from \<open>s\<close>.\<close>

definition refused :: "env \<Rightarrow> jclient \<Rightarrow> ev list \<Rightarrow> string \<Rightarrow> ev list \<Rightarrow> bool" where
  "refused E c tr s tr' \<longleftrightarrow> (\<exists>tr1 s1 m. pages E c tr s tr1 s1 \<and> tr' = EvJmap c (EmailChanges s1) # tr1 \<and>
     e_changes (e_jmap E) tr' = JMethodErr True m)"

text \<open>Starting over: the first page of mail, oldest first, and \<open>f\<close> the state the server has after that query.\<close>

definition from_scratch :: "env \<Rightarrow> jclient \<Rightarrow> ev list \<Rightarrow> ev list \<Rightarrow> string \<Rightarrow> bool" where
  "from_scratch E c tr tr' f \<longleftrightarrow> (\<exists>cutoff q ids t1 t2.
     t1 = EvJmap c (QEmails cutoff None (c_sync_limit (e_cfg E))) # tr \<and> e_query (e_jmap E) t1 = JGot (q, ids) \<and>
     t2 = EvJmap c EmailState # t1 \<and> e_state (e_jmap E) t2 = JGot f \<and> fetched E c ids t2 tr')"

definition covered :: "env \<Rightarrow> jclient \<Rightarrow> ev list \<Rightarrow> string option \<Rightarrow> ev list \<Rightarrow> string \<Rightarrow> bool" where
  "covered E c tr st tr' f \<longleftrightarrow> (case st of
     None \<Rightarrow> from_scratch E c tr tr' f
   | Some s \<Rightarrow> all_changes E c tr s tr' f \<or> (\<exists>tr1. refused E c tr s tr1 \<and> from_scratch E c tr1 tr' f))"

lemma all_changes_next:
  "page_of E c tr s ch tr1 \<Longrightarrow> ch_more ch \<Longrightarrow> all_changes E c tr1 (ch_new_state ch) tr' f \<Longrightarrow> all_changes E c tr s tr' f"
  unfolding all_changes_def by (blast intro: next_page)

lemma refused_next:
  "page_of E c tr s ch tr1 \<Longrightarrow> ch_more ch \<Longrightarrow> refused E c tr1 (ch_new_state ch) tr' \<Longrightarrow> refused E c tr s tr'"
  unfolding refused_def by (blast intro: next_page)

lemma covered_next:
  assumes "page_of E c tr s ch tr1" and "ch_more ch" and "covered E c tr1 (Some (ch_new_state ch)) tr' f"
  shows "covered E c tr (Some s) tr' f"
  using all_changes_next [OF assms(1,2)] refused_next [OF assms(1,2)] assms(3) unfolding covered_def option.case by blast

lemma covered_last:
  "page_of E c tr s ch tr' \<Longrightarrow> \<not> ch_more ch \<Longrightarrow> covered E c tr (Some s) tr' (ch_new_state ch)"
  unfolding covered_def all_changes_def option.case by (blast intro: no_page)

lemma covered_reset:
  assumes "e_changes (e_jmap E) (EvJmap c (EmailChanges s) # tr) = JMethodErr True m"
    and "covered E c (EvJmap c (EmailChanges s) # tr) None tr' f"
  shows "covered E c tr (Some s) tr' f"
proof -
  have "refused E c tr s (EvJmap c (EmailChanges s) # tr)"
    unfolding refused_def using assms(1) by (blast intro: no_page)
  then show ?thesis using assms(2) unfolding covered_def option.case by blast
qed

section \<open>The walk\<close>

definition unsent :: "label \<Rightarrow> bool" where
  "unsent l \<longleftrightarrow> (\<forall>e. l \<noteq> LEv e)"

lemma unsent_simps [simp]: "\<not> unsent (LEv e)" "unsent (LDb s)" "unsent (LMem m)" "unsent LTick"
  by (simp_all add: unsent_def)

lemma unsent_trace:
  assumes "within (evolves unsent) m" and "m E w = (r, w')"
  shows "w_trace w' = w_trace w"
proof -
  obtain u where u: "w_trace w' = u @ w_trace w" "list_all (\<lambda>e. unsent (LEv e)) u"
    using evolves_events [OF withinD [OF assms(1,2)]] by blast
  then show ?thesis by (cases u) simp_all
qed

lemma junwrap_Ok: "junwrap m v E w = (Ok x, w') \<longleftrightarrow> v = JGot x \<and> w' = w"
  by (cases v) (auto simp: junwrap_def ret_def fail_def)

lemma process_ids_fetched:
  assumes "process_ids u c ids E w = (Ok x, w')"
  shows "fetched E c ids (w_trace w) (w_trace w')"
proof (cases "ids = []")
  case True
  then show ?thesis using assms by (simp add: process_ids_def ret_def fetched_def)
next
  case False
  then obtain l w1 where f: "fetch_emails c ids E w = (Ok l, w1)"
    and rest: "for_each l (\<lambda>e. ignore (process_email u c e)) E w1 = (Ok x, w')"
    using assms by (auto simp: process_ids_def bind_eq_Ok)
  have w1: "w_trace w1 = EvJmap c (GEmails GetFull ids) # w_trace w"
    "e_emails (e_jmap E) (EvJmap c (GEmails GetFull ids) # w_trace w) = JGot l"
    using f by (auto simp: fetch_emails_def bind_eq_Ok jcall_Ok junwrap_Ok emit_def)
  have "within (evolves (\<lambda>_. True)) (for_each l (\<lambda>e. ignore (process_email u c e)))"
    by (intro frame_rules) (simp add: allows_email_def allows_rooms_def allows_attach_def allows_ghost_def allows_jread_def)
  then obtain v where "w_trace w' = v @ w_trace w1"
    using rest evolves_trace withinD by metis
  then show ?thesis using w1 by (auto simp: fetched_def)
qed

lemma unsent_parts:
  "within (evolves unsent) (ignore (save_jmap_state u k v))"
  "within (evolves unsent) (delete_jmap_state u k)"
  "within (evolves unsent) (for_each l (\<lambda>i. ignore (mark_email_destroyed i)))"
  by (intro frame_rules; simp)+

lemma first_page_run:
  assumes "first_page u c E w = (Ok (ids, f), w')"
  shows "\<exists>t1 t2 cutoff q. t1 = EvJmap c (QEmails cutoff None (c_sync_limit (e_cfg E))) # w_trace w \<and>
    e_query (e_jmap E) t1 = JGot (q, ids) \<and> t2 = EvJmap c EmailState # t1 \<and> e_state (e_jmap E) t2 = JGot f \<and>
    w_trace w' = t2"
proof -
  let ?limit = "c_sync_limit (e_cfg E)"
  obtain cutoff q w1 w4 w5 where
    cut: "resolve_backfill_cutoff u E w = (Ok cutoff, w1)" and
    query: "e_query (e_jmap E) (EvJmap c (QEmails cutoff None ?limit) # w_trace w1) = JGot (q, ids)" and
    pos: "(if length ids = ?limit then ignore (save_jmap_state u ''backfill_position'' (show_nat ?limit)) else ret ()) E
       (tick E (emit (EvJmap c (QEmails cutoff None ?limit)) w1)) = (Ok (), w4)" and
    qs: "ignore (save_jmap_state u ''query'' q) E w4 = (Ok (), w5)" and
    state: "e_state (e_jmap E) (EvJmap c EmailState # w_trace w5) = JGot f" "w_trace w' = EvJmap c EmailState # w_trace w5"
    using assms by (auto simp: first_page_def bind_eq_Ok andthen_def jcall_Ok junwrap_Ok asks_def ret_def
        simp del: if_split_asm split: prod.splits)
  have "within (evolves unsent) (resolve_backfill_cutoff u)"
    unfolding resolve_backfill_cutoff_def anchor_cutoff_def by (intro frame_rules; simp)
  then have "w_trace w1 = w_trace w" using cut by (rule unsent_trace)
  moreover have "w_trace w4 = EvJmap c (QEmails cutoff None ?limit) # w_trace w1"
    using pos unsent_trace [OF unsent_parts(1)] by (auto simp: ret_def split: if_splits)
  moreover have "w_trace w5 = w_trace w4" using unsent_trace [OF unsent_parts(1) qs] .
  ultimately show ?thesis using query state by auto
qed

lemma sync_loop_covered:
  "sync_loop n u c st E w = (Ok f, w') \<Longrightarrow> covered E c (w_trace w) st (w_trace w') f"
proof (induction n arbitrary: st w)
  case 0
  then show ?case by (simp add: run_combinators)
next
  case (Suc n)
  show ?case
  proof (cases st)
    case None
    then obtain ids w1 where p: "first_page u c E w = (Ok (ids, f), w1)"
      and i: "process_ids u c ids E w1 = (Ok (), w')"
      using Suc.prems by (auto simp: bind_eq_Ok andthen_def ret_def)
    obtain t1 t2 cutoff q where t: "t1 = EvJmap c (QEmails cutoff None (c_sync_limit (e_cfg E))) # w_trace w"
      "e_query (e_jmap E) t1 = JGot (q, ids)" "t2 = EvJmap c EmailState # t1" "e_state (e_jmap E) t2 = JGot f"
      "w_trace w1 = t2"
      using first_page_run [OF p] by blast
    show ?thesis unfolding None covered_def from_scratch_def option.case
      using t(1-4) process_ids_fetched [OF i, unfolded t(5)] by metis
  next
    case (Some since)
    let ?t1 = "EvJmap c (EmailChanges since) # w_trace w"
    let ?a = "e_changes (e_jmap E) ?t1"
    let ?w1 = "tick E (emit (EvJmap c (EmailChanges since)) w)"
    have t1: "w_trace ?w1 = ?t1" by simp
    have rest: "(if cannot_calculate ?a
       then andthen (delete_jmap_state u ''changes'') (sync_loop n u c None)
       else bind (junwrap ''Empty response for Email/changes'' ?a) (\<lambda>ch.
         andthen (for_each (ch_destroyed ch) (\<lambda>i. ignore (mark_email_destroyed i)))
         (andthen (process_ids u c (ch_created ch @ ch_updated ch))
         (if ch_more ch then sync_loop n u c (Some (ch_new_state ch)) else ret (ch_new_state ch))))) E ?w1 = (Ok f, w')"
      using Suc.prems by (simp add: Some bind_eq_Ok jcall_Ok)
    show ?thesis
    proof (cases "cannot_calculate ?a")
      case True
      then obtain m where m: "?a = JMethodErr True m" by (auto simp: cannot_calculate_def split: jres.splits)
      obtain w2 where d: "delete_jmap_state u ''changes'' E ?w1 = (Ok (), w2)" and l: "sync_loop n u c None E w2 = (Ok f, w')"
        using rest True by (auto simp: andthen_def bind_eq_Ok)
      have "w_trace w2 = ?t1" using unsent_trace [OF unsent_parts(2) d] t1 by simp
      then show ?thesis unfolding Some using covered_reset [OF m] Suc.IH [OF l] by simp
    next
      case False
      then obtain ch w2 w3 where ch: "?a = JGot ch"
        and d: "for_each (ch_destroyed ch) (\<lambda>i. ignore (mark_email_destroyed i)) E ?w1 = (Ok (), w2)"
        and i: "process_ids u c (ch_created ch @ ch_updated ch) E w2 = (Ok (), w3)"
        and l: "(if ch_more ch then sync_loop n u c (Some (ch_new_state ch)) else ret (ch_new_state ch)) E w3 = (Ok f, w')"
        using rest by (auto simp: andthen_def bind_eq_Ok junwrap_def ret_def fail_def split: jres.splits)
      have "w_trace w2 = ?t1" using unsent_trace [OF unsent_parts(3) d] t1 by simp
      then have fe: "fetched E c (ch_created ch @ ch_updated ch) ?t1 (w_trace w3)" using process_ids_fetched [OF i] by simp
      have pg: "page_of E c (w_trace w) since ch (w_trace w3)" using ch fe by (simp add: page_of_def)
      show ?thesis
      proof (cases "ch_more ch")
        case True
        then show ?thesis unfolding Some using covered_next [OF pg True] Suc.IH [of "Some (ch_new_state ch)" w3] l by simp
      next
        case False
        then have "f = ch_new_state ch" "w' = w3" using l by (auto simp: ret_def)
        then show ?thesis unfolding Some using covered_last [OF pg False] by simp
      qed
    qed
  qed
qed

section \<open>The state\<close>

text \<open>Nothing in the walk writes the state; a reset may delete it.\<close>

definition keeps_state :: "mxid \<Rightarrow> label \<Rightarrow> bool" where
  "keeps_state u l \<longleftrightarrow> own_rows u l \<and> (\<forall>v. l \<noteq> LDb (PutKv u ''changes'' v))"

lemma keeps_state_step:
  assumes st: "world_step l w1 w2" and l: "l = LTick \<or> keeps_state u l"
    and s: "saved_state u (w_db w1) \<in> {x, None}"
  shows "saved_state u (w_db w2) \<in> {x, None}"
  using st
proof (cases rule: world_step.cases)
  case (step_db q n d)
  have "saved_state u d \<in> {saved_state u (w_db w1), None}"
    using step_db l by (cases q) (auto simp: keeps_state_def own_rows_def saved_state_def kv_map_def find_put_row
        find_drop_row sr_pk_def [of "state_row_ext _ _ _ _"] split: if_splits)
  then show ?thesis using step_db s by auto
next
  case (step_mem m)
  then show ?thesis using l by (simp add: keeps_state_def own_rows_def)
qed (use s in \<open>auto simp: emit_def\<close>)

lemma sync_loop_keeps_state:
  assumes "sync_loop n u c st E w = (r, w')"
  shows "saved_state u (w_db w') \<in> {saved_state u (w_db w), None}"
proof -
  have "within (evolves (keeps_state u)) (sync_loop n u c st)"
    by (rule sync_loop_evolves) (simp_all add: allows_email_def allows_rooms_def allows_attach_def allows_ghost_def
        allows_jread_def keeps_state_def own_rows_def)
  then have "evolves (keeps_state u) w w'" using assms by (metis withinD)
  then show ?thesis by (rule evolves_invariant) (simp, rule keeps_state_step)
qed

lemma save_state_run:
  assumes "save_jmap_state u ''changes'' f E w = (r, w')"
  shows "w_trace w' = w_trace w \<and> (r = Ok () \<and> saved_state u (w_db w') = Some f \<or>
    (\<exists>e. r = Err e) \<and> saved_state u (w_db w') = saved_state u (w_db w))"
  using assms by (auto simp: save_jmap_state_def exec_unit_def bind_def run_def Let_def ret_def saved_state_def
      kv_map_def find_put_row sr_pk_def [of "state_row_ext _ _ _ _"] split: option.splits if_splits)

text \<open>C7: a run of the email sync that fails, panics or never returns leaves the sync state as it
  was, or deletes it so that the next run starts over; one that succeeds saves a state which the server
  gave. When it had a state to start from, it has asked for every page of changes from there to the
  state it saves and fetched the emails of each, unless the server refused to calculate the changes
  from a state on the way. Only after such a refusal, or without a state, it starts over with the
  first page of mail, the oldest of it.\<close>

theorem sync_skips_no_changes:
  assumes "sync_emails u c E w = (r, w')"
  shows "case r of
      Ok _ \<Rightarrow> \<exists>f. saved_state u (w_db w') = Some f \<and> (case saved_state u (w_db w) of
          Some s \<Rightarrow> all_changes E c (w_trace w) s (w_trace w') f \<or>
            (\<exists>tr. refused E c (w_trace w) s tr \<and> from_scratch E c tr (w_trace w') f)
        | None \<Rightarrow> from_scratch E c (w_trace w) (w_trace w') f)
    | _ \<Rightarrow> saved_state u (w_db w') \<in> {saved_state u (w_db w), None}"
proof (cases "e_fault (e_net E) (w_step w)")
  case (Some m)
  then show ?thesis using assms by (auto simp: sync_emails_def bind_def get_kv)
next
  case None
  let ?st = "saved_state u (w_db w)"
  obtain r1 w1 where l: "sync_loop (e_fuel E) u c ?st E (tick E w) = (r1, w1)"
    by (cases "sync_loop (e_fuel E) u c ?st E (tick E w)")
  have run: "bind (sync_loop (e_fuel E) u c ?st) (save_jmap_state u ''changes'') E (tick E w) = (r, w')"
    using assms None by (simp add: sync_emails_def bind_def get_kv asks_def saved_state_def)
  have kept: "saved_state u (w_db w1) \<in> {?st, None}" using sync_loop_keeps_state [OF l] by simp
  show ?thesis
  proof (cases r1)
    case (Ok f)
    then have save: "save_jmap_state u ''changes'' f E w1 = (r, w')" using run l by (simp add: bind_def)
    have cov: "covered E c (w_trace w) ?st (w_trace w1) f" using sync_loop_covered l Ok by fastforce
    show ?thesis using save_state_run [OF save] kept cov
      by (auto simp: covered_def split: option.splits)
  qed (use run l kept in \<open>auto simp: bind_def\<close>)
qed

text \<open>
  Two pages of changes take the state from \<open>a\<close> over \<open>b\<close> to \<open>z\<close>; the first brings an email, which is
  fetched and, without a sender, not bridged.
\<close>

definition paged_env :: env where
  "paged_env = sample_env\<lparr>e_jmap := quiet_jmap\<lparr>e_changes := (\<lambda>tr.
     if tr = [EvJmap sample_client (EmailChanges ''a'')]
     then JGot \<lparr>ch_created = [''M1''], ch_updated = [], ch_destroyed = [''M0''], ch_new_state = ''b'', ch_more = True\<rparr>
     else JGot \<lparr>ch_created = [], ch_updated = [], ch_destroyed = [], ch_new_state = ''z'', ch_more = False\<rparr>),
     e_emails := (\<lambda>_. JGot [sample_email\<lparr>em_from := None\<rparr>])\<rparr>\<rparr>"

definition paged_world :: world where
  "paged_world = sample_world\<lparr>w_db := sample_db\<lparr>t_state :=
     [\<lparr>sr_user = ''@a:x.org'', sr_key = ''changes'', sr_val = ''a''\<rparr>]\<rparr>\<rparr>"

lemma paged_run:
  "fst (sync_emails ''@a:x.org'' sample_client paged_env paged_world) = Ok ()"
  "saved_state ''@a:x.org'' (w_db (snd (sync_emails ''@a:x.org'' sample_client paged_env paged_world))) = Some ''z''"
  by code_simp+

lemma paged_not_refused: "\<not> refused paged_env sample_client tr s tr'"
  by (simp add: refused_def paged_env_def)

theorem sync_skips_no_changes_witness:
  "all_changes paged_env sample_client [] ''a''
     (w_trace (snd (sync_emails ''@a:x.org'' sample_client paged_env paged_world))) ''z''"
  using sync_skips_no_changes [of "''@a:x.org''" sample_client paged_env paged_world] paged_run paged_not_refused
  by (cases "sync_emails ''@a:x.org'' sample_client paged_env paged_world")
    (auto simp: paged_world_def sample_defs saved_state_def kv_map_def)

end
