(* ===== verification/Launch.thy ===== *)
theory Launch
  imports Startup Routes Samples
begin

text \<open>
  The \<^verbatim>\<open>run\<close> command of \<^verbatim>\<open>src/src/main.rs\<close>: its arguments and their defaults, the checks they
  pass before anything is touched, the settings that reach the components, the sequence of
  start-up, and the router in front of the endpoints. How the command line is tokenised, what a
  duration means, base64 and the file system are arguments.
\<close>

section \<open>Arguments\<close>

record run_args =
  ra_db :: string
  ra_jmap_username :: "string option"
  ra_jmap_token :: "string option"
  ra_jmap_token_file :: "string option"
  ra_jmap_url :: string
  ra_sync_limit :: nat
  ra_backfill_window :: "string option"
  ra_bridge_mailboxes :: bool
  ra_render_mode :: string
  ra_quote_replies :: bool
  ra_send_delay :: int
  ra_matrix_url :: string
  ra_as_token :: "string option"
  ra_as_token_file :: "string option"
  ra_hs_token :: "string option"
  ra_hs_token_file :: "string option"
  ra_domain :: string
  ra_listen_address :: string
  ra_port :: nat
  ra_key :: "string option"
  ra_key_file :: "string option"
  ra_secret :: "string option"
  ra_secret_file :: "string option"
  ra_users :: "string list"
  ra_permissions :: "string list"

text \<open>What is left out on the command line and in the environment; two URLs have no default.\<close>

definition run_defaults :: "string \<Rightarrow> string \<Rightarrow> run_args" where
  "run_defaults jmap_url matrix_url = \<lparr>ra_db = ''sqlite:bridge.db'', ra_jmap_username = None,
     ra_jmap_token = None, ra_jmap_token_file = None, ra_jmap_url = jmap_url, ra_sync_limit = 10,
     ra_backfill_window = None, ra_bridge_mailboxes = False, ra_render_mode = ''links'',
     ra_quote_replies = True, ra_send_delay = 0, ra_matrix_url = matrix_url, ra_as_token = None,
     ra_as_token_file = None, ra_hs_token = None, ra_hs_token_file = None, ra_domain = ''localhost'',
     ra_listen_address = ''127.0.0.1'', ra_port = 8008, ra_key = None, ra_key_file = None,
     ra_secret = None, ra_secret_file = None, ra_users = [], ra_permissions = []\<rparr>"

section \<open>Settings\<close>

text \<open>The builder of \<^verbatim>\<open>ClientManager\<close>: its defaults and the methods that change one of them.\<close>

definition client_manager_new :: "nat \<Rightarrow> config \<Rightarrow> config" where
  "client_manager_new sync_limit cfg = cfg\<lparr>c_sync_limit := sync_limit, c_bridge_mailboxes := False,
     c_render_mode := RenderLinks, c_quote_replies := False, c_send_delay := 0, c_window := None\<rparr>"

definition with_bridge_mailboxes :: "bool \<Rightarrow> config \<Rightarrow> config" where
  "with_bridge_mailboxes enabled cfg = cfg\<lparr>c_bridge_mailboxes := enabled\<rparr>"

definition with_render_mode :: "render_mode \<Rightarrow> config \<Rightarrow> config" where
  "with_render_mode mode cfg = cfg\<lparr>c_render_mode := mode\<rparr>"

definition with_quote_replies :: "bool \<Rightarrow> config \<Rightarrow> config" where
  "with_quote_replies enabled cfg = cfg\<lparr>c_quote_replies := enabled\<rparr>"

definition with_backfill_window :: "string option \<Rightarrow> config \<Rightarrow> config" where
  "with_backfill_window window cfg = cfg\<lparr>c_window := window\<rparr>"

definition trim_end_slashes :: "string \<Rightarrow> string" where
  "trim_end_slashes url = rev (dropWhile (\<lambda>c. c = CHR ''/'') (rev url))"

text \<open>What \<^verbatim>\<open>MatrixClient::new\<close> keeps of its arguments.\<close>

definition matrix_settings :: "string \<Rightarrow> string \<Rightarrow> config \<Rightarrow> config" where
  "matrix_settings url domain cfg = cfg\<lparr>c_homeserver := trim_end_slashes url, c_domain := domain\<rparr>"

text \<open>\<^verbatim>\<open>?\<close> and \<^verbatim>\<open>ensure!\<close> on results that are values.\<close>

definition proceed :: "'e + 'a \<Rightarrow> ('a \<Rightarrow> 'e + 'b) \<Rightarrow> 'e + 'b" where
  "proceed r f = (case r of Inl e \<Rightarrow> Inl e | Inr a \<Rightarrow> f a)"

definition demand :: "bool \<Rightarrow> 'e \<Rightarrow> 'e + unit" where
  "demand b e = (if b then Inr () else Inl e)"

definition because :: "'e \<Rightarrow> 'x + 'a \<Rightarrow> 'e + 'a" where
  "because e r = map_sum (\<lambda>_. e) id r"

lemma proceed_Inr: "proceed r f = Inr b \<longleftrightarrow> (\<exists>a. r = Inr a \<and> f a = Inr b)"
  by (auto simp: proceed_def split: sum.split)

lemma because_Inr: "because e r = Inr a \<longleftrightarrow> r = Inr a"
  by (cases r) (auto simp: because_def)

lemma demand_Inr [simp]: "demand b e = Inr u \<longleftrightarrow> b"
  by (simp add: demand_def)

definition required_secret ::
    "(string \<Rightarrow> string option) \<Rightarrow> string option \<Rightarrow> string option \<Rightarrow> string \<Rightarrow> string + string" where
  "required_secret read inline file name =
     proceed (resolve_secret read inline file name) (\<lambda>s. case s of
       Some v \<Rightarrow> Inr v
     | None \<Rightarrow> Inl (''one of --'' @ name @ '' / --'' @ name @ ''-file is required''))"

definition optional_key :: "(string \<Rightarrow> string option) \<Rightarrow> string option \<Rightarrow> string + string option" where
  "optional_key unb64 key_str = (case key_str of
     None \<Rightarrow> Inr None | Some raw \<Rightarrow> map_sum id Some (decode_key unb64 raw))"

record settings =
  st_config :: config
  st_as_token :: string
  st_jmap_token :: "string option"

definition build_config ::
    "run_args \<Rightarrow> render_mode \<Rightarrow> string option \<Rightarrow> permissions \<Rightarrow> string \<Rightarrow> string option \<Rightarrow> config" where
  "build_config a mode window perms hs_token key =
     with_backfill_window window
     (with_send_delay_default (ra_send_delay a)
     (with_quote_replies (ra_quote_replies a)
     (with_render_mode mode
     (with_bridge_mailboxes (ra_bridge_mailboxes a)
     (client_manager_new (ra_sync_limit a)
     (matrix_settings (ra_matrix_url a) (ra_domain a)
       \<lparr>c_domain = [], c_homeserver = [], c_key = key, c_hs_token = hs_token, c_secret = None,
        c_perms = perms, c_sync_limit = 0, c_bridge_mailboxes = False, c_render_mode = RenderLinks,
        c_quote_replies = False, c_send_delay = 0, c_window = None\<rparr>))))))"

text \<open>The checks in the order of the code; the first that fails ends the program.\<close>

definition run_settings ::
    "(string \<Rightarrow> string option) \<Rightarrow> (string \<Rightarrow> string + (string \<times> bool)) \<Rightarrow> (string \<Rightarrow> string option)
     \<Rightarrow> run_args \<Rightarrow> string + settings" where
  "run_settings read span unb64 a =
     proceed (case parse_render_mode (ra_render_mode a) of Some m \<Rightarrow> Inr m | None \<Rightarrow> Inl ''unknown render mode'') (\<lambda>mode.
     proceed (because ''invalid --backfill-window''
       (parse_backfill_window span (case ra_backfill_window a of Some s \<Rightarrow> s | None \<Rightarrow> []))) (\<lambda>window.
     proceed (because ''invalid --permission spec'' (from_specs (ra_permissions a) (ra_domain a))) (\<lambda>perms.
     proceed (resolve_secret read (ra_jmap_token a) (ra_jmap_token_file a) ''jmap-token'') (\<lambda>jmap_token.
     proceed (required_secret read (ra_as_token a) (ra_as_token_file a) ''matrix-as-token'') (\<lambda>as_token.
     proceed (required_secret read (ra_hs_token a) (ra_hs_token_file a) ''matrix-hs-token'') (\<lambda>hs_token.
     proceed (demand (as_token \<noteq> []) ''matrix-as-token must not be empty'') (\<lambda>_.
     proceed (demand (hs_token \<noteq> []) ''matrix-hs-token must not be empty'') (\<lambda>_.
     proceed (resolve_secret read (ra_key a) (ra_key_file a) ''encryption-key'') (\<lambda>key_str.
     proceed (optional_key unb64 key_str) (\<lambda>key.
     Inr \<lparr>st_config = build_config a mode window perms hs_token key, st_as_token = as_token,
       st_jmap_token = jmap_token\<rparr>))))))))))"

section \<open>Running\<close>

text \<open>The double-puppet secret is read last, when everything else is up.\<close>

definition puppet_secret :: "(string \<Rightarrow> string option) \<Rightarrow> run_args \<Rightarrow> string + string option" where
  "puppet_secret read a = map_sum id (\<lambda>s. case s of Some v \<Rightarrow> if v = [] then None else Some v | None \<Rightarrow> None)
     (resolve_secret read (ra_secret a) (ra_secret_file a) ''double-puppet-secret'')"

text \<open>The result is the configuration that the endpoints run with.\<close>

definition main_run ::
    "(string \<Rightarrow> string option) \<Rightarrow> (string \<Rightarrow> string + (string \<times> bool)) \<Rightarrow> (string \<Rightarrow> string option)
     \<Rightarrow> string \<Rightarrow> string \<Rightarrow> run_args \<Rightarrow> config act" where
  "main_run read span unb64 logo logo_hash a E w = (case run_settings read span unb64 a of
     Inl e \<Rightarrow> fail (Other e) E w
   | Inr s \<Rightarrow>
       andthen (bring_up read logo logo_hash (ra_jmap_username a) (st_jmap_token s) (ra_jmap_url a) (ra_users a))
         (case puppet_secret read a of
            Inl e \<Rightarrow> fail (Other e)
          | Inr secret \<Rightarrow> ret ((st_config s)\<lparr>c_secret := secret\<rparr>))
         (E\<lparr>e_cfg := st_config s\<rparr>) w)"

text \<open>\<^verbatim>\<open>generate-registration\<close>: the YAML and the write to the file are arguments.\<close>

definition generate_command ::
    "(registration \<Rightarrow> string) \<Rightarrow> (string \<Rightarrow> string \<Rightarrow> 'f \<Rightarrow> string + 'f) \<Rightarrow> string \<Rightarrow> string \<Rightarrow> string \<Rightarrow> string
     \<Rightarrow> 'f \<Rightarrow> string + 'f" where
  "generate_command to_yaml write token1 token2 url output =
     write output (to_yaml (generate_registration token1 token2 url))"

section \<open>The router\<close>

datatype http_method = Get | Head | Put | Post | OtherMethod

text \<open>
  A request by what the routes look at: its method, its decoded path segments, the two places of
  the token, and its body as each of the two JSON extractors sees it (or the status of their
  refusal).
\<close>

record http_request =
  rq_method :: http_method
  rq_path :: "string list"
  rq_authorization :: "string option"
  rq_query :: "string option"
  rq_txn :: "nat + matrix_txn"
  rq_ping :: "nat + string option"

definition extracted :: "nat + 'b \<Rightarrow> ('b \<Rightarrow> response act) \<Rightarrow> response act" where
  "extracted body h = (case body of Inl status \<Rightarrow> ret (Response status []) | Inr b \<Rightarrow> h b)"

definition app_prefix :: "string list" where
  "app_prefix = [''_matrix'', ''app'', ''v1'']"

text \<open>A route for \<^verbatim>\<open>GET\<close> also takes \<^verbatim>\<open>HEAD\<close>.\<close>

definition app_route :: "http_request \<Rightarrow> response act option" where
  "app_route r = (let m = (if rq_method r = Head then Get else rq_method r); p = rq_path r in
     if m = Get \<and> p = [] then Some (ret (Response 200 []))
     else if take 3 p = app_prefix then (case (m, drop 3 p) of
         (Put, [kind, txn_key]) \<Rightarrow>
           if kind = ''transactions'' then Some (extracted (rq_txn r) (handle_transactions txn_key)) else None
       | (Get, [kind, arg]) \<Rightarrow>
           if kind = ''users'' then Some (handle_users arg)
           else if kind = ''rooms'' then Some (handle_rooms arg) else None
       | (Post, [kind]) \<Rightarrow>
           if kind = ''ping'' then Some (extracted (rq_ping r) handle_ping) else None
       | _ \<Rightarrow> None)
     else None)"

text \<open>The token check is laid around every route; a request that matches none is left to the server.\<close>

definition serve :: "http_request \<Rightarrow> response act option" where
  "serve r = map_option (auth_middleware (rq_authorization r) (rq_query r)) (app_route r)"

text \<open>The server answers requests until the signal, then the sessions are shut down.\<close>

primrec serve_all :: "http_request list \<Rightarrow> unit act" where
  "serve_all [] = shutdown"
| "serve_all (r # rs) = andthen (case serve r of None \<Rightarrow> ret () | Some h \<Rightarrow> ignore h) (serve_all rs)"

section \<open>What a configuration that starts guarantees\<close>

definition launchable :: "settings \<Rightarrow> bool" where
  "launchable s \<longleftrightarrow> st_as_token s \<noteq> [] \<and> c_hs_token (st_config s) \<noteq> []
     \<and> (case c_key (st_config s) of None \<Rightarrow> True | Some k \<Rightarrow> length k = key_bytes)
     \<and> 0 \<le> c_send_delay (st_config s) \<and> c_send_delay (st_config s) \<le> max_send_delay_secs
     \<and> (c_homeserver (st_config s) = [] \<or> last (c_homeserver (st_config s)) \<noteq> CHR ''/'')"

lemma decode_key_length: "decode_key unb64 raw = Inr k \<Longrightarrow> length k = key_bytes"
  by (auto simp: decode_key_def Let_def split: option.splits if_splits)

lemma optional_key_length: "optional_key unb64 s = Inr (Some k) \<Longrightarrow> length k = key_bytes"
  by (cases s; cases "decode_key unb64 (the s)") (auto simp: optional_key_def dest: decode_key_length)

lemma trim_end_slashes_last: "trim_end_slashes url = [] \<or> last (trim_end_slashes url) \<noteq> CHR ''/''"
  using hd_dropWhile [of "\<lambda>c. c = CHR ''/''" "rev url"]
  by (auto simp: trim_end_slashes_def last_rev)

lemma build_config_fields:
  "c_hs_token (build_config a mode window perms hs key) = hs"
  "c_key (build_config a mode window perms hs key) = key"
  "c_perms (build_config a mode window perms hs key) = perms"
  "c_homeserver (build_config a mode window perms hs key) = trim_end_slashes (ra_matrix_url a)"
  "c_send_delay (build_config a mode window perms hs key) = clamp 0 max_send_delay_secs (ra_send_delay a)"
  by (simp_all add: build_config_def with_backfill_window_def with_send_delay_default_def
      with_quote_replies_def with_render_mode_def with_bridge_mailboxes_def client_manager_new_def
      matrix_settings_def)

text \<open>C30: a bridge that starts has both tokens, a key of 32 bytes or none, a send delay of at
  most five minutes and a homeserver address without a slash at its end, and admits whom its
  permission specs say; anything else ends it before the database is opened.\<close>

theorem launch_settings_checked:
  assumes "run_settings read span unb64 a = Inr s"
  shows "launchable s \<and> from_specs (ra_permissions a) (ra_domain a) = Inr (c_perms (st_config s))"
proof -
  have "launchable s" if "s = \<lparr>st_config = build_config a mode window perms hs key, st_as_token = t, st_jmap_token = j\<rparr>"
    and "t \<noteq> []" and "hs \<noteq> []" and "optional_key unb64 key_str = Inr key" for mode window perms hs key t j key_str
    using that trim_end_slashes_last [of "ra_matrix_url a"] optional_key_length [of unb64 key_str]
    by (auto simp: launchable_def build_config_fields clamp_def max_send_delay_secs_def split: option.split)
  then show ?thesis
    using assms by (auto simp: run_settings_def proceed_Inr because_Inr build_config_fields)
qed

definition sample_args :: run_args where
  "sample_args = (run_defaults ''https://j'' ''https://hs/'')
     \<lparr>ra_as_token := Some ''a'', ra_hs_token := Some ''h'', ra_send_delay := 900\<rparr>"

lemma sample_settings:
  "run_settings (\<lambda>_. None) (\<lambda>_. Inl ''none'') (\<lambda>_. None) sample_args = Inr
     \<lparr>st_config = build_config sample_args RenderLinks None [(''localhost'', User)] ''h'' None,
      st_as_token = ''a'', st_jmap_token = None\<rparr>"
proof -
  have "parse_render_mode ''links'' = Some RenderLinks" by code_simp
  then show ?thesis
    by (simp add: run_settings_def proceed_def because_def demand_def sample_args_def run_defaults_def
        parse_backfill_window_def Let_def from_specs_def resolve_secret_def required_secret_def optional_key_def)
qed

theorem launch_settings_checked_witness:
  "launchable \<lparr>st_config = build_config sample_args RenderLinks None [(''localhost'', User)] ''h'' None,
     st_as_token = ''a'', st_jmap_token = None\<rparr>"
  using launch_settings_checked [OF sample_settings] by simp

section \<open>No endpoint without the token\<close>

definition authorised :: "env \<Rightarrow> http_request \<Rightarrow> bool" where
  "authorised E r \<longleftrightarrow> request_token (rq_authorization r) (rq_query r) = Some (c_hs_token (e_cfg E))"

lemma refused:
  assumes "\<not> authorised E r" and "serve r = Some h"
  shows "\<exists>status code. h E w = (Ok (Response status code), w) \<and> status \<in> {401, 403}"
  using assms
  by (auto simp: authorised_def serve_def auth_middleware_def token_matches_def bind_def asks_def ret_def
      split: option.splits)

lemma refused_ignored:
  assumes "\<not> authorised E r"
  shows "(case serve r of None \<Rightarrow> ret () | Some h \<Rightarrow> ignore h) E w = (Ok (), w)"
proof (cases "serve r")
  case (Some h)
  obtain st code where "h E w = (Ok (Response st code), w)" using refused [OF assms Some] by blast
  then show ?thesis by (simp add: Some ignore_def attempt_def bind_def ret_def)
qed (simp add: ret_def)

lemma serve_authorised: "serve_all rs E w = serve_all (filter (authorised E) rs) E w"
proof (induction rs arbitrary: w)
  case (Cons r rs)
  show ?case
  proof (cases "authorised E r")
    case True
    then show ?thesis by (simp add: andthen_def bind_def Cons.IH cong: outcome.case_cong)
  next
    case False
    have "serve_all (r # rs) E w = serve_all rs E w"
      using refused_ignored [OF False, of w] by (simp add: andthen_def bind_def)
    then show ?thesis using False Cons.IH [of w] by simp
  qed
qed simp

text \<open>C29: whatever routes they name and however many they are, requests without the homeserver's
  token are as if they had never come: what the bridge does, sends and stores until it is shut
  down is what it does for the requests with the token alone.\<close>

theorem unauthorised_requests_are_noise:
  "serve_all rs E w =
    serve_all (filter (\<lambda>r. request_token (rq_authorization r) (rq_query r) = Some (c_hs_token (e_cfg E))) rs) E w"
  using serve_authorised [of rs E w] by (simp add: authorised_def [abs_def])

end
