(* ===== verification/Debug_View.thy ===== *)
theory Debug_View
  imports Effects
begin

text \<open>
  What \<^verbatim>\<open>{:?}\<close> prints of the long-lived values, and so what can reach a log through them: the
  hand-written \<^verbatim>\<open>Debug\<close> implementations and the derived ones they contain. The text is kept as a
  tree; values of other crates are \<open>Opaque\<close>.
\<close>

section \<open>Debug trees\<close>

datatype debug =
    Opaque
  | Quoted string
  | Bare string
  | Count nat
  | Instant int
  | Absent
  | Present debug
  | Locked debug
  | Entries "(string \<times> debug) list"
  | Struct string "(string \<times> debug) list"
  | OpenStruct string "(string \<times> debug) list"

text \<open>\<open>finish_non_exhaustive\<close> gives an \<open>OpenStruct\<close>. The strings that a tree spells out:\<close>

fun spells :: "debug \<Rightarrow> string set" where
  "spells (Quoted s) = {s}"
| "spells (Bare s) = {s}"
| "spells (Present d) = spells d"
| "spells (Locked d) = spells d"
| "spells (Entries kvs) = (\<Union>(k, d) \<in> set kvs. insert k (spells d))"
| "spells (Struct _ fs) = (\<Union>(_, d) \<in> set fs. spells d)"
| "spells (OpenStruct _ fs) = (\<Union>(_, d) \<in> set fs. spells d)"
| "spells _ = {}"

section \<open>The values\<close>

record matrix_client =
  mc_as_token :: string
  mc_homeserver_url :: string
  mc_domain :: string

record store_handle =
  sh_key :: "string option"

record client_manager =
  cm_store :: store_handle
  cm_matrix :: matrix_client
  cm_sync_limit :: nat

record app_state =
  ap_manager :: client_manager
  ap_logins :: "(mxid \<times> login_state \<times> int) list"
  ap_hs_token :: string

record jmap_poller =
  jp_matrix :: matrix_client
  jp_store :: store_handle
  jp_user :: mxid
  jp_sync_limit :: nat
  jp_window :: "string option"

section \<open>What they print\<close>

fun login_state_debug :: "login_state \<Rightarrow> debug" where
  "login_state_debug LsNone = Bare ''None''"
| "login_state_debug WaitingForEmail = Bare ''WaitingForEmail''"
| "login_state_debug (WaitingForPassword _) = Bare ''WaitingForPassword''"
| "login_state_debug (WaitingForUrl _ _) = Bare ''WaitingForUrl''"

definition login_entry_debug :: "login_state \<Rightarrow> int \<Rightarrow> debug" where
  "login_entry_debug s expires = Struct ''LoginStateEntry''
     [(''state'', login_state_debug s), (''expires_at'', Instant expires)]"

definition state_store_debug :: "(mxid \<times> login_state \<times> int) list \<Rightarrow> debug" where
  "state_store_debug states = Struct ''StateStore''
     [(''login_states'', Locked (Entries (map (\<lambda>(u, s, t). (u, login_entry_debug s t)) states)))]"

definition store_debug :: "store_handle \<Rightarrow> debug" where
  "store_debug s = OpenStruct ''Store'' [(''encryption_key'',
     case sh_key s of None \<Rightarrow> Absent | Some _ \<Rightarrow> Present (Quoted ''[REDACTED]''))]"

definition matrix_debug :: "matrix_client \<Rightarrow> debug" where
  "matrix_debug m = Struct ''MatrixClient'' [(''client'', Opaque), (''http_client'', Opaque),
     (''as_token'', Quoted (mc_as_token m)), (''homeserver_url'', Quoted (mc_homeserver_url m)),
     (''domain'', Quoted (mc_domain m))]"

definition client_manager_debug :: "client_manager \<Rightarrow> debug" where
  "client_manager_debug c = OpenStruct ''ClientManager'' [(''store'', store_debug (cm_store c)),
     (''matrix'', matrix_debug (cm_matrix c)), (''sync_limit'', Count (cm_sync_limit c))]"

definition app_state_debug :: "app_state \<Rightarrow> debug" where
  "app_state_debug a = OpenStruct ''AppState'' [(''client_manager'', client_manager_debug (ap_manager a)),
     (''state_store'', state_store_debug (ap_logins a)), (''hs_token'', Quoted ''[REDACTED]'')]"

definition jmap_poller_debug :: "jmap_poller \<Rightarrow> debug" where
  "jmap_poller_debug p = OpenStruct ''JmapPoller'' [(''matrix'', matrix_debug (jp_matrix p)),
     (''store'', store_debug (jp_store p)), (''matrix_user_id'', Quoted (jp_user p)),
     (''sync_limit'', Count (jp_sync_limit p)),
     (''backfill_window'', case jp_window p of None \<Rightarrow> Absent | Some w \<Rightarrow> Present (Quoted w))]"

section \<open>What they hide, and what they do not\<close>

text \<open>The variant of a login state without the email and password it carries.\<close>

fun variant :: "login_state \<Rightarrow> nat" where
  "variant LsNone = 0"
| "variant WaitingForEmail = 1"
| "variant (WaitingForPassword _) = 2"
| "variant (WaitingForUrl _ _) = 3"

definition public_store :: "store_handle \<Rightarrow> bool" where
  "public_store s \<longleftrightarrow> sh_key s \<noteq> None"

definition public_state ::
    "app_state \<Rightarrow> bool \<times> matrix_client \<times> nat \<times> (mxid \<times> nat \<times> int) list" where
  "public_state a = (public_store (cm_store (ap_manager a)), cm_matrix (ap_manager a), cm_sync_limit (ap_manager a),
     map (\<lambda>(u, s, t). (u, variant s, t)) (ap_logins a))"

lemma login_debug_variant: "variant s = variant s' \<Longrightarrow> login_state_debug s = login_state_debug s'"
  by (cases s; cases s') auto

lemma store_debug_public: "public_store s = public_store s' \<Longrightarrow> store_debug s = store_debug s'"
  by (auto simp: public_store_def store_debug_def split: option.split)

lemma state_store_debug_variants:
  "map (\<lambda>(u, s, t). (u, variant s, t)) xs = map (\<lambda>(u, s, t). (u, variant s, t)) ys \<Longrightarrow>
   state_store_debug xs = state_store_debug ys"
proof (induction xs arbitrary: ys)
  case (Cons x xs)
  then obtain y ys' where "ys = y # ys'" by (cases ys) auto
  then show ?case using Cons
    by (auto simp: state_store_debug_def login_entry_debug_def split: prod.splits dest: login_debug_variant)
qed (simp add: state_store_debug_def)

text \<open>The key, the homeserver's token, and the email and password of a login dialogue never show.\<close>

lemma app_state_debug_hides_secrets:
  assumes "public_state a = public_state b"
  shows "app_state_debug a = app_state_debug b"
  using assms store_debug_public [of "cm_store (ap_manager a)" "cm_store (ap_manager b)"]
    state_store_debug_variants [of "ap_logins a" "ap_logins b"]
  by (simp add: public_state_def app_state_debug_def client_manager_debug_def)

text \<open>The appservice token does: \<^verbatim>\<open>MatrixClient\<close> derives its \<^verbatim>\<open>Debug\<close>.\<close>

lemma as_token_spelled_out:
  "mc_as_token (cm_matrix (ap_manager a)) \<in> spells (app_state_debug a)"
  "mc_as_token (jp_matrix p) \<in> spells (jmap_poller_debug p)"
  by (simp_all add: app_state_debug_def client_manager_debug_def jmap_poller_debug_def matrix_debug_def)

end
