(* ===== verification/Login_Dialogue.thy ===== *)
theory Login_Dialogue
  imports Handlers Retry_Queue
begin

text \<open>
  The login dialogue as an automaton: how the messages of a user move it
  (\<^verbatim>\<open>src/src/services/transactions.rs\<close>, \<^verbatim>\<open>src/src/commands/login.rs\<close>), and that the bridge connects
  to a mail server only with credentials that were typed.
\<close>

section \<open>What leaves the dialogues alone\<close>

definition dialogue_frame :: "mxid \<Rightarrow> label \<Rightarrow> bool" where
  "dialogue_frame u l \<longleftrightarrow> sender_label u l \<and> keeps_dialogue l"

lemma dialogue_frame_simps [simp]:
  "dialogue_frame u (LEv e)" "dialogue_frame u (LDb s) = sender_stmt u s"
  "dialogue_frame u (LMem m) \<longleftrightarrow> sender_mem u m \<and> keeps_dialogue (LMem m)"
  by (simp_all add: dialogue_frame_def)

lemma plain_is_framed: "within (evolves (plain_label u)) m \<Longrightarrow> within (evolves (dialogue_frame u)) m"
  by (erule within_mono) (simp add: plain_label_def dialogue_frame_def)

lemma framed_logins: "evolves (dialogue_frame u) w w' \<Longrightarrow> w_logins w' = w_logins w"
proof (erule evolves_invariant [where I = "\<lambda>w'. w_logins w' = w_logins w"])
  fix l w1 w2
  assume st: "world_step l w1 w2" and l: "l = LTick \<or> dialogue_frame u l" and k: "w_logins w1 = w_logins w"
  show "w_logins w2 = w_logins w"
    using st
  proof (cases rule: world_step.cases)
    case (step_mem m)
    then show ?thesis using l k by (cases m) (auto simp: keeps_dialogue_def)
  qed (use k in \<open>auto simp: emit_def\<close>)
qed simp

lemma execute_plain:
  "c \<noteq> LoginCommand \<Longrightarrow> u = cx_sender cx \<Longrightarrow> within (evolves (plain_label u)) (execute c cx)"
  using own_commands_plain [of u cx] plain_commands_plain [of u cx] puppet_commands_plain(1) [of u cx]
  by (cases c) simp_all

lemma say_plain: "within (evolves (plain_label u)) (say cx m)"
  by (intro frame_rules; simp)

lemma one_shot_framed: "within (evolves (dialogue_frame (cx_sender cx))) (handle_one_shot_login cx)"
  unfolding handle_one_shot_login_def
  by (intro frame_rules plain_is_framed [OF puppet_commands_plain(2)];
      simp add: allows_ghost_def allows_session_def allows_jread_def keeps_dialogue_def sender_stmt_def)


text \<open>
  \<open>undisturbed w w'\<close>: the dialogues of \<open>w'\<close> are those of \<open>w\<close>. \<open>moved u s w w'\<close>: in between the
  dialogue of \<open>u\<close> alone was put into the state \<open>s\<close>, with five minutes to live from then.
\<close>

definition undisturbed :: "world \<Rightarrow> world \<Rightarrow> bool" where
  "undisturbed w w' \<longleftrightarrow> w_clock w \<le> w_clock w' \<and> (\<forall>t v. w_clock w' \<le> t \<longrightarrow> login_at w' t v = login_at w t v)"

definition moved :: "mxid \<Rightarrow> login_state \<Rightarrow> world \<Rightarrow> world \<Rightarrow> bool" where
  "moved u s w w' \<longleftrightarrow> w_clock w \<le> w_clock w' \<and> (\<exists>x. w_clock w + 300 \<le> x \<and> x \<le> w_clock w' + 300 \<and>
     (\<forall>t. w_clock w' \<le> t \<longrightarrow> login_at w' t u = (if t < x then s else LsNone) \<and>
       (\<forall>v. v \<noteq> u \<longrightarrow> login_at w' t v = login_at w t v)))"

lemma undisturbed_trans: "undisturbed w w1 \<Longrightarrow> undisturbed w1 w2 \<Longrightarrow> undisturbed w w2"
  by (auto simp: undisturbed_def)

lemma moved_after: "undisturbed w w1 \<Longrightarrow> moved u s w1 w2 \<Longrightarrow> moved u s w w2"
  unfolding undisturbed_def moved_def by (elim conjE exE, intro conjI exI; force)

lemma moved_before: "moved u s w w1 \<Longrightarrow> undisturbed w1 w2 \<Longrightarrow> moved u s w w2"
  unfolding undisturbed_def moved_def by (elim conjE exE, intro conjI exI) auto

lemma framed_undisturbed: "evolves (dialogue_frame u) w w' \<Longrightarrow> undisturbed w w'"
  using framed_logins evolves_clock by (auto simp: undisturbed_def)

lemma plain_undisturbed: "within (evolves (plain_label u)) m \<Longrightarrow> undisturbed w (snd (m E w))"
  using plain_is_framed [of u m] framed_undisturbed [of u w "snd (m E w)"] by (simp add: within_def)

lemma moved_set: "moved u s w (snd (set_login_state u s E w))"
  using set_login_state_run [of u s E w]
  by (auto simp: moved_def login_state_ttl_def set_login_state_def now_def bind_def gets_def mem_def)

lemma moved_clear: "moved u LsNone w (snd (clear_login_state u E w))"
  using clear_login_state_run [of u E w] by (auto simp: moved_def clear_login_state_def mem_def)

lemma moved_none:
  assumes "undisturbed w w'" and "login_at w (w_clock w) u = LsNone"
  shows "moved u LsNone w w'"
proof -
  have "login_at w t u = LsNone" if "w_clock w \<le> t" for t
    using assms(2) that by (auto simp: live_login_def split: option.splits if_splits)
  then show ?thesis using assms(1) by (auto simp: undisturbed_def moved_def)
qed

lemma login_read:
  "\<exists>w1. get_login_state u E w = (Ok (login_at w (w_clock w) u), w1) \<and> undisturbed w w1 \<and> w_clock w1 = w_clock w"
proof -
  have "w_clock (snd (get_login_state u E w)) = w_clock w"
    by (simp add: get_login_state_def now_def bind_def gets_def ret_def andthen_def mem_def split: option.split)
  then show ?thesis
    using get_login_state_run [of u E w] get_login_state_keeps [of w _ u E]
    by (cases "get_login_state u E w") (auto simp: undisturbed_def)
qed

lemma snd_ignore [simp]: "snd (ignore m E w) = snd (m E w)"
  by (cases "m E w"; cases "fst (m E w)") (auto simp: ignore_def attempt_def bind_def ret_def)

lemma snd_andthen: "fst (m E w) = Ok () \<Longrightarrow> snd (andthen m n E w) = snd (n E (snd (m E w)))"
  by (cases "m E w") (simp add: andthen_def bind_def)

section \<open>The automaton\<close>

fun advance :: "bool \<Rightarrow> login_state \<Rightarrow> string \<Rightarrow> login_state" where
  "advance permitted LsNone b = (if permitted \<and> (trim b = ''login'' \<or> trim b = ''!login'') then WaitingForEmail else LsNone)"
| "advance permitted WaitingForEmail b = WaitingForPassword (trim b)"
| "advance permitted (WaitingForPassword e) b = WaitingForUrl e (trim b)"
| "advance permitted (WaitingForUrl e p) b = LsNone"

text \<open>A word that ends in a letter is not shortened by \<open>trim_end\<close>.\<close>

lemma trim_rev_solid: "\<exists>r'. trim_rev (r @ CHR ''x'' # q) = r' @ CHR ''x'' # q"
proof (induction "length r" arbitrary: r rule: less_induct)
  case less
  let ?n = "ws_len_rev (r @ CHR ''x'' # q)"
  have le: "?n \<le> length r"
    by (cases r; cases "tl r"; cases "tl (tl r)"; cases q; cases "tl q")
      (auto simp: ws1_def ws2_def ws3_def Let_def split: list.splits)
  show ?case
  proof (cases "?n = 0")
    case True
    then show ?thesis by (auto simp: trim_rev_id)
  next
    case False
    have "trim_rev (r @ CHR ''x'' # q) = trim_rev (drop ?n r @ CHR ''x'' # q)"
      using False le by (subst trim_rev.simps) simp
    moreover have "length (drop ?n r) < length r" using False le by (cases r) auto
    ultimately show ?thesis using less by metis
  qed
qed

lemma trim_end_solid: "\<exists>r'. trim_end (p @ CHR ''x'' # r) = p @ CHR ''x'' # r'"
proof -
  obtain r' where "trim_rev (rev r @ CHR ''x'' # rev p) = r' @ CHR ''x'' # rev p" using trim_rev_solid by blast
  then show ?thesis by (intro exI [of _ "rev r'"]) (simp add: trim_end_def)
qed

lemma login_is_not_login_matrix:
  assumes "trim b = ''login'' \<or> trim b = ''!login''"
  shows "\<not> starts_with (trim_start b) ''login-matrix'' \<and> \<not> starts_with (trim_start b) ''!login-matrix''"
proof -
  have "\<not> starts_with (trim_start b) (p @ ''x'')" if "p @ ''x'' = ''login-matrix'' \<or> p @ ''x'' = ''!login-matrix''" for p
  proof
    assume "starts_with (trim_start b) (p @ ''x'')"
    then have "trim_start b = p @ CHR ''x'' # drop (length p + 1) (trim_start b)"
      unfolding starts_with_def by (metis append.assoc append_Cons append_Nil append_take_drop_id length_append length_Cons
          list.size(3) One_nat_def)
    then obtain r' where "trim b = p @ CHR ''x'' # r'" using trim_end_solid unfolding trim_def by metis
    then show False using that assms by auto
  qed
  from this [of "''login-matri''"] this [of "''!login-matri''"] show ?thesis by simp
qed


lemma login_word_dispatch:
  assumes "trim (cx_body cx) = ''login'' \<or> trim (cx_body cx) = ''!login''"
  shows "dispatch commands cx l = andthen (set_login_state (cx_sender cx) WaitingForEmail)
    (say cx ''Please enter your email address:'')"
proof -
  have "\<not> matches_help cx" "\<not> matches_status cx" "\<not> matches_logout cx" "\<not> matches_sync cx" "matches_login cx"
    using assms by (auto simp: matches_help_def matches_status_def matches_logout_def matches_sync_def matches_login_def Let_def)
  moreover have "\<not> matches_send_delay cx"
    using assms by (auto simp: matches_send_delay_def starts_with_def Let_def)
  moreover have "\<not> matches_login_matrix cx"
    using login_is_not_login_matrix [OF assms] by (simp add: matches_login_matrix_def Let_def)
  moreover have "execute LoginCommand cx = andthen (set_login_state (cx_sender cx) WaitingForEmail)
      (say cx ''Please enter your email address:'')"
    using assms by (auto simp: execute_login_def Let_def)
  moreover have "\<not> l < min_level c" for c by (simp add: min_level_def less_level_def)
  ultimately show ?thesis by (simp add: commands_def del: execute.simps)
qed

lemma other_dispatch:
  assumes "trim (cx_body cx) \<noteq> ''login''" and "trim (cx_body cx) \<noteq> ''!login''"
  shows "within (evolves (dialogue_frame (cx_sender cx))) (dispatch cs cx l)"
proof (induction cs)
  case (Cons c cs)
  have "within (evolves (dialogue_frame (cx_sender cx))) (execute LoginCommand cx)"
    using assms one_shot_framed by (auto simp: execute_login_def Let_def intro!: ev.pure)
  then have "within (evolves (dialogue_frame (cx_sender cx))) (execute c cx)"
    using execute_plain [THEN plain_is_framed, of c "cx_sender cx" cx] by (cases "c = LoginCommand") simp_all
  moreover have "within (evolves (dialogue_frame (cx_sender cx))) (say cx m)" for m
    by (intro plain_is_framed say_plain)
  ultimately show ?case using Cons by (simp add: within_if)
qed (auto intro: ev.pure)

lemma notify_total: "total (notify r m)"
  unfolding notify_def by (intro total_rules total_ignore calm_rules)

lemma redact_secret_total: "total (redact_secret r e k)"
  unfolding redact_secret_def by (auto intro!: total_rules total_ignore calm_rules split: option.split)

lemma login_calm: "calm (login u n t s)"
proof -
  have "calm (save_user v)" "calm (abort_poller u)" "calm (start_session u c)" "calm (fetch_primary_email c)"
    "calm (connect_jmap n t s)" for v c
    unfolding save_user_def abort_poller_def start_session_def fetch_primary_email_def connect_jmap_def by (intro calm_rules)+
  then show ?thesis unfolding login_def by (intro calm_rules)
qed

lemma login_framed: "within (evolves (dialogue_frame u)) (login u n t s)"
  by (intro frame_rules; simp add: allows_session_def allows_jread_def keeps_dialogue_def sender_stmt_def)

lemma total_fst: "total m \<Longrightarrow> fst (m E w) = Ok ()" for m :: "unit act"
  unfolding total_def by (metis (full_types) fst_conv old.unit.exhaust)

lemma dialogue_writes_Ok: "fst (set_login_state u s E w) = Ok ()" "fst (clear_login_state u E w) = Ok ()"
  by (simp_all add: set_login_state_def clear_login_state_def now_def bind_def gets_def mem_def)

lemma moved_set_then: "within (evolves (plain_label u)) m \<Longrightarrow> moved u s w (snd (andthen (set_login_state u s) m E w))"
  using moved_before [OF moved_set plain_undisturbed] by (simp add: snd_andthen dialogue_writes_Ok)

lemma notice_plain: "within (evolves (plain_label u)) (notify r x)" "within (evolves (plain_label u)) (redact_secret r' e k)"
  by (intro frame_rules; simp)+

lemma none_moves:
  assumes "login_at w (w_clock w) (cx_sender cx) = LsNone"
  shows "moved (cx_sender cx) (advance (level_for (c_perms (e_cfg E)) (cx_sender cx) \<noteq> None) LsNone (cx_body cx)) w
    (snd (handle_login_none cx E w))"
proof (cases "level_for (c_perms (e_cfg E)) (cx_sender cx)")
  case None
  have "within (evolves (plain_label (cx_sender cx))) (if matches_any cx then say cx not_permitted_msg else ret ())"
    by (intro frame_rules; simp)
  then show ?thesis
    using None moved_none [OF plain_undisturbed assms, of _ _ E]
    by (simp add: handle_login_none_def bind_def asks_def split del: if_split)
next
  case (Some l)
  have run: "handle_login_none cx E w = dispatch commands cx l E w"
    using Some by (simp add: handle_login_none_def bind_def asks_def)
  show ?thesis
  proof (cases "trim (cx_body cx) = ''login'' \<or> trim (cx_body cx) = ''!login''")
    case True
    then show ?thesis using moved_set_then [OF say_plain] by (simp add: run login_word_dispatch Some)
  next
    case False
    then have "undisturbed w (snd (dispatch commands cx l E w))"
      using other_dispatch [of cx commands l] by (auto simp: within_def intro: framed_undisturbed)
    then show ?thesis using moved_none [OF _ assms] False by (simp add: run)
  qed
qed

lemma password_moves:
  "moved u (WaitingForUrl em (trim b)) w (snd (handle_login_waiting_for_password u b r e em E w))"
  using moved_after [OF plain_undisturbed [OF notice_plain(2)] moved_set_then [OF notice_plain(1)]]
  by (simp add: handle_login_waiting_for_password_def snd_andthen total_fst [OF redact_secret_total])

lemma url_moves: "moved u LsNone w (snd (handle_login_waiting_for_url u b r em pw E w))"
proof -
  let ?w1 = "snd (notify r ''Attempting to log in...'' E w)"
  have p: "within (evolves (plain_label u)) (try_auto_double_puppet u)" by (intro frame_rules; simp)
  obtain o2 w2 where w2: "attempt (login u em pw (trim b)) E ?w1 = (Ok o2, w2)"
    using calm_attempt_Ok [OF login_calm] by blast
  have "within (evolves (dialogue_frame u)) (attempt (login u em pw (trim b)))" by (intro ev.attempt login_framed)
  then have u2: "undisturbed w w2"
    using undisturbed_trans [OF plain_undisturbed [OF notice_plain(1)] framed_undisturbed] w2 unfolding within_def
    by (metis snd_conv)
  have ok: "moved u LsNone w2 (snd (andthen (clear_login_state u)
      (andthen (notify r ''Success! You are now logged in.'') (try_auto_double_puppet u)) E w2))"
    using moved_before [OF moved_clear plain_undisturbed [OF ev.andthen [OF notice_plain(1) p]]]
    by (simp add: snd_andthen dialogue_writes_Ok)
  have failed: "moved u LsNone w2 (snd (andthen (notify r login_failed_msg) (clear_login_state u) E w2))"
    using moved_after [OF plain_undisturbed [OF notice_plain(1)] moved_clear]
    by (simp add: snd_andthen total_fst [OF notify_total])
  have "snd (handle_login_waiting_for_url u b r em pw E w) = snd ((case o2 of
      Inr _ \<Rightarrow> andthen (clear_login_state u) (andthen (notify r ''Success! You are now logged in.'') (try_auto_double_puppet u))
    | Inl _ \<Rightarrow> andthen (notify r login_failed_msg) (clear_login_state u)) E w2)"
    using w2 by (simp add: handle_login_waiting_for_url_def snd_andthen total_fst [OF notify_total] bind_def)
  then show ?thesis using moved_after [OF u2 ok] moved_after [OF u2 failed] by (cases o2) simp_all
qed

lemma private_moves:
  "moved u (advance (level_for (c_perms (e_cfg E)) u \<noteq> None) (login_at w (w_clock w) u) (msg_body (mc_type mc))) w
    (snd (handle_private_message u mc r e E w))"
proof -
  let ?st = "login_at w (w_clock w) u"
  obtain w1 where g: "get_login_state u E w = (Ok ?st, w1)" and u1: "undisturbed w w1" and c: "w_clock w1 = w_clock w"
    using login_read by blast
  show ?thesis
  proof (cases ?st)
    case LsNone
    moreover have "login_at w1 (w_clock w1) u = LsNone" using u1 c LsNone by (simp add: undisturbed_def)
    ultimately show ?thesis
      using g moved_after [OF u1 none_moves [of w1 "\<lparr>cx_sender = u, cx_body = msg_body (mc_type mc), cx_room = Some r,
        cx_event = Some e, cx_content = mc\<rparr>" E]] by (simp add: handle_private_message_def bind_def Let_def)
  next
    case WaitingForEmail
    then show ?thesis
      using g moved_after [OF u1 moved_set_then [OF notice_plain(1)]]
      by (simp add: handle_private_message_def bind_def Let_def handle_login_waiting_for_email_def)
  next
    case (WaitingForPassword em)
    then show ?thesis
      using g moved_after [OF u1 password_moves] by (simp add: handle_private_message_def bind_def Let_def)
  next
    case (WaitingForUrl em pw)
    then show ?thesis
      using g moved_after [OF u1 url_moves] by (simp add: handle_private_message_def bind_def Let_def)
  qed
qed

text \<open>C19: in a room that is no contact's, a message of a user moves the login dialogue of that user
  exactly as the automaton says: \<open>login\<close> starts it for a permitted user, the next three messages are
  taken as the address, the password and the URL, each trimmed, and after the third it is over,
  whether or not the login succeeds. Every step gives five more minutes, then the dialogue is
  forgotten; the dialogues of others stay as they are.\<close>

theorem login_dialogue_advances:
  assumes "te_kind ev = EMessage (Some mc)" and "\<not> is_bridge_user (te_sender ev)" and "is_routed (mc_type mc)"
    and "\<forall>e b. mc_relates mc \<noteq> Some (RelReplace e b)"
    and "e_fault (e_net E) (w_step w) = None" and "ghost_of (te_room ev) (w_db w) = None"
  shows "moved (te_sender ev) (advance (level_for (c_perms (e_cfg E)) (te_sender ev) \<noteq> None)
      (login_at w (w_clock (tick E w)) (te_sender ev)) (msg_body (mc_type mc))) w (snd (process_event ev E w))"
proof -
  have "get_ghost_email_by_room (te_room ev) E w = (Ok None, tick E w)"
    using assms(5,6) by (simp add: get_ghost_email_by_room_def query_Ok)
  then have "process_event ev E w = handle_private_message (te_sender ev) mc (te_room ev) (te_id ev) E (tick E w)"
    using assms(1-4) by (auto simp: process_event_def Let_def handle_message_event_def handle_room_message_def bind_def
        split: option.split relation.split)
  moreover have "undisturbed w (tick E w)" by (simp add: undisturbed_def tick_def)
  ultimately show ?thesis
    using moved_after [OF _ private_moves] by (metis tick_simps(5))
qed


text \<open>The whole dialogue of a permitted user.\<close>

lemma advance_dialogue:
  "advance True (advance True (advance True (advance True LsNone ''login'') em) pw) url = LsNone"
  "advance True (advance True (advance True LsNone ''login'') em) pw = WaitingForUrl (trim em) (trim pw)"
proof -
  have "trim ''login'' = ''login''" by code_simp
  then show "advance True (advance True (advance True (advance True LsNone ''login'') em) pw) url = LsNone"
    "advance True (advance True (advance True LsNone ''login'') em) pw = WaitingForUrl (trim em) (trim pw)" by simp_all
qed

definition login_event :: timeline_event where
  "login_event = \<lparr>te_sender = ''@a:x.org'', te_id = ''$l'', te_room = ''!dm:x.org'',
     te_kind = EMessage (Some \<lparr>mc_type = MText '' a@y.org '', mc_relates = None\<rparr>)\<rparr>"

definition asked_world :: world where
  "asked_world = sample_world\<lparr>w_logins := [(''@a:x.org'', WaitingForEmail, 40100)]\<rparr>"

theorem login_dialogue_advances_witness:
  "moved ''@a:x.org'' (WaitingForPassword ''a@y.org'') asked_world (snd (process_event login_event sample_env asked_world))"
proof -
  have k: "te_kind login_event = EMessage (Some \<lparr>mc_type = MText '' a@y.org '', mc_relates = None\<rparr>)"
    "te_sender login_event = ''@a:x.org''" by (simp_all add: login_event_def)
  have "\<not> is_bridge_user (te_sender login_event)" by (simp add: k is_bridge_user_def starts_with_def)
  moreover have "e_fault (e_net sample_env) (w_step asked_world) = None" "ghost_of (te_room login_event) (w_db asked_world) = None"
    by (simp_all add: asked_world_def sample_defs ghost_of_def empty_db_def find_row_def)
  moreover have "login_at asked_world (w_clock (tick sample_env asked_world)) ''@a:x.org'' = WaitingForEmail"
    by (simp add: asked_world_def sample_defs tick_def live_login_def)
  moreover have "trim '' a@y.org '' = ''a@y.org''" by code_simp
  ultimately show ?thesis
    using login_dialogue_advances [OF k(1), of sample_env asked_world] by (simp add: k is_routed_def)
qed

section \<open>Connecting only with what was typed\<close>

definition typed :: "login_state \<Rightarrow> string \<Rightarrow> string \<Rightarrow> string \<Rightarrow> string \<Rightarrow> bool" where
  "typed st b url name token \<longleftrightarrow> (case st of
     LsNone \<Rightarrow> (\<exists>x rest. split_whitespace b = x # name # token # url # rest)
   | WaitingForUrl em pw \<Rightarrow> name = em \<and> token = pw \<and> url = trim b
   | _ \<Rightarrow> False)"

definition typed_label :: "mxid \<Rightarrow> login_state \<Rightarrow> string \<Rightarrow> label \<Rightarrow> bool" where
  "typed_label u st b l \<longleftrightarrow> sender_label u l \<and> (\<forall>s n t. l = LEv (EvConnect s n t) \<longrightarrow> typed st b s n t)"

lemma typed_label_simps [simp]:
  "typed_label u st b (LEv e) \<longleftrightarrow> (\<forall>s n t. e = EvConnect s n t \<longrightarrow> typed st b s n t)"
  "typed_label u st b (LMem m) = sender_mem u m" "typed_label u st b (LDb s) = sender_stmt u s"
  by (auto simp: typed_label_def)

lemma plain_is_typed: "within (evolves (plain_label u)) m \<Longrightarrow> within (evolves (typed_label u st b)) m"
  by (erule within_mono) (auto simp: plain_label_def typed_label_def connects_def)

lemma typed_allows [simp]: "allows_jread (typed_label u st b)" "allows_ghost (typed_label u st b)"
  by (simp_all add: allows_jread_def allows_ghost_def)

lemma dialogue_typed:
  "within (evolves (typed_label u st b)) (set_login_state u s')" "within (evolves (typed_label u st b)) (clear_login_state u)"
  "within (evolves (typed_label u st b)) (get_login_state u)"
  by (intro frame_rules; simp)+

lemma login_typed: "typed st b s n t \<Longrightarrow> within (evolves (typed_label u st b)) (login u n t s)"
  unfolding login_def by (intro frame_rules; simp add: sender_stmt_def)

lemma one_shot_typed:
  "within (evolves (typed_label (cx_sender cx) LsNone (cx_body cx))) (handle_one_shot_login cx)"
  unfolding handle_one_shot_login_def
  by (intro frame_rules login_typed plain_is_typed [OF puppet_commands_plain(2)]; simp add: typed_def)

lemma none_typed:
  "within (evolves (typed_label (cx_sender cx) LsNone (cx_body cx))) (handle_login_none cx)"
proof -
  have say: "within (evolves (typed_label (cx_sender cx) LsNone (cx_body cx))) (say cx m)" for m
    by (intro plain_is_typed say_plain)
  have "within (evolves (typed_label (cx_sender cx) LsNone (cx_body cx))) (execute LoginCommand cx)"
    unfolding execute.simps execute_login_def Let_def by (intro frame_rules dialogue_typed say one_shot_typed)
  then have "within (evolves (typed_label (cx_sender cx) LsNone (cx_body cx))) (execute c cx)" for c
    using execute_plain [THEN plain_is_typed, of c "cx_sender cx" cx] by (cases "c = LoginCommand") simp_all
  then have "within (evolves (typed_label (cx_sender cx) LsNone (cx_body cx))) (dispatch cs cx l)" for cs l
    by (induction cs) (simp_all add: within_if say ev.pure)
  then show ?thesis unfolding handle_login_none_def by (intro frame_rules say)
qed

lemma private_typed:
  "evolves (typed_label u (login_at w (w_clock w) u) (msg_body (mc_type mc))) w (snd (handle_private_message u mc r e E w))"
proof -
  let ?st = "login_at w (w_clock w) u" and ?b = "msg_body (mc_type mc)"
  obtain w1 where g: "get_login_state u E w = (Ok ?st, w1)" using login_read by blast
  have e1: "evolves (typed_label u ?st ?b) w w1" using withinD [OF dialogue_typed(3) g] .
  have n: "within (evolves (typed_label u ?st ?b)) (notify (Some r) x)" for x
    by (intro plain_is_typed notice_plain)
  have "within (evolves (typed_label u ?st ?b)) (case ?st of
       LsNone \<Rightarrow> handle_login_none \<lparr>cx_sender = u, cx_body = ?b, cx_room = Some r, cx_event = Some e, cx_content = mc\<rparr>
     | WaitingForEmail \<Rightarrow> handle_login_waiting_for_email u ?b (Some r)
     | WaitingForPassword email \<Rightarrow> handle_login_waiting_for_password u ?b (Some r) (Some e) email
     | WaitingForUrl email password \<Rightarrow> handle_login_waiting_for_url u ?b (Some r) email password)"
  proof (cases ?st)
    case LsNone
    then show ?thesis using none_typed [of "\<lparr>cx_sender = u, cx_body = ?b, cx_room = Some r, cx_event = Some e, cx_content = mc\<rparr>"]
      by simp
  next
    case WaitingForEmail
    then show ?thesis unfolding handle_login_waiting_for_email_def
      by (simp, intro frame_rules dialogue_typed) (use n WaitingForEmail in simp)
  next
    case (WaitingForPassword em)
    then show ?thesis unfolding handle_login_waiting_for_password_def
      by (simp, intro frame_rules dialogue_typed plain_is_typed [OF notice_plain(1)] plain_is_typed [OF notice_plain(2)])
  next
    case (WaitingForUrl em pw)
    then show ?thesis unfolding handle_login_waiting_for_url_def
      by (simp, intro frame_rules dialogue_typed login_typed plain_is_typed [OF notice_plain(1)]
          plain_is_typed [OF puppet_commands_plain(2)]) (simp_all add: typed_def)
  qed
  then have "evolves (typed_label u ?st ?b) w1 (snd (handle_private_message u mc r e E w))"
    using g by (simp add: handle_private_message_def bind_def Let_def within_def)
  then show ?thesis using e1 evolves_trans by blast
qed


lemma message_typed:
  "evolves (typed_label u (login_at w (w_clock (tick E w)) u) (msg_body (mc_type mc))) w (snd (handle_message_event u mc r e E w))"
proof -
  let ?K = "typed_label u (login_at w (w_clock (tick E w)) u) (msg_body (mc_type mc))"
  have room: "evolves ?K w (snd (handle_room_message u mc r e E w))"
  proof (cases "get_ghost_email_by_room r E w")
    case (Pair o1 w1)
    then have w1: "w1 = tick E w" by (auto simp: get_ghost_email_by_room_def query_def Let_def split: option.splits)
    have t: "evolves ?K w (tick E w)" by (intro tick_evolves evolves_refl)
    have "within (evolves ?K) (propagate_sqlx (handle_ghost_message u mc r e))"
      unfolding propagate_sqlx_def by (intro frame_rules plain_is_typed [OF ghost_message_plain])
    then have a: "evolves ?K w (snd (propagate_sqlx (handle_ghost_message u mc r e) E (tick E w)))"
      by (intro evolves_trans [OF _ t]) (simp add: within_def)
    have b: "evolves ?K w (snd (handle_private_message u mc r e E (tick E w)))"
      using evolves_trans [OF _ t] private_typed [of u "tick E w" mc r e E] by simp
    show ?thesis using Pair w1 t a b by (cases o1) (simp_all add: handle_room_message_def bind_def)
  qed
  have "within (evolves ?K) (edit_queued r x y)" for x y by (intro plain_is_typed queue_changes_plain)
  then show ?thesis using room
    by (auto simp: handle_message_event_def within_def ret_def evolves_refl split: option.split relation.split)
qed

text \<open>C12: an event makes the bridge connect to a mail server only if it is a message, and then only
  with what its sender typed: the three words of a one-shot login while no dialogue is open, or the
  address and the password of the dialogue and the trimmed message as the URL.\<close>

theorem connects_only_as_typed:
  "\<exists>v. w_trace (snd (process_event ev E w)) = v @ w_trace w \<and>
     {(s, n, t). EvConnect s n t \<in> set v} \<subseteq> {(s, n, t). \<exists>mc. te_kind ev = EMessage (Some mc) \<and>
       typed (login_at w (w_clock (tick E w)) (te_sender ev)) (msg_body (mc_type mc)) s n t}"
proof (cases "\<exists>mc. te_kind ev = EMessage (Some mc) \<and> \<not> is_bridge_user (te_sender ev)")
  case True
  then obtain mc where mc: "te_kind ev = EMessage (Some mc)" "\<not> is_bridge_user (te_sender ev)" by blast
  then have "process_event ev E w = handle_message_event (te_sender ev) mc (te_room ev) (te_id ev) E w"
    by (simp add: process_event_def Let_def)
  then show ?thesis
    using evolves_events [OF message_typed [of "te_sender ev" w E mc "te_room ev" "te_id ev"]] mc(1)
    by (auto simp: list_all_iff)
next
  case False
  then have "within (evolves (plain_label (te_sender ev))) (process_event ev)"
    unfolding process_event_def Let_def
    by (cases "te_kind ev") (auto simp: frame_rules membership_plain reaction_plain queue_changes_plain split: option.split)
  then have "evolves (plain_label (te_sender ev)) w (snd (process_event ev E w))" by (simp add: within_def)
  then obtain v where v: "w_trace (snd (process_event ev E w)) = v @ w_trace w" "list_all (\<lambda>e. \<not> connects (LEv e)) v"
    using evolves_events by fastforce
  have "EvConnect s n t \<notin> set v" for s n t using v(2) by (auto simp: list_all_iff connects_def)
  with v(1) show ?thesis by blast
qed

end
