(* ===== verification/Spec2Isabelle.thy ===== *)
theory Spec2Isabelle
  imports Accounts Puppets Delivery Thread_Run Fetch_Safety Text_Claims Poll_End Backfill_End Backoff
    Sync_Progress Launch Debug_View Unsend Login_Dialogue
begin

text \<open>
  A verification development of the JMAP-Matrix bridge.

  \<^bold>\<open>The program.\<close> The bridge is a Matrix appservice. It polls a JMAP mail account for every
  Matrix user who logged in, turns each email thread into a room in which a ghost user stands for
  the contact, and turns what the user writes in such a room into mail. State that must survive a
  restart is in one SQLite database (\<^verbatim>\<open>src/src/store\<close>); sessions, login dialogues and the set of
  running puppets are in memory. Five kinds of tasks share it: the appservice endpoints
  (\<^verbatim>\<open>routes.rs\<close>, \<^verbatim>\<open>services/transactions.rs\<close>, \<^verbatim>\<open>commands\<close>), an event loop with a debounced poller per session
  (\<^verbatim>\<open>client_manager.rs\<close>, \<^verbatim>\<open>sync\<close>), a backfill task per session, the outbound worker
  (\<^verbatim>\<open>retry.rs\<close>), and a puppet task per user with a Matrix token (\<^verbatim>\<open>puppet.rs\<close>).

  \<^bold>\<open>How code becomes definitions.\<close> An action (\<open>Actions\<close>) is a function of an environment and a
  world that returns an outcome and the new world. The outcome (\<open>Effects\<close>) is \<open>Ok\<close>, \<open>Err\<close>, a
  panic, or \<open>Hang\<close> for a wait that the fuel did not outlast. The world holds the database, the
  in-memory maps, the clock, the tasks spawned so far and the trace of everything sent, newest
  first. The environment holds what is not under \<^verbatim>\<open>src/\<close>: the answers of the homeserver, of
  the mail server, of DNS and of HTTP servers as functions of the whole trace; statement faults,
  the passing of time, the order of the rows of an unordered query, nonces and UUIDs as functions of
  a step counter; the functions of
  third-party crates (ruma, jmap-client, ammonia, html2text, url, AES-GCM, base64); and the
  configuration. No property assumes anything of it that is not among its hypotheses. Text is its
  UTF-8 bytes (\<open>Rust_Str\<close> has the routines of \<^verbatim>\<open>str\<close>), IPv4 octets and IPv6 segments are
  words, times are unbounded seconds, and counters that Rust keeps at a width are checked against
  it where the code checks (the backfill position) and are otherwise far below it.

  \<^bold>\<open>Theories and the code they model.\<close>
  \<open>Prelude\<close> and \<open>Rust_Str\<close>: lemmas on tables and the string routines.
  \<open>Permissions\<close>: \<^verbatim>\<open>permissions.rs\<close>.
  \<open>Tables\<close>: the rows and the constraints of \<^verbatim>\<open>src/migrations\<close>, as lists of records and
  \<open>db_ok\<close>. \<open>Statements\<close>: every writing SQL statement as a constructor of \<open>stmt\<close>, and \<open>exec\<close>.
  \<open>Store\<close>: the methods of \<^verbatim>\<open>store/*.rs\<close>. \<open>Crypto\<close>: \<^verbatim>\<open>crypto.rs\<close>.
  \<open>Api\<close>: the data and requests at the two borders. \<open>Matrix_Client\<close>: \<^verbatim>\<open>matrix.rs\<close>.
  \<open>Sender\<close>: \<^verbatim>\<open>sender.rs\<close>. \<open>Localpart\<close>, \<open>Rooms\<close> and \<open>Ghost\<close>: \<^verbatim>\<open>ghost.rs\<close>; \<open>Room_Lock\<close>: its
  \<^verbatim>\<open>ensure_email_space\<close> run by many tasks at once. \<open>Thread_Lock\<close>: \<^verbatim>\<open>process_new_thread\<close> of
  \<^verbatim>\<open>sync/email.rs\<close> run for many emails of one thread at once.
  \<open>Content_Text\<close>, \<open>Content_Html\<close>, \<open>Content\<close>: \<^verbatim>\<open>services/content.rs\<close>. \<open>Images\<close>, \<open>Send_State\<close>,
  \<open>Transactions\<close>: the other files of \<^verbatim>\<open>services\<close>. \<open>Net\<close>: \<^verbatim>\<open>net.rs\<close>.
  \<open>Sync_Email\<close>: \<^verbatim>\<open>sync/email.rs\<close>. \<open>Poller\<close>: \<^verbatim>\<open>sync/mailbox.rs\<close>, \<^verbatim>\<open>backfill.rs\<close>, \<^verbatim>\<open>mod.rs\<close>.
  \<open>Sessions\<close> and \<open>Event_Loop\<close>: \<^verbatim>\<open>client_manager.rs\<close>. \<open>Retry\<close>: \<^verbatim>\<open>retry.rs\<close>.
  \<open>Puppet_Login\<close> and \<open>Puppet_Sync\<close>: \<^verbatim>\<open>puppet.rs\<close>. \<open>Login_State\<close>: \<^verbatim>\<open>state.rs\<close>.
  \<open>Commands\<close>: \<^verbatim>\<open>commands.rs\<close> and \<^verbatim>\<open>commands/*.rs\<close>. \<open>Routes\<close>: \<^verbatim>\<open>routes.rs\<close>.
  \<open>Startup\<close>: \<^verbatim>\<open>config.rs\<close> and the start-up sequence of \<^verbatim>\<open>main.rs\<close>. \<open>Launch\<close>: the arguments of
  \<^verbatim>\<open>main.rs\<close>, their defaults and checks, and its router. \<open>Debug_View\<close>: the \<^verbatim>\<open>Debug\<close>
  implementations of the long-lived values.
  A definition has the name of the Rust function it models; parts of a long function have names of
  their own and are composed under the name of the whole.

  \<^bold>\<open>The frame logic.\<close> \<open>Actions\<close> labels each primitive step of an action (a statement, a request,
  a change of an in-memory map, a tick of the clock). \<open>evolves K\<close> relates two worlds between which
  only steps with labels in \<open>K\<close> lie, and \<open>within (evolves K) m\<close> says that \<open>m\<close> makes no others.
  Each component proves such a bound once for each of its operations, for every \<open>K\<close> that allows
  what the operation needs, so that a property of a handler picks a \<open>K\<close> and gets an invariant by
  \<open>evolves_invariant\<close>. \<open>calm m\<close> says that \<open>m\<close> always returns. \<open>Contracts\<close> states what clients rely
  on in the store as the locales of a key-value table, of a mutex and of a set of claims, and
  interprets them on the model's tables.

  \<^bold>\<open>What is shown.\<close>
  \<open>Retry_Queue\<close>: the queue's invariant, totality of the worker, and that mail leaves the queue only
  when it was accepted, given up on with a notice, or unmapped.
  \<open>Outbox\<close>: no queued mail is accepted twice, and all that the worker submits is queued mail, to the
  contact of its room, through its owner's session. \<open>Delivery\<close> runs the endpoints, the polls, the
  backfills, the pruning and the worker by turns and traces every submitted mail back to an event of
  its owner. \<open>Unsend\<close> opens up the rounds of the worker: reads and single submissions fall anywhere
  between redactions, edits and polls; mail redacted within its send delay is never submitted, mail
  redacted after it was read is, although the user is told otherwise. \<open>Backoff\<close>: after a failure the
  worker does not read the mail again before the doubled wait is over, whatever happens in between.
  \<open>Room_Lock\<close>: mutual exclusion and at most one space in every interleaving. \<open>Thread_Lock\<close>: the
  tasks of a new thread refine that lock, one room per thread while no room is given up between its
  creation and its record, and otherwise an account of every room made and of the orphans among them.
  \<open>Thread_Run\<close> shows that the function as \<open>Sync_Email\<close> has it takes these steps when it runs alone,
  and that the rooms and posts of the steps are those among the requests it sends.
  \<open>Event_Loop\<close>: bounds of the waits and of the polls per signal, and that a signal leads to a poll.
  \<open>Inbound\<close>: what an email that is already bridged, is the user's own or lacks a sender does not
  do; the read-state gate; the cutoff; and the frame of a poll. \<open>Poll_End\<close>: the end of the mailbox loop.
  \<open>Poll_Settles\<close>: a whole poll comes to an end and gives back the locks it took. \<open>Backfill_End\<close>: the
  loop of the backfill ends when the mailbox is finite, with a bound on its turns.
  \<open>Sync_Progress\<close>: the email sync moves its state only over pages of changes that it asked for and
  whose emails it fetched, and starts over only without a state or when the server refuses one.
  \<open>Handlers\<close> and \<open>Access\<close>: the frame of an event by its sender, permissions, transactions, tokens
  and the redaction of secrets. \<open>Login_Dialogue\<close>: the dialogue of a login as an automaton, and that the
  bridge connects only with what was typed. \<open>Accounts\<close>: login dialogues, logout, stored credentials, the key,
  permission specs. \<open>Puppets\<close>: the unread flag and invitations. \<open>Fetch_Safety\<close>: which hosts and
  addresses a guarded fetch dials, hop by hop. \<open>Text_Claims\<close>: localparts, size limits, quotes and images. \<open>Launch\<close>: what a
  configuration that starts guarantees, and that requests without the token have no effect.
  \<open>Debug_View\<close>: which secrets a debug print hides and which it does not.

  \<^bold>\<open>Bounds and fuel.\<close> \<open>e_fuel\<close> bounds the loops whose end is up to somebody else: the waits for a
  creation lock, and the rounds of a poll. A loop that uses it up is \<open>Hang\<close>, never a result.
  \<open>mailbox_loop_ends\<close> says how much is enough for the mailboxes, and \<open>poll_ends\<close> how much for a
  whole poll that starts with no creation lock held, on a database that answers; with
  a lock that nobody gives back no amount is enough. \<open>safe_get\<close> needs no fuel beyond its own limit of
  redirects. The endless tasks (worker, puppet, cleanup) are
  \<open>n\<close> turns for every \<open>n\<close>; so is the backfill for the properties that hold at every moment, and
  \<open>run_backfill_loop\<close> is its loop without a bound, \<open>None\<close> if it never ends (\<open>backfill_ends\<close>); the event loop and the two locks are step relations without a bound.

  \<^bold>\<open>Not modelled.\<close> What is logged and when; timeouts inside HTTP clients (they are failed answers);
  the text of the migrations beyond their constraints, and the pool of database connections; the
  construction of the Matrix SDK client; the tokenising of the command line, the socket and the
  shutdown signal. Tasks other than those of \<open>Room_Lock\<close>, \<open>Thread_Lock\<close>, \<open>Event_Loop\<close> and the worker
  of \<open>Unsend\<close> run one at a time here, so a handler's steps are not interleaved with those of another; the release of a scope
  guard, a task of its own in the program, runs at the end of the scope, except in the two lock
  theories, where it is a step like any other. The aborting of a poller is the removal of its entry.
\<close>

end
